theory Spec2Isabelle
  imports Complex_Main "HOL-Library.AList"
begin

section \<open>JavaScript values\<close>

text \<open>
  The values that reach the logging functions of \<^verbatim>\<open>js/src/logger.ts\<close>. An object is the
  list of its own enumerable properties in enumeration order, so that
  \<^verbatim>\<open>Object.entries\<close> is the list itself; a JavaScript object never holds a key twice.
  Numbers are the finite ones, as rationals, and the three others: \<^verbatim>\<open>NaN\<close>, and
  \<^verbatim>\<open>Infinity\<close> with its sign (\<open>JInfinity True\<close> is \<^verbatim>\<open>Infinity\<close>, \<open>JInfinity False\<close> is
  \<^verbatim>\<open>-Infinity\<close>).
\<close>

datatype jv =
    JUndefined
  | JNull
  | JBool bool
  | JNum rat
  | JNaN
  | JInfinity bool
  | JStr string
  | JArr "jv list"
  | JObj "(string \<times> jv) list"

datatype js_type = T_undefined | T_object | T_boolean | T_number | T_string

fun js_typeof :: "jv \<Rightarrow> js_type" where
  "js_typeof JUndefined = T_undefined"
| "js_typeof JNull = T_object"
| "js_typeof (JBool b) = T_boolean"
| "js_typeof (JNum n) = T_number"
| "js_typeof JNaN = T_number"
| "js_typeof (JInfinity b) = T_number"
| "js_typeof (JStr s) = T_string"
| "js_typeof (JArr xs) = T_object"
| "js_typeof (JObj kvs) = T_object"

text \<open>What \<^verbatim>\<open>if (v)\<close> tests.\<close>

fun truthy :: "jv \<Rightarrow> bool" where
  "truthy JUndefined = False"
| "truthy JNull = False"
| "truthy (JBool b) = b"
| "truthy (JNum n) = (n \<noteq> 0)"
| "truthy JNaN = False"
| "truthy (JInfinity b) = True"
| "truthy (JStr s) = (s \<noteq> [])"
| "truthy (JArr xs) = True"
| "truthy (JObj kvs) = True"

fun isArray :: "jv \<Rightarrow> bool" where
  "isArray (JArr xs) = True"
| "isArray v = False"

text \<open>The decimal index keys of arrays and strings.\<close>

fun nat_to_string :: "nat \<Rightarrow> string" where
  "nat_to_string n =
     (if n < 10 then [char_of (48 + n)]
      else nat_to_string (n div 10) @ [char_of (48 + n mod 10)])"

declare nat_to_string.simps [simp del]

text \<open>
  \<^verbatim>\<open>Object.entries(v)\<close>. It throws on \<^verbatim>\<open>undefined\<close> and \<^verbatim>\<open>null\<close>; every call
  below stands behind the truthiness test of the source, which excludes both.
\<close>

fun object_entries :: "jv \<Rightarrow> (string \<times> jv) list" where
  "object_entries (JObj kvs) = kvs"
| "object_entries (JArr xs) = zip (map nat_to_string [0..<length xs]) xs"
| "object_entries (JStr s) = zip (map nat_to_string [0..<length s]) (map (\<lambda>c. JStr [c]) s)"
| "object_entries v = []"

text \<open>\<^verbatim>\<open>obj[k] = v\<close> on an object: an existing key keeps its place.\<close>

fun set_prop :: "jv \<Rightarrow> string \<Rightarrow> jv \<Rightarrow> jv" where
  "set_prop (JObj kvs) k v = JObj (AList.update k v kvs)"
| "set_prop w k v = w"

section \<open>Log events\<close>

text \<open>
  A user-supplied event (\<^verbatim>\<open>ExperimentLogPartialArgs\<close>, \<^verbatim>\<open>ExperimentLogFullArgs\<close> and
  \<^verbatim>\<open>StartSpanEventArgs\<close> of the source) with the keys the source reads. \<open>None\<close> is an
  absent key (\<^verbatim>\<open>"k" in event\<close> is false), \<open>Some v\<close> a key holding \<open>v\<close>, which may
  be \<open>JUndefined\<close>.
\<close>

record event =
  ev_id :: "jv option"
  ev_input :: "jv option"
  ev_inputs :: "jv option"
  ev_output :: "jv option"
  ev_expected :: "jv option"
  ev_error :: "jv option"
  ev_tags :: "jv option"
  ev_scores :: "jv option"
  ev_metadata :: "jv option"
  ev_metrics :: "jv option"
  ev_datasetRecordId :: "jv option"

definition empty_event :: event where
  "empty_event =
     \<lparr>ev_id = None, ev_input = None, ev_inputs = None, ev_output = None,
      ev_expected = None, ev_error = None, ev_tags = None, ev_scores = None,
      ev_metadata = None, ev_metrics = None, ev_datasetRecordId = None\<rparr>"

text \<open>Reading a property: \<^verbatim>\<open>event.k\<close> is \<^verbatim>\<open>undefined\<close> for an absent key.\<close>

fun prop_value :: "jv option \<Rightarrow> jv" where
  "prop_value None = JUndefined"
| "prop_value (Some v) = v"

datatype error =
    ScoresMustNotBeArray
  | ScoreValuesMustBeNumbers
  | ScoreValuesOutOfRange
  | MetricValuesMustBeNumbers
  | OnlyOneOfInputOrInputs
  | TagsMustBeStrings
  | DuplicateTag string
  | NotIterable
  | ExactlyOneOfInputOrInputs
  | OutputMustBeSpecified
  | ScoresMustBeSpecified
  | DatasetRecordIdRequired
  | DatasetRecordIdForbidden
  | TagsOnlyOnRootSpan
  | CannotLogWithSpans
  | BothParentAndParentSpanIds
  | ParentObjectTypeMismatch
  | NeitherObjectIdNorComputeArgs
  | ComputeArgsNotSupportedForExperiments
  | Thrown string
  | LogRequestFailed error
  | AggregateError "error list"

section \<open>validateTags\<close>

text \<open>
  \<^verbatim>\<open>for (const tag of tags)\<close> walks an array's elements or a string's characters; any
  other truthy value is not iterable and the loop throws a \<^verbatim>\<open>TypeError\<close>.
\<close>

fun iterate :: "jv \<Rightarrow> error + jv list" where
  "iterate (JArr xs) = Inr xs"
| "iterate (JStr s) = Inr (map (\<lambda>c. JStr [c]) s)"
| "iterate v = Inl NotIterable"

text \<open>
  The loop of \<^verbatim>\<open>validateTags\<close>. The set \<^verbatim>\<open>seen\<close> is created empty and the source never
  adds to it, so every round tests membership in the set it started with.
\<close>

fun validateTags_loop :: "string list \<Rightarrow> jv list \<Rightarrow> error + unit" where
  "validateTags_loop seen [] = Inr ()"
| "validateTags_loop seen (tag # rest) =
     (case tag of
        JStr s \<Rightarrow>
          if s \<in> set seen then Inl (DuplicateTag s)
          else validateTags_loop seen rest
      | _ \<Rightarrow> Inl TagsMustBeStrings)"

definition validateTags :: "jv \<Rightarrow> error + unit" where
  "validateTags tags =
     (case iterate tags of
        Inl e \<Rightarrow> Inl e
      | Inr xs \<Rightarrow> validateTags_loop [] xs)"

section \<open>validateAndSanitizeExperimentLogPartialArgs\<close>

text \<open>
  The loop over \<^verbatim>\<open>Object.entries(event.scores)\<close>: the entries are a snapshot taken
  before the loop, \<open>cur\<close> is the scores object as mutated so far. Property names are
  strings in this model, so the test \<^verbatim>\<open>typeof name !== "string"\<close> never fires. Both
  comparisons of \<^verbatim>\<open>score < 0 || score > 1\<close> are false of \<^verbatim>\<open>NaN\<close>, and one of them is true
  of each infinity.
\<close>

fun scores_loop :: "(string \<times> jv) list \<Rightarrow> jv \<Rightarrow> error + jv" where
  "scores_loop [] cur = Inr cur"
| "scores_loop ((name, score) # rest) cur =
     (if score = JNull \<or> score = JUndefined then scores_loop rest cur
      else
        let (score', cur') =
              (case score of
                 JBool b \<Rightarrow> (JNum (if b then 1 else 0),
                             set_prop cur name (JNum (if b then 1 else 0)))
               | _ \<Rightarrow> (score, cur))
        in (case score' of
              JNum x \<Rightarrow>
                if x < 0 \<or> x > 1 then Inl ScoreValuesOutOfRange
                else scores_loop rest cur'
            | JNaN \<Rightarrow> scores_loop rest cur'
            | JInfinity b \<Rightarrow> Inl ScoreValuesOutOfRange
            | _ \<Rightarrow> Inl ScoreValuesMustBeNumbers))"

definition check_scores :: "jv \<Rightarrow> error + jv" where
  "check_scores scores =
     (if isArray scores then Inl ScoresMustNotBeArray
      else scores_loop (object_entries scores) scores)"

fun metrics_loop :: "(string \<times> jv) list \<Rightarrow> error + unit" where
  "metrics_loop [] = Inr ()"
| "metrics_loop ((key, v) # rest) =
     (if v \<noteq> JUndefined \<and> js_typeof v \<noteq> T_number then Inl MetricValuesMustBeNumbers
      else metrics_loop rest)"

text \<open>
  The block under \<^verbatim>\<open>if (event.scores)\<close>. The scores object is mutated in place, so
  the event that goes on holds the coerced scores.
\<close>

definition sanitize_scores :: "event \<Rightarrow> error + event" where
  "sanitize_scores event =
     (if truthy (prop_value (ev_scores event))
      then (case check_scores (prop_value (ev_scores event)) of
              Inl e \<Rightarrow> Inl e
            | Inr sc \<Rightarrow> Inr (event\<lparr>ev_scores := Some sc\<rparr>))
      else Inr event)"

text \<open>
  The block under \<^verbatim>\<open>if (event.metrics)\<close>. (The block under
  \<^verbatim>\<open>if (event.metadata)\<close> only tests that the keys are strings and cannot throw.)
\<close>

definition check_metrics :: "event \<Rightarrow> error + unit" where
  "check_metrics event =
     (if truthy (prop_value (ev_metrics event))
      then metrics_loop (object_entries (prop_value (ev_metrics event)))
      else Inr ())"

definition check_input_alias :: "event \<Rightarrow> error + unit" where
  "check_input_alias event =
     (if ev_input event \<noteq> None \<and> truthy (prop_value (ev_input event)) \<and>
         ev_inputs event \<noteq> None \<and> truthy (prop_value (ev_inputs event))
      then Inl OnlyOneOfInputOrInputs
      else Inr ())"

definition check_tags :: "event \<Rightarrow> error + unit" where
  "check_tags event =
     (if ev_tags event \<noteq> None \<and> truthy (prop_value (ev_tags event))
      then validateTags (prop_value (ev_tags event))
      else Inr ())"

text \<open>
  The returned object: \<^verbatim>\<open>{ input: inputs, ...rest }\<close> when the event has the key
  \<^verbatim>\<open>inputs\<close> (a key \<^verbatim>\<open>input\<close> of \<^verbatim>\<open>rest\<close> then overwrites the renamed one), else
  a copy of the event.
\<close>

definition rename_inputs :: "event \<Rightarrow> event" where
  "rename_inputs event =
     (if ev_inputs event \<noteq> None
      then event\<lparr>ev_inputs := None,
                 ev_input := (if ev_input event \<noteq> None then ev_input event
                              else ev_inputs event)\<rparr>
      else event)"

definition validateAndSanitizeExperimentLogPartialArgs :: "event \<Rightarrow> error + event" where
  "validateAndSanitizeExperimentLogPartialArgs event =
     (case sanitize_scores event of
        Inl e \<Rightarrow> Inl e
      | Inr event1 \<Rightarrow>
          (case check_metrics event1 of
             Inl e \<Rightarrow> Inl e
           | Inr u \<Rightarrow>
               (case check_input_alias event1 of
                  Inl e \<Rightarrow> Inl e
                | Inr u \<Rightarrow>
                    (case check_tags event1 of
                       Inl e \<Rightarrow> Inl e
                     | Inr u \<Rightarrow> Inr (rename_inputs event1)))))"

section \<open>BackgroundLogger\<close>

text \<open>
  What the logger does besides changing its fields: console warnings, timer waits,
  HTTP posts and payload files, in the order the source issues them.
\<close>

datatype warning =
    DroppedDueToFullQueue int
  | LoggingFailedPayloadsTo "string option"
  | ConstructingRecordsFailed bool
  | ConstructingRecordsGaveUp int
  | LogRequestFailedWarning bool
  | LogRequestGaveUp int
  | WarnError error

datatype 'a effect =
    Warn warning
  | Sleep nat
  | Post string string
  | WritePayload string string
  | DumpDroppedEvents "'a list"

text \<open>
  The fields of the class, with those of \<^verbatim>\<open>queueDropLoggingState\<close> flattened in. The
  queue holds the \<^verbatim>\<open>LazyValue\<close>s of type \<open>'a\<close>. Two fields are not fields of the
  source: \<open>flushing\<close> is the local \<^verbatim>\<open>wrappedItems\<close> of the \<^verbatim>\<open>flushOnce\<close> pass in
  progress, \<open>effects\<close> the outputs so far. \<open>numTries\<close> and
  \<open>queueDropExceedingMaxsize\<close> are JavaScript numbers holding integers.
\<close>

record 'a bg_logger =
  items :: "'a list"
  activeFlushResolved :: bool
  activeFlushError :: "error option"
  syncFlush :: bool
  maxRequestSize :: rat
  defaultBatchSize :: int
  numTries :: int
  queueDropExceedingMaxsize :: "int option"
  queueDropLoggingPeriod :: rat
  failedPublishPayloadsDir :: "string option"
  allPublishPayloadsDir :: "string option"
  numDropped :: int
  lastLoggedTimestamp :: rat
  flushing :: "'a list"
  effects :: "'a effect list"

text \<open>
  The environment options the constructor reads, each already through
  \<^verbatim>\<open>Number(iso.getEnv(...))\<close>: \<open>None\<close> stands for \<^verbatim>\<open>NaN\<close> (the variable is unset or
  not a number), and for the two directories for an unset or empty variable.
\<close>

record bg_env_options =
  BRAINTRUST_SYNC_FLUSH :: "int option"
  BRAINTRUST_DEFAULT_BATCH_SIZE :: "int option"
  BRAINTRUST_MAX_REQUEST_SIZE :: "rat option"
  BRAINTRUST_NUM_RETRIES :: "int option"
  BRAINTRUST_QUEUE_DROP_EXCEEDING_MAXSIZE :: "int option"
  BRAINTRUST_QUEUE_DROP_LOGGING_PERIOD :: "rat option"
  BRAINTRUST_FAILED_PUBLISH_PAYLOADS_DIR :: "string option"
  BRAINTRUST_ALL_PUBLISH_PAYLOADS_DIR :: "string option"

definition no_env_options :: bg_env_options where
  "no_env_options =
     \<lparr>BRAINTRUST_SYNC_FLUSH = None, BRAINTRUST_DEFAULT_BATCH_SIZE = None,
      BRAINTRUST_MAX_REQUEST_SIZE = None, BRAINTRUST_NUM_RETRIES = None,
      BRAINTRUST_QUEUE_DROP_EXCEEDING_MAXSIZE = None,
      BRAINTRUST_QUEUE_DROP_LOGGING_PERIOD = None,
      BRAINTRUST_FAILED_PUBLISH_PAYLOADS_DIR = None,
      BRAINTRUST_ALL_PUBLISH_PAYLOADS_DIR = None\<rparr>"

fun or_default :: "'b option \<Rightarrow> 'b \<Rightarrow> 'b" where
  "or_default None d = d"
| "or_default (Some v) d = v"

text \<open>The field initialisers and the constructor.\<close>

definition BackgroundLogger :: "bg_env_options \<Rightarrow> 'a bg_logger" where
  "BackgroundLogger opts =
     \<lparr>items = [],
      activeFlushResolved = True,
      activeFlushError = None,
      syncFlush = (case BRAINTRUST_SYNC_FLUSH opts of None \<Rightarrow> False | Some n \<Rightarrow> n \<noteq> 0),
      maxRequestSize = or_default (BRAINTRUST_MAX_REQUEST_SIZE opts) (6 * 1024 * 1024),
      defaultBatchSize = or_default (BRAINTRUST_DEFAULT_BATCH_SIZE opts) 100,
      numTries = (case BRAINTRUST_NUM_RETRIES opts of None \<Rightarrow> 3 | Some n \<Rightarrow> n + 1),
      queueDropExceedingMaxsize = BRAINTRUST_QUEUE_DROP_EXCEEDING_MAXSIZE opts,
      queueDropLoggingPeriod = or_default (BRAINTRUST_QUEUE_DROP_LOGGING_PERIOD opts) 60,
      failedPublishPayloadsDir = BRAINTRUST_FAILED_PUBLISH_PAYLOADS_DIR opts,
      allPublishPayloadsDir = BRAINTRUST_ALL_PUBLISH_PAYLOADS_DIR opts,
      numDropped = 0,
      lastLoggedTimestamp = 0,
      flushing = [],
      effects = []\<rparr>"

text \<open>\<^verbatim>\<open>if (dir)\<close> on a directory option: set and not the empty string.\<close>

fun dir_set :: "string option \<Rightarrow> bool" where
  "dir_set None = False"
| "dir_set (Some d) = (d \<noteq> [])"

definition emit :: "'a effect list \<Rightarrow> 'a bg_logger \<Rightarrow> 'a bg_logger" where
  "emit es bg = bg\<lparr>effects := effects bg @ es\<rparr>"

subsection \<open>log and the queue bound\<close>

text \<open>The pair \<^verbatim>\<open>[addedItems, droppedItems]\<close> computed at the head of \<^verbatim>\<open>log\<close>.\<close>

definition log_split :: "'a bg_logger \<Rightarrow> 'a list \<Rightarrow> 'a list \<times> 'a list" where
  "log_split bg batch =
     (case queueDropExceedingMaxsize bg of
        None \<Rightarrow> (batch, [])
      | Some m \<Rightarrow>
          let numElementsToAdd = min (max (m - int (length (items bg))) 0) (int (length batch))
          in (take (nat numElementsToAdd) batch, drop (nat numElementsToAdd) batch))"

text \<open>\<open>timeNow\<close> is what \<^verbatim>\<open>getCurrentUnixTimestamp()\<close> returns, in seconds.\<close>

definition registerDroppedItemCount :: "rat \<Rightarrow> int \<Rightarrow> 'a bg_logger \<Rightarrow> 'a bg_logger" where
  "registerDroppedItemCount timeNow numItems bg =
     (if numItems \<le> 0 then bg
      else
        let bg1 = bg\<lparr>numDropped := numDropped bg + numItems\<rparr>
        in if timeNow - lastLoggedTimestamp bg1 > queueDropLoggingPeriod bg1
           then (emit ([Warn (DroppedDueToFullQueue (numDropped bg1))] @
                       (if dir_set (failedPublishPayloadsDir bg1)
                        then [Warn (LoggingFailedPayloadsTo (failedPublishPayloadsDir bg1))]
                        else []))
                   bg1)\<lparr>numDropped := 0, lastLoggedTimestamp := timeNow\<rparr>
           else bg1)"

text \<open>
  The head of \<^verbatim>\<open>flushOnce\<close>, up to its first \<^verbatim>\<open>await\<close>: the queue is moved into the
  local list and replaced by a fresh empty one.
\<close>

definition drain_queue :: "'a bg_logger \<Rightarrow> 'a bg_logger" where
  "drain_queue bg = bg\<lparr>flushing := items bg, items := []\<rparr>"

text \<open>
  \<^verbatim>\<open>triggerActiveFlush\<close>, as far as it runs before it returns: an \<^verbatim>\<open>async\<close> function
  runs synchronously up to its first \<^verbatim>\<open>await\<close>, so the call of \<^verbatim>\<open>flushOnce\<close> drains
  the queue at once; the rest of the pass runs later.
\<close>

definition triggerActiveFlush :: "'a bg_logger \<Rightarrow> 'a bg_logger" where
  "triggerActiveFlush bg =
     (if activeFlushResolved bg
      then drain_queue (bg\<lparr>activeFlushResolved := False, activeFlushError := None\<rparr>)
      else bg)"

text \<open>
  \<^verbatim>\<open>log(items)\<close> at time \<open>timeNow\<close>. \<^verbatim>\<open>dumpDroppedEvents\<close> works asynchronously; its call
  is recorded as an effect.
\<close>

definition bg_log :: "rat \<Rightarrow> 'a list \<Rightarrow> 'a bg_logger \<Rightarrow> 'a bg_logger" where
  "bg_log timeNow batch bg =
     (let (addedItems, droppedItems) = log_split bg batch;
          bg1 = bg\<lparr>items := items bg @ addedItems\<rparr>;
          bg2 = (if \<not> syncFlush bg1 then triggerActiveFlush bg1 else bg1)
      in if droppedItems \<noteq> []
         then
           let bg3 = registerDroppedItemCount timeNow (int (length droppedItems)) bg2
           in if dir_set (allPublishPayloadsDir bg3) \<or> dir_set (failedPublishPayloadsDir bg3)
              then emit [DumpDroppedEvents droppedItems] bg3
              else bg3
         else bg2)"

subsection \<open>The flush pipeline\<close>

text \<open>
  What a flush meets outside \<^verbatim>\<open>logger.ts\<close>, as parameters. \<open>lazy_get i x\<close> is the outcome
  of awaiting \<^verbatim>\<open>x.get()\<close> in try \<open>i\<close> of \<^verbatim>\<open>unwrapLazyValues\<close>, and \<open>lazy_settles i x\<close> the
  time at which that promise settles; \<open>post_json path body i\<close> is the outcome of
  \<^verbatim>\<open>conn.post_json(path, body)\<close> in attempt \<open>i\<close> of \<^verbatim>\<open>submitLogsRequest\<close> (\<open>None\<close>: it
  returned). \<open>mergeRowBatch\<close>, \<open>batchItems\<close>, \<open>constructJsonArray\<close> are the functions of
  \<^verbatim>\<open>@braintrust/core\<close> of these names; \<open>mergeRowBatch\<close> may throw (\<open>Inl\<close>). \<open>stringify\<close> is
  \<^verbatim>\<open>JSON.stringify\<close> on a row, \<open>legacyRow r\<close> is
  \<^verbatim>\<open>JSON.stringify(makeLegacyEvent(JSON.parse(r)))\<close>, and \<open>apiConn_get\<close> the outcome of
  \<^verbatim>\<open>this.apiConn.get()\<close>.
\<close>

record ('a, 'r) flush_env =
  lazy_get :: "nat \<Rightarrow> 'a \<Rightarrow> error + 'r"
  lazy_settles :: "nat \<Rightarrow> 'a \<Rightarrow> nat"
  mergeRowBatch :: "'r list \<Rightarrow> error + 'r list list"
  stringify :: "'r \<Rightarrow> string"
  batchItems :: "string list list \<Rightarrow> int \<Rightarrow> rat \<Rightarrow> string list list list"
  constructJsonArray :: "string list \<Rightarrow> string"
  legacyRow :: "string \<Rightarrow> string"
  apiConn_get :: "error option"
  post_json :: "string \<Rightarrow> string \<Rightarrow> nat \<Rightarrow> error option"

text \<open>
  \<^verbatim>\<open>await Promise.all(wrappedItems.map((x) => x.get()))\<close>: all values in the order of the
  list, or the error of the promise that rejects first in time. \<open>first_rejection\<close> finds
  that promise: the failing item that settles earliest, the one standing first in the
  list among those that settle at the same time.
\<close>

fun first_rejection ::
  "('a \<Rightarrow> error + 'r) \<Rightarrow> ('a \<Rightarrow> nat) \<Rightarrow> 'a list \<Rightarrow> (nat \<times> error) option"
where
  "first_rejection f settles [] = None"
| "first_rejection f settles (x # xs) =
     (case f x of
        Inr v \<Rightarrow> first_rejection f settles xs
      | Inl e \<Rightarrow>
          (case first_rejection f settles xs of
             None \<Rightarrow> Some (settles x, e)
           | Some (t, e') \<Rightarrow> if settles x \<le> t then Some (settles x, e) else Some (t, e')))"

definition promise_all ::
  "('a \<Rightarrow> error + 'r) \<Rightarrow> ('a \<Rightarrow> nat) \<Rightarrow> 'a list \<Rightarrow> error + 'r list"
where
  "promise_all f settles xs =
     (case first_rejection f settles xs of
        Some (t, e) \<Rightarrow> Inl e
      | None \<Rightarrow> Inr (concat (map (\<lambda>x. case f x of Inr v \<Rightarrow> [v] | Inl e \<Rightarrow> []) xs)))"

text \<open>
  The body of the \<^verbatim>\<open>try\<close> block of \<^verbatim>\<open>unwrapLazyValues\<close> in try \<open>i\<close>: the records are
  awaited together and \<^verbatim>\<open>mergeRowBatch\<close> is called on their values; what either of them
  throws is caught by the \<^verbatim>\<open>catch\<close> of the loop.
\<close>

definition resolve_try ::
  "('a, 'r) flush_env \<Rightarrow> nat \<Rightarrow> 'a list \<Rightarrow> error + 'r list list"
where
  "resolve_try env i wrappedItems =
     (case promise_all (lazy_get env i) (lazy_settles env i) wrappedItems of
        Inl e \<Rightarrow> Inl e
      | Inr rows \<Rightarrow> mergeRowBatch env rows)"

text \<open>
  The loop of \<^verbatim>\<open>unwrapLazyValues\<close> from try \<open>i\<close> on; the result is what the method
  returns (\<open>Inr\<close>) or throws (\<open>Inl\<close>), with the effects it issued.
\<close>

function unwrap_loop ::
  "('a, 'r) flush_env \<Rightarrow> 'a bg_logger \<Rightarrow> 'a list \<Rightarrow> nat \<Rightarrow> (error + 'r list list) \<times> 'a effect list"
where
  "unwrap_loop env bg wrappedItems i =
     (if int i < numTries bg
      then
        (case resolve_try env i wrappedItems of
           Inr merged \<Rightarrow> (Inr merged, [])
         | Inl e \<Rightarrow>
             let isRetrying = int (i + 1) < numTries bg;
                 w = [Warn (ConstructingRecordsFailed isRetrying)]
             in if \<not> isRetrying \<and> syncFlush bg then (Inl e, w)
                else
                  (case unwrap_loop env bg wrappedItems (i + 1) of
                     (r, tr) \<Rightarrow> (r, w @ [Warn (WarnError e), Sleep 100] @ tr)))
      else (Inr [], [Warn (ConstructingRecordsGaveUp (numTries bg))]))"
  by pat_completeness auto
termination
  by (relation "measure (\<lambda>(env, bg, wrappedItems, i). nat (numTries bg - int i))") auto

declare unwrap_loop.simps [simp del]

definition unwrapLazyValues ::
  "('a, 'r) flush_env \<Rightarrow> 'a bg_logger \<Rightarrow> 'a list \<Rightarrow> (error + 'r list list) \<times> 'a effect list"
where
  "unwrapLazyValues env bg wrappedItems = unwrap_loop env bg wrappedItems 0"

definition constructLogs3Data :: "('a, 'r) flush_env \<Rightarrow> string list \<Rightarrow> string" where
  \<open>constructLogs3Data env rows =
     ''{"rows": '' @ constructJsonArray env rows @ '', "api_version": 2}''\<close>

text \<open>The loop of \<^verbatim>\<open>submitLogsRequest\<close> from attempt \<open>i\<close> on.\<close>

function submit_loop ::
  "('a, 'r) flush_env \<Rightarrow> 'a bg_logger \<Rightarrow> string list \<Rightarrow> string \<Rightarrow> nat \<Rightarrow>
   (error + unit) \<times> 'a effect list"
where
  "submit_loop env bg rows dataStr i =
     (if int i < numTries bg
      then
        let (error, posts) =
              (case post_json env ''logs3'' dataStr i of
                 None \<Rightarrow> (None, [Post ''logs3'' dataStr])
               | Some e \<Rightarrow>
                   let legacyDataS = constructJsonArray env (map (legacyRow env) rows)
                   in (post_json env ''logs'' legacyDataS i,
                       [Post ''logs3'' dataStr, Post ''logs'' legacyDataS]))
        in (case error of
              None \<Rightarrow> (Inr (), posts)
            | Some err \<Rightarrow>
                let isRetrying = int (i + 1) < numTries bg;
                    dump =
                      (if \<not> isRetrying \<and> dir_set (failedPublishPayloadsDir bg)
                       then [WritePayload (the (failedPublishPayloadsDir bg)) dataStr,
                             Warn (LoggingFailedPayloadsTo (failedPublishPayloadsDir bg))]
                       else [])
                in if \<not> isRetrying \<and> syncFlush bg
                   then (Inl (LogRequestFailed err), posts @ dump)
                   else
                     (case submit_loop env bg rows dataStr (i + 1) of
                        (r, tr) \<Rightarrow>
                          (r, posts @ dump @ [Warn (LogRequestFailedWarning isRetrying)] @
                              (if isRetrying then [Sleep 100] else []) @ tr)))
      else (Inr (), [Warn (LogRequestGaveUp (numTries bg))]))"
  by pat_completeness auto
termination
  by (relation "measure (\<lambda>(env, bg, rows, dataStr, i). nat (numTries bg - int i))") auto

declare submit_loop.simps [simp del]

definition submitLogsRequest ::
  "('a, 'r) flush_env \<Rightarrow> 'a bg_logger \<Rightarrow> string list \<Rightarrow> (error + unit) \<times> 'a effect list"
where
  "submitLogsRequest env bg rows =
     (case apiConn_get env of
        Some e \<Rightarrow> (Inl e, [])
      | None \<Rightarrow>
          let dataStr = constructLogs3Data env rows;
              written =
                (if dir_set (allPublishPayloadsDir bg)
                 then [WritePayload (the (allPublishPayloadsDir bg)) dataStr]
                 else [])
          in (case submit_loop env bg rows dataStr 0 of (r, tr) \<Rightarrow> (r, written @ tr)))"

text \<open>
  One round of the loop over \<^verbatim>\<open>batchSets\<close> in \<^verbatim>\<open>flushOnce\<close>, and the loop: the batches
  of a set are submitted together and all awaited; their failures, if any, are thrown as
  one \<^verbatim>\<open>AggregateError\<close> and later sets are not submitted. The effects of the
  submissions of a set are listed batch after batch.
\<close>

fun submit_sets ::
  "('a, 'r) flush_env \<Rightarrow> 'a bg_logger \<Rightarrow> string list list list \<Rightarrow> (error + unit) \<times> 'a effect list"
where
  "submit_sets env bg [] = (Inr (), [])"
| "submit_sets env bg (batchSet # rest) =
     (let results = map (submitLogsRequest env bg) batchSet;
          tr = concat (map snd results);
          failingResultErrors = concat (map (\<lambda>r. case fst r of Inl e \<Rightarrow> [e] | Inr u \<Rightarrow> []) results)
      in if failingResultErrors \<noteq> [] then (Inl (AggregateError failingResultErrors), tr)
         else (case submit_sets env bg rest of (r, tr') \<Rightarrow> (r, tr @ tr')))"

text \<open>
  A flush runs interleaved with the rest of the program: while a pass awaits the
  resolution of its records, and then the submissions, other code may call \<^verbatim>\<open>log\<close>. A
  pass script lists these calls (time and batch) for one pass.
\<close>

record 'a pass_script =
  during_resolve :: "(rat \<times> 'a list) list"
  during_submit :: "(rat \<times> 'a list) list"

definition quiet_pass :: "'a pass_script" where
  "quiet_pass = \<lparr>during_resolve = [], during_submit = []\<rparr>"

definition apply_log_calls :: "(rat \<times> 'a list) list \<Rightarrow> 'a bg_logger \<Rightarrow> 'a bg_logger" where
  "apply_log_calls calls bg = fold (\<lambda>(t, batch). bg_log t batch) calls bg"

text \<open>
  How one pass of \<^verbatim>\<open>flushOnce\<close> ends: by a thrown error, by the early
  \<^verbatim>\<open>return\<close> on an empty list of resolved records, or by reaching the test of the queue
  after all submissions.
\<close>

datatype pass_end = PassThrew error | PassNothingToFlush | PassSubmitted

text \<open>
  One pass of \<^verbatim>\<open>flushOnce\<close> after the queue was drained into \<open>flushing\<close>
  (\<^verbatim>\<open>triggerActiveFlush\<close> calls it without arguments, so the batch size is the default).
\<close>

definition flush_pass ::
  "('a, 'r) flush_env \<Rightarrow> 'a pass_script \<Rightarrow> 'a bg_logger \<Rightarrow> pass_end \<times> 'a bg_logger"
where
  "flush_pass env script bg =
     (let wrappedItems = flushing bg;
          (r, tr) = unwrapLazyValues env bg wrappedItems;
          bg1 = emit tr (apply_log_calls (during_resolve script) bg)
      in case r of
           Inl e \<Rightarrow> (PassThrew e, bg1)
         | Inr allItems \<Rightarrow>
             if allItems = [] then (PassNothingToFlush, bg1)
             else
               let allItemsStr = map (map (stringify env)) allItems;
                   batchSets = batchItems env allItemsStr (defaultBatchSize bg1)
                                 (maxRequestSize bg1 / 2);
                   (r2, tr2) = submit_sets env bg1 batchSets;
                   bg2 = emit tr2 (apply_log_calls (during_submit script) bg1)
               in (case r2 of
                     Inl e \<Rightarrow> (PassThrew e, bg2)
                   | Inr u \<Rightarrow> (PassSubmitted, bg2)))"

text \<open>How a whole \<^verbatim>\<open>flushOnce\<close> returns: by the early return or past the queue test.\<close>

datatype flush_return = NothingToFlush | QueueEmpty

text \<open>
  \<^verbatim>\<open>flushOnce\<close> from its first \<^verbatim>\<open>await\<close> on, the queue already drained; \<open>scripts\<close>
  lists the calls of \<^verbatim>\<open>log\<close> that fall into its passes, pass by pass, and the program is
  quiet in the passes after the last script. A further pass starts by draining the
  queue again. Its termination rests on two facts: emitting effects leaves the queue
  alone, and a quiet pass adds nothing to it.
\<close>

lemma emit_fields [simp]:
  "items (emit tr bg) = items bg"
  "flushing (emit tr bg) = flushing bg"
  by (simp_all add: emit_def)

lemma flush_pass_quiet_items:
  "(r, bg') = flush_pass env quiet_pass bg \<Longrightarrow> items bg' = items bg"
  by (auto simp: flush_pass_def quiet_pass_def apply_log_calls_def Let_def
      split: prod.splits sum.splits if_splits)

function flushOnce_run ::
  "('a, 'r) flush_env \<Rightarrow> 'a pass_script list \<Rightarrow> 'a bg_logger \<Rightarrow>
   (error + flush_return) \<times> 'a bg_logger"
where
  "flushOnce_run env scripts bg =
     (case flush_pass env (case scripts of [] \<Rightarrow> quiet_pass | s # later \<Rightarrow> s) bg of
        (PassThrew e, bg') \<Rightarrow> (Inl e, bg')
      | (PassNothingToFlush, bg') \<Rightarrow> (Inr NothingToFlush, bg')
      | (PassSubmitted, bg') \<Rightarrow>
          if items bg' \<noteq> [] then flushOnce_run env (tl scripts) (drain_queue bg')
          else (Inr QueueEmpty, bg'))"
  by pat_completeness auto
termination
proof (relation "measure (\<lambda>(env, scripts, bg). 2 * length scripts + (if items bg = [] then 0 else 1))")
  fix env :: "('a, 'r) flush_env" and scripts :: "'a pass_script list" and bg x2 :: "'a bg_logger"
    and x1 :: pass_end
  assume p: "(x1, x2) = flush_pass env (case scripts of [] \<Rightarrow> quiet_pass | s # later \<Rightarrow> s) bg"
    and q: "items x2 \<noteq> []"
  show "((env, tl scripts, drain_queue x2), env, scripts, bg)
        \<in> measure (\<lambda>(env, scripts, bg). 2 * length scripts + (if items bg = [] then 0 else 1))"
  proof (cases scripts)
    case Nil
    then have "items bg \<noteq> []" using p q flush_pass_quiet_items[of x1 x2 env bg] by simp
    then show ?thesis using Nil by (simp add: drain_queue_def)
  next
    case (Cons s later)
    then show ?thesis by (simp add: drain_queue_def)
  qed
qed simp

declare flushOnce_run.simps [simp del]

text \<open>\<^verbatim>\<open>flushOnce\<close> whole: drain the queue, then the passes.\<close>

definition flushOnce ::
  "('a, 'r) flush_env \<Rightarrow> 'a pass_script list \<Rightarrow> 'a bg_logger \<Rightarrow>
   (error + flush_return) \<times> 'a bg_logger"
where
  "flushOnce env scripts bg = flushOnce_run env scripts (drain_queue bg)"

text \<open>
  The rest of the \<^verbatim>\<open>async\<close> function that \<^verbatim>\<open>triggerActiveFlush\<close> started: when
  \<^verbatim>\<open>flushOnce\<close> is over, its error is kept and the flush counts as resolved.
\<close>

definition activeFlush_settle ::
  "('a, 'r) flush_env \<Rightarrow> 'a pass_script list \<Rightarrow> 'a bg_logger \<Rightarrow> 'a bg_logger"
where
  "activeFlush_settle env scripts bg =
     (case flushOnce_run env scripts bg of
        (Inl err, bg') \<Rightarrow> bg'\<lparr>activeFlushError := Some err, activeFlushResolved := True\<rparr>
      | (Inr ret, bg') \<Rightarrow> bg'\<lparr>activeFlushResolved := True\<rparr>)"

text \<open>
  \<^verbatim>\<open>flush()\<close>: in synchronous mode it triggers a flush; it awaits the active flush, if
  one is running, and throws the error that flush left, once.
\<close>

definition bg_flush ::
  "('a, 'r) flush_env \<Rightarrow> 'a pass_script list \<Rightarrow> 'a bg_logger \<Rightarrow> (error + unit) \<times> 'a bg_logger"
where
  "bg_flush env scripts bg =
     (let bg1 = (if syncFlush bg then triggerActiveFlush bg else bg);
          bg2 = (if activeFlushResolved bg1 then bg1 else activeFlush_settle env scripts bg1)
      in case activeFlushError bg2 of
           Some err \<Rightarrow> (Inl err, bg2\<lparr>activeFlushError := None\<rparr>)
         | None \<Rightarrow> (Inr (), bg2))"

section \<open>Spans\<close>

datatype span_object_type = EXPERIMENT | PROJECT_LOGS

record span_row_ids =
  row_rowId :: string
  row_spanId :: string
  row_rootSpanId :: string

text \<open>What \<^verbatim>\<open>SpanComponentsV2.fromStr\<close> decodes from an exported token.\<close>

record span_components =
  comp_objectType :: span_object_type
  comp_objectId :: "string option"
  comp_computeObjectMetadataArgs :: "jv option"
  comp_rowIds :: "span_row_ids option"

record parent_span_ids =
  psi_spanId :: string
  psi_rootSpanId :: string

text \<open>
  A \<^verbatim>\<open>LazyValue<string>\<close> holding a parent object id, by what it will compute: the id
  of the logger or experiment that owns the span, or (\<^verbatim>\<open>computeParentObjectId\<close> of
  \<^verbatim>\<open>startSpanParentArgs\<close>) that id once it was found equal to the one a token resolves
  to.
\<close>

datatype lazy_object_id = OwnerId | CheckedAgainstToken lazy_object_id span_components

record parent_args =
  pa_parentObjectType :: span_object_type
  pa_parentObjectId :: lazy_object_id
  pa_parentComputeObjectMetadataArgs :: "jv option"
  pa_parentSpanIds :: "parent_span_ids option"

text \<open>\<^verbatim>\<open>if (s)\<close> on an optional string: set and not empty.\<close>

fun str_set :: "string option \<Rightarrow> bool" where
  "str_set None = False"
| "str_set (Some s) = (s \<noteq> [])"

text \<open>
  The synchronous part of \<^verbatim>\<open>spanComponentsToObjectIdLambda\<close>: the errors it throws
  before it returns the function.
\<close>

definition spanComponentsToObjectIdLambda :: "span_components \<Rightarrow> error + unit" where
  "spanComponentsToObjectIdLambda components =
     (if str_set (comp_objectId components) then Inr ()
      else if \<not> truthy (prop_value (comp_computeObjectMetadataArgs components))
      then Inl NeitherObjectIdNorComputeArgs
      else (case comp_objectType components of
              EXPERIMENT \<Rightarrow> Inl ComputeArgsNotSupportedForExperiments
            | PROJECT_LOGS \<Rightarrow> Inr ()))"

text \<open>
  \<^verbatim>\<open>startSpanParentArgs\<close>; \<open>fromStr\<close> is \<^verbatim>\<open>SpanComponentsV2.fromStr\<close> of
  \<^verbatim>\<open>@braintrust/core\<close>, a parameter.
\<close>

definition startSpanParentArgs ::
  "(string \<Rightarrow> error + span_components) \<Rightarrow> string option \<Rightarrow> parent_args \<Rightarrow> error + parent_args"
where
  "startSpanParentArgs fromStr parent args =
     (if str_set parent
      then
        if pa_parentSpanIds args \<noteq> None then Inl BothParentAndParentSpanIds
        else
          (case fromStr (the parent) of
             Inl e \<Rightarrow> Inl e
           | Inr parentComponents \<Rightarrow>
               if pa_parentObjectType args \<noteq> comp_objectType parentComponents
               then Inl ParentObjectTypeMismatch
               else
                 (case spanComponentsToObjectIdLambda parentComponents of
                    Inl e \<Rightarrow> Inl e
                  | Inr u \<Rightarrow>
                      Inr (args\<lparr>pa_parentObjectId :=
                                   CheckedAgainstToken (pa_parentObjectId args) parentComponents,
                                 pa_parentSpanIds :=
                                   (case comp_rowIds parentComponents of
                                      None \<Rightarrow> None
                                    | Some r \<Rightarrow>
                                        Some \<lparr>psi_spanId = row_spanId r,
                                              psi_rootSpanId = row_rootSpanId r\<rparr>)\<rparr>)))
      else Inr args)"

text \<open>\<^verbatim>\<open>StartSpanArgs\<close>. An absent field is \<open>None\<close>.\<close>

record start_span_args =
  ssa_name :: "string option"
  ssa_type :: "string option"
  ssa_spanAttributes :: "(string \<times> jv) list option"
  ssa_startTime :: "jv option"
  ssa_parent :: "string option"
  ssa_event :: "event option"

definition no_start_span_args :: start_span_args where
  "no_start_span_args =
     \<lparr>ssa_name = None, ssa_type = None, ssa_spanAttributes = None, ssa_startTime = None,
      ssa_parent = None, ssa_event = None\<rparr>"

record caller_location =
  caller_functionname :: string
  caller_filename :: string
  caller_lineno :: nat

text \<open>
  What a call reads from outside: the identifiers \<^verbatim>\<open>uuidv4()\<close> will return for the row
  id and for the span id, the clock in seconds, the creation date as an ISO string and
  the caller's location.
\<close>

record ambient =
  amb_uuid_row :: string
  amb_uuid_span :: string
  amb_now :: rat
  amb_created :: string
  amb_callerLocation :: "caller_location option"

record span_impl =
  sp_isMerge :: bool
  sp_loggedEndTime :: jv
  sp_parentObjectType :: span_object_type
  sp_parentObjectId :: lazy_object_id
  sp_parentComputeObjectMetadataArgs :: "jv option"
  sp_id :: jv
  sp_spanId :: string
  sp_rootSpanId :: string
  sp_spanParents :: "string list option"

text \<open>
  The \<^verbatim>\<open>internalData\<close> argument of \<^verbatim>\<open>logInternal\<close>, with the keys the span methods
  pass.
\<close>

record internal_data =
  in_metrics :: "jv option"
  in_context :: "jv option"
  in_span_attributes :: "jv option"
  in_created :: "jv option"

definition no_internal_data :: internal_data where
  "no_internal_data =
     \<lparr>in_metrics = None, in_context = None, in_span_attributes = None, in_created = None\<rparr>"

text \<open>
  \<^verbatim>\<open>partialRecord\<close> of \<^verbatim>\<open>logInternal\<close> after its trip through JSON: a key whose value is
  \<^verbatim>\<open>undefined\<close> is gone, so every field is optional. \<open>lr_event\<close> holds the keys of the
  sanitized event.
\<close>

record log_record =
  lr_id :: "jv option"
  lr_span_id :: string
  lr_root_span_id :: string
  lr_span_parents :: "string list option"
  lr_event :: event
  lr_context :: "jv option"
  lr_span_attributes :: "jv option"
  lr_created :: "jv option"
  lr_is_merge :: bool

text \<open>
  The queue item: the \<^verbatim>\<open>LazyValue\<close> around \<^verbatim>\<open>computeRecord\<close>, which adds the object id
  fields to the partial record when it is resolved.
\<close>

record lazy_record =
  lz_partialRecord :: log_record
  lz_parentObjectType :: span_object_type
  lz_parentObjectId :: lazy_object_id

record world =
  w_bgLogger :: "lazy_record bg_logger"
  w_executionCounter :: nat

text \<open>
  \<^verbatim>\<open>JSON.parse(JSON.stringify(v))\<close>: in an object a key holding \<^verbatim>\<open>undefined\<close> is dropped,
  in an array \<^verbatim>\<open>undefined\<close> becomes \<^verbatim>\<open>null\<close>, and a number that is not finite becomes
  \<^verbatim>\<open>null\<close>. (Values of this model hold no spans,
  experiments, datasets or loggers, which the replacer of the source would turn into
  strings, and no streams, which \<^verbatim>\<open>splitLoggingData\<close> would set aside.)
\<close>

primrec json_roundtrip :: "jv \<Rightarrow> jv" where
  "json_roundtrip JUndefined = JUndefined"
| "json_roundtrip JNull = JNull"
| "json_roundtrip (JBool b) = JBool b"
| "json_roundtrip (JNum n) = JNum n"
| "json_roundtrip JNaN = JNull"
| "json_roundtrip (JInfinity b) = JNull"
| "json_roundtrip (JStr s) = JStr s"
| "json_roundtrip (JArr xs) =
     JArr (map (\<lambda>y. if y = JUndefined then JNull else y) (map json_roundtrip xs))"
| "json_roundtrip (JObj kvs) =
     JObj (filter (\<lambda>kv. snd kv \<noteq> JUndefined) (map (map_prod id json_roundtrip) kvs))"

fun json_field :: "jv option \<Rightarrow> jv option" where
  "json_field None = None"
| "json_field (Some v) = (if v = JUndefined then None else Some (json_roundtrip v))"

definition json_event :: "event \<Rightarrow> event" where
  "json_event e =
     \<lparr>ev_id = json_field (ev_id e), ev_input = json_field (ev_input e),
      ev_inputs = json_field (ev_inputs e), ev_output = json_field (ev_output e),
      ev_expected = json_field (ev_expected e), ev_error = json_field (ev_error e),
      ev_tags = json_field (ev_tags e), ev_scores = json_field (ev_scores e),
      ev_metadata = json_field (ev_metadata e), ev_metrics = json_field (ev_metrics e),
      ev_datasetRecordId = json_field (ev_datasetRecordId e)\<rparr>"

text \<open>
  One key under \<^verbatim>\<open>mergeDicts(into, from)\<close> of \<^verbatim>\<open>@braintrust/core\<close>: a key of \<open>from\<close>
  is copied, and where both objects hold the key the parameter \<open>md\<close> gives the merged
  value.
\<close>

fun merge_key :: "(jv \<Rightarrow> jv \<Rightarrow> jv) \<Rightarrow> jv option \<Rightarrow> jv option \<Rightarrow> jv option" where
  "merge_key md into None = into"
| "merge_key md None (Some v) = Some v"
| "merge_key md (Some w) (Some v) = Some (md w v)"

text \<open>Reading \<^verbatim>\<open>v?.k\<close>.\<close>

fun get_prop :: "jv \<Rightarrow> string \<Rightarrow> jv" where
  "get_prop (JObj kvs) k = (case map_of kvs k of None \<Rightarrow> JUndefined | Some v \<Rightarrow> v)"
| "get_prop v k = JUndefined"

text \<open>\<^verbatim>\<open>(tags ?? []).length > 0\<close>.\<close>

fun length_positive :: "jv \<Rightarrow> bool" where
  "length_positive (JArr xs) = (xs \<noteq> [])"
| "length_positive (JStr s) = (s \<noteq> [])"
| "length_positive v = False"

text \<open>
  \<^verbatim>\<open>logInternal\<close>. The span and its sanitized event share no key but \<^verbatim>\<open>metrics\<close> with
  the internal data, and \<^verbatim>\<open>id\<close> with the record. The result is the error thrown, if
  any, the span and the world (\<open>self\<close> is \<^verbatim>\<open>this\<close>); \<^verbatim>\<open>loggedEndTime\<close> is set before the test of the tags.
\<close>

definition logInternal ::
  "(jv \<Rightarrow> jv \<Rightarrow> jv) \<Rightarrow> rat \<Rightarrow> event \<Rightarrow> internal_data \<Rightarrow> span_impl \<Rightarrow> world \<Rightarrow>
   (error + unit) \<times> span_impl \<times> world"
where
  "logInternal md timeNow event internalData self w =
     (case validateAndSanitizeExperimentLogPartialArgs event of
        Inl e \<Rightarrow> (Inl e, self, w)
      | Inr sanitized \<Rightarrow>
          let partialRecord =
                \<lparr>lr_id = json_field (if ev_id sanitized \<noteq> None then ev_id sanitized
                                       else Some (sp_id self)),
                 lr_span_id = sp_spanId self,
                 lr_root_span_id = sp_rootSpanId self,
                 lr_span_parents = sp_spanParents self,
                 lr_event = json_event
                   (sanitized\<lparr>ev_id := None,
                              ev_metrics := merge_key md (in_metrics internalData)
                                              (ev_metrics sanitized)\<rparr>),
                 lr_context = json_field (in_context internalData),
                 lr_span_attributes = json_field (in_span_attributes internalData),
                 lr_created = json_field (in_created internalData),
                 lr_is_merge = sp_isMerge self\<rparr>;
              metrics_end = get_prop (prop_value (ev_metrics (lr_event partialRecord))) ''end'';
              self1 = (if truthy metrics_end then self\<lparr>sp_loggedEndTime := metrics_end\<rparr>
                       else self)
          in if length_positive (prop_value (ev_tags (lr_event partialRecord))) \<and>
                (case sp_spanParents self1 of None \<Rightarrow> False | Some ps \<Rightarrow> ps \<noteq> [])
             then (Inl TagsOnlyOnRootSpan, self1, w)
             else (Inr (), self1,
                   w\<lparr>w_bgLogger :=
                       bg_log timeNow
                         [\<lparr>lz_partialRecord = partialRecord,
                           lz_parentObjectType = sp_parentObjectType self1,
                           lz_parentObjectId = sp_parentObjectId self1\<rparr>]
                         (w_bgLogger w)\<rparr>))"

text \<open>\<^verbatim>\<open>v ?? d\<close> on an optional argument.\<close>

fun coalesce :: "jv option \<Rightarrow> jv \<Rightarrow> jv" where
  "coalesce None d = d"
| "coalesce (Some v) d = (if v = JUndefined \<or> v = JNull then d else v)"

definition last_path_component :: "string \<Rightarrow> string" where
  "last_path_component path = rev (takeWhile (\<lambda>c. c \<noteq> CHR ''/'') (rev path))"

text \<open>The name the constructor gives a span.\<close>

definition span_name ::
  "string option \<Rightarrow> parent_span_ids option \<Rightarrow> caller_location option \<Rightarrow> string"
where
  "span_name name parentSpanIds callerLocation =
     (if str_set name then the name
      else if parentSpanIds = None then ''root''
      else
        (case callerLocation of
           Some loc \<Rightarrow>
             let filename = last_path_component (caller_filename loc)
             in if filename \<noteq> []
                then caller_functionname loc @ '':'' @ filename @ '':'' @
                     nat_to_string (caller_lineno loc)
                else caller_functionname loc
         | None \<Rightarrow> ''subspan''))"

text \<open>An object spread \<^verbatim>\<open>{...base, ...extra}\<close>.\<close>

definition spread :: "(string \<times> jv) list \<Rightarrow> (string \<times> jv) list \<Rightarrow> (string \<times> jv) list" where
  "spread base extra = fold (\<lambda>kv. AList.update (fst kv) (snd kv)) extra base"

definition caller_context :: "caller_location option \<Rightarrow> jv" where
  "caller_context callerLocation =
     (case callerLocation of
        None \<Rightarrow> JObj []
      | Some loc \<Rightarrow>
          JObj [(''caller_functionname'', JStr (caller_functionname loc)),
                (''caller_filename'', JStr (caller_filename loc)),
                (''caller_lineno'', JNum (of_nat (caller_lineno loc)))])"

text \<open>
  The constructor of \<^verbatim>\<open>SpanImpl\<close>: \<open>pargs\<close> are the four parent arguments,
  \<open>args\<close> the rest (its \<^verbatim>\<open>parent\<close> key is not read here). The execution counter is
  bumped before \<^verbatim>\<open>logInternal\<close> can throw, so the world comes back also with an
  error.
\<close>

definition SpanImpl_new ::
  "(jv \<Rightarrow> jv \<Rightarrow> jv) \<Rightarrow> ambient \<Rightarrow> parent_args \<Rightarrow> start_span_args \<Rightarrow> string option \<Rightarrow> world \<Rightarrow>
   (error + span_impl) \<times> world"
where
  "SpanImpl_new md amb pargs args defaultRootType w =
     (let spanAttributes = or_default (ssa_spanAttributes args) [];
          event = or_default (ssa_event args) empty_event;
          type = (if ssa_type args \<noteq> None then ssa_type args
                  else if pa_parentSpanIds pargs \<noteq> None then None
                  else defaultRootType);
          callerLocation = amb_callerLocation amb;
          name = span_name (ssa_name args) (pa_parentSpanIds pargs) callerLocation;
          internalData =
            \<lparr>in_metrics =
               Some (JObj [(''start'', coalesce (ssa_startTime args) (JNum (amb_now amb)))]),
             in_context = Some (caller_context callerLocation),
             in_span_attributes =
               Some (JObj (AList.update ''exec_counter'' (JNum (of_nat (w_executionCounter w)))
                             (spread [(''name'', JStr name),
                                      (''type'', (case type of None \<Rightarrow> JUndefined
                                                  | Some t \<Rightarrow> JStr t))]
                                     spanAttributes))),
             in_created = Some (JStr (amb_created amb))\<rparr>;
          w1 = w\<lparr>w_executionCounter := Suc (w_executionCounter w)\<rparr>;
          spanId = amb_uuid_span amb;
          self =
            \<lparr>sp_isMerge = False,
             sp_loggedEndTime = JUndefined,
             sp_parentObjectType = pa_parentObjectType pargs,
             sp_parentObjectId = pa_parentObjectId pargs,
             sp_parentComputeObjectMetadataArgs = pa_parentComputeObjectMetadataArgs pargs,
             sp_id = coalesce (ev_id event) (JStr (amb_uuid_row amb)),
             sp_spanId = spanId,
             sp_rootSpanId =
               (case pa_parentSpanIds pargs of
                  Some p \<Rightarrow> psi_rootSpanId p
                | None \<Rightarrow> spanId),
             sp_spanParents =
               (case pa_parentSpanIds pargs of
                  Some p \<Rightarrow> Some [psi_spanId p]
                | None \<Rightarrow> None)\<rparr>
      in case logInternal md (amb_now amb) (event\<lparr>ev_id := None\<rparr>) internalData self w1 of
           (Inl e, self1, w2) \<Rightarrow> (Inl e, w2)
         | (Inr u, self1, w2) \<Rightarrow> (Inr (self1\<lparr>sp_isMerge := True\<rparr>), w2))"

text \<open>\<^verbatim>\<open>SpanImpl.log\<close>.\<close>

definition span_log ::
  "(jv \<Rightarrow> jv \<Rightarrow> jv) \<Rightarrow> ambient \<Rightarrow> event \<Rightarrow> span_impl \<Rightarrow> world \<Rightarrow>
   (error + unit) \<times> span_impl \<times> world"
where
  "span_log md amb event self w = logInternal md (amb_now amb) event no_internal_data self w"

text \<open>\<^verbatim>\<open>SpanImpl.end\<close>: \<open>endTime\<close> is \<^verbatim>\<open>args?.endTime\<close>; the result is the time returned.\<close>

definition span_end ::
  "(jv \<Rightarrow> jv \<Rightarrow> jv) \<Rightarrow> ambient \<Rightarrow> jv option \<Rightarrow> span_impl \<Rightarrow> world \<Rightarrow>
   (error + jv) \<times> span_impl \<times> world"
where
  "span_end md amb endTimeArg self w =
     (let (endTime, internalData) =
            (if \<not> truthy (sp_loggedEndTime self)
             then
               let t = coalesce endTimeArg (JNum (amb_now amb))
               in (t, no_internal_data\<lparr>in_metrics := Some (JObj [(''end'', t)])\<rparr>)
             else (sp_loggedEndTime self, no_internal_data))
      in case logInternal md (amb_now amb) empty_event internalData self w of
           (Inl e, self1, w1) \<Rightarrow> (Inl e, self1, w1)
         | (Inr u, self1, w1) \<Rightarrow> (Inr endTime, self1, w1))"

text \<open>\<^verbatim>\<open>SpanImpl.startSpan\<close>.\<close>

definition span_startSpan ::
  "(string \<Rightarrow> error + span_components) \<Rightarrow> (jv \<Rightarrow> jv \<Rightarrow> jv) \<Rightarrow> ambient \<Rightarrow> start_span_args \<Rightarrow>
   span_impl \<Rightarrow> world \<Rightarrow> (error + span_impl) \<times> world"
where
  "span_startSpan fromStr md amb args self w =
     (let parentSpanIds =
            (if str_set (ssa_parent args) then None
             else Some \<lparr>psi_spanId = sp_spanId self, psi_rootSpanId = sp_rootSpanId self\<rparr>)
      in case startSpanParentArgs fromStr (ssa_parent args)
                \<lparr>pa_parentObjectType = sp_parentObjectType self,
                 pa_parentObjectId = sp_parentObjectId self,
                 pa_parentComputeObjectMetadataArgs = sp_parentComputeObjectMetadataArgs self,
                 pa_parentSpanIds = parentSpanIds\<rparr> of
           Inl e \<Rightarrow> (Inl e, w)
         | Inr pargs \<Rightarrow> SpanImpl_new md amb pargs args None w)"

section \<open>Logger and Experiment\<close>

record logger_obj =
  lg_asyncFlush :: "bool option"
  lg_computeMetadataArgs :: "jv option"
  lg_lastStartTime :: jv
  lg_calledStartSpan :: bool

definition Logger_startSpanImpl ::
  "(string \<Rightarrow> error + span_components) \<Rightarrow> (jv \<Rightarrow> jv \<Rightarrow> jv) \<Rightarrow> ambient \<Rightarrow> start_span_args \<Rightarrow>
   logger_obj \<Rightarrow> world \<Rightarrow> (error + span_impl) \<times> world"
where
  "Logger_startSpanImpl fromStr md amb args lg w =
     (case startSpanParentArgs fromStr (ssa_parent args)
             \<lparr>pa_parentObjectType = PROJECT_LOGS,
              pa_parentObjectId = OwnerId,
              pa_parentComputeObjectMetadataArgs = lg_computeMetadataArgs lg,
              pa_parentSpanIds = None\<rparr> of
        Inl e \<Rightarrow> (Inl e, w)
      | Inr pargs \<Rightarrow> SpanImpl_new md amb pargs args (Some ''task'') w)"

definition Logger_startSpan ::
  "(string \<Rightarrow> error + span_components) \<Rightarrow> (jv \<Rightarrow> jv \<Rightarrow> jv) \<Rightarrow> ambient \<Rightarrow> start_span_args \<Rightarrow>
   logger_obj \<Rightarrow> world \<Rightarrow> (error + span_impl) \<times> logger_obj \<times> world"
where
  "Logger_startSpan fromStr md amb args lg w =
     (case Logger_startSpanImpl fromStr md amb args (lg\<lparr>lg_calledStartSpan := True\<rparr>) w of
        (r, w1) \<Rightarrow> (r, lg\<lparr>lg_calledStartSpan := True\<rparr>, w1))"

text \<open>
  The start of \<^verbatim>\<open>BackgroundLogger.flush\<close>, up to its \<^verbatim>\<open>await\<close>, which is what
  \<^verbatim>\<open>Logger.log\<close> runs of it before it returns its promise.
\<close>

definition bg_flush_start :: "'a bg_logger \<Rightarrow> 'a bg_logger" where
  "bg_flush_start bg = (if syncFlush bg then triggerActiveFlush bg else bg)"

text \<open>
  \<^verbatim>\<open>Logger.log\<close>; \<open>allowConcurrentWithSpans\<close> is \<^verbatim>\<open>options?.allowConcurrentWithSpans\<close>.
  The result is the row id.
\<close>

definition Logger_log ::
  "(string \<Rightarrow> error + span_components) \<Rightarrow> (jv \<Rightarrow> jv \<Rightarrow> jv) \<Rightarrow> ambient \<Rightarrow> event \<Rightarrow> bool option \<Rightarrow>
   logger_obj \<Rightarrow> world \<Rightarrow> (error + jv) \<times> logger_obj \<times> world"
where
  "Logger_log fromStr md amb event allowConcurrentWithSpans lg w =
     (if lg_calledStartSpan lg \<and> allowConcurrentWithSpans \<noteq> Some True
      then (Inl CannotLogWithSpans, lg, w)
      else
        (case Logger_startSpanImpl fromStr md amb
                (no_start_span_args\<lparr>ssa_startTime := Some (lg_lastStartTime lg),
                                     ssa_event := Some event\<rparr>) lg w of
           (Inl e, w1) \<Rightarrow> (Inl e, lg, w1)
         | (Inr sp, w1) \<Rightarrow>
             (case span_end md amb None sp w1 of
                (Inl e, sp1, w2) \<Rightarrow> (Inl e, lg, w2)
              | (Inr t, sp1, w2) \<Rightarrow>
                  (Inr (sp_id sp1), lg\<lparr>lg_lastStartTime := t\<rparr>,
                   if lg_asyncFlush lg = Some True then w2
                   else w2\<lparr>w_bgLogger := bg_flush_start (w_bgLogger w2)\<rparr>))))"

text \<open>
  \<^verbatim>\<open>validateAndSanitizeExperimentLogFullArgs\<close>; \<open>isEmpty\<close> is the function of
  \<^verbatim>\<open>./util\<close> of that name, a parameter.
\<close>

definition validateAndSanitizeExperimentLogFullArgs ::
  "(jv \<Rightarrow> bool) \<Rightarrow> event \<Rightarrow> bool \<Rightarrow> error + event"
where
  "validateAndSanitizeExperimentLogFullArgs isEmpty event hasDataset =
     (if (ev_input event \<noteq> None \<and> \<not> isEmpty (prop_value (ev_input event)) \<and>
          ev_inputs event \<noteq> None \<and> \<not> isEmpty (prop_value (ev_inputs event))) \<or>
         (ev_input event = None \<and> ev_inputs event = None)
      then Inl ExactlyOneOfInputOrInputs
      else if isEmpty (prop_value (ev_output event)) then Inl OutputMustBeSpecified
      else if isEmpty (prop_value (ev_scores event)) then Inl ScoresMustBeSpecified
      else if hasDataset \<and> prop_value (ev_datasetRecordId event) = JUndefined
      then Inl DatasetRecordIdRequired
      else if \<not> hasDataset \<and> prop_value (ev_datasetRecordId event) \<noteq> JUndefined
      then Inl DatasetRecordIdForbidden
      else Inr event)"

record experiment_obj =
  ex_hasDataset :: bool
  ex_lastStartTime :: jv
  ex_calledStartSpan :: bool

definition Experiment_startSpanImpl ::
  "(string \<Rightarrow> error + span_components) \<Rightarrow> (jv \<Rightarrow> jv \<Rightarrow> jv) \<Rightarrow> ambient \<Rightarrow> start_span_args \<Rightarrow>
   experiment_obj \<Rightarrow> world \<Rightarrow> (error + span_impl) \<times> world"
where
  "Experiment_startSpanImpl fromStr md amb args ex w =
     (case startSpanParentArgs fromStr (ssa_parent args)
             \<lparr>pa_parentObjectType = EXPERIMENT,
              pa_parentObjectId = OwnerId,
              pa_parentComputeObjectMetadataArgs = None,
              pa_parentSpanIds = None\<rparr> of
        Inl e \<Rightarrow> (Inl e, w)
      | Inr pargs \<Rightarrow> SpanImpl_new md amb pargs args (Some ''eval'') w)"

definition Experiment_startSpan ::
  "(string \<Rightarrow> error + span_components) \<Rightarrow> (jv \<Rightarrow> jv \<Rightarrow> jv) \<Rightarrow> ambient \<Rightarrow> start_span_args \<Rightarrow>
   experiment_obj \<Rightarrow> world \<Rightarrow> (error + span_impl) \<times> experiment_obj \<times> world"
where
  "Experiment_startSpan fromStr md amb args ex w =
     (case Experiment_startSpanImpl fromStr md amb args (ex\<lparr>ex_calledStartSpan := True\<rparr>) w of
        (r, w1) \<Rightarrow> (r, ex\<lparr>ex_calledStartSpan := True\<rparr>, w1))"

definition Experiment_log ::
  "(string \<Rightarrow> error + span_components) \<Rightarrow> (jv \<Rightarrow> jv \<Rightarrow> jv) \<Rightarrow> (jv \<Rightarrow> bool) \<Rightarrow> ambient \<Rightarrow> event \<Rightarrow>
   bool option \<Rightarrow> experiment_obj \<Rightarrow> world \<Rightarrow> (error + jv) \<times> experiment_obj \<times> world"
where
  "Experiment_log fromStr md isEmpty amb event allowConcurrentWithSpans ex w =
     (if ex_calledStartSpan ex \<and> allowConcurrentWithSpans \<noteq> Some True
      then (Inl CannotLogWithSpans, ex, w)
      else
        (case validateAndSanitizeExperimentLogFullArgs isEmpty event (ex_hasDataset ex) of
           Inl e \<Rightarrow> (Inl e, ex, w)
         | Inr event1 \<Rightarrow>
             (case Experiment_startSpanImpl fromStr md amb
                     (no_start_span_args\<lparr>ssa_startTime := Some (ex_lastStartTime ex),
                                          ssa_event := Some event1\<rparr>) ex w of
                (Inl e, w1) \<Rightarrow> (Inl e, ex, w1)
              | (Inr sp, w1) \<Rightarrow>
                  (case span_end md amb None sp w1 of
                     (Inl e, sp1, w2) \<Rightarrow> (Inl e, ex, w2)
                   | (Inr t, sp1, w2) \<Rightarrow>
                       (Inr (sp_id sp1), ex\<lparr>ex_lastStartTime := t\<rparr>, w2)))))"

section \<open>Notions used to state the properties\<close>

text \<open>
  What the sanitizer is expected to do to one score: a boolean becomes \<open>0\<close> or \<open>1\<close>, any
  other value stays. A score passes when it is \<^verbatim>\<open>null\<close>, \<^verbatim>\<open>undefined\<close>, \<^verbatim>\<open>NaN\<close>, a
  boolean or a number of the closed interval from 0 to 1.
\<close>

fun coerce_score :: "jv \<Rightarrow> jv" where
  "coerce_score (JBool b) = JNum (if b then 1 else 0)"
| "coerce_score v = v"

fun score_ok :: "jv \<Rightarrow> bool" where
  "score_ok JNull = True"
| "score_ok JUndefined = True"
| "score_ok (JBool b) = True"
| "score_ok (JNum x) = (0 \<le> x \<and> x \<le> 1)"
| "score_ok JNaN = True"
| "score_ok v = False"

text \<open>
  An event is a JavaScript object, so its scores object holds no key twice; the list
  that stands for it has distinct keys.
\<close>

definition scores_keys_distinct :: "event \<Rightarrow> bool" where
  "scores_keys_distinct event =
     (case ev_scores event of
        Some (JObj kvs) \<Rightarrow> distinct (map fst kvs)
      | _ \<Rightarrow> True)"

text \<open>
  The rest of an event passes: its metrics, its \<^verbatim>\<open>input\<close> and \<^verbatim>\<open>inputs\<close> and its tags
  make none of the later checks of the sanitizer throw.
\<close>

definition other_fields_pass :: "event \<Rightarrow> bool" where
  "other_fields_pass event =
     (check_metrics event = Inr () \<and> check_input_alias event = Inr () \<and>
      check_tags event = Inr ())"

text \<open>The event \<^verbatim>\<open>{ scores: {...} }\<close>.\<close>

definition scored_event :: "(string \<times> jv) list \<Rightarrow> event" where
  "scored_event kvs = empty_event\<lparr>ev_scores := Some (JObj kvs)\<rparr>"

text \<open>
  The dropped items a logger has accounted for: those its warnings reported, and those
  its counter holds since the last warning.
\<close>

fun reported_drops :: "'a effect list \<Rightarrow> int" where
  "reported_drops [] = 0"
| "reported_drops (Warn (DroppedDueToFullQueue n) # es) = n + reported_drops es"
| "reported_drops (e # es) = reported_drops es"

definition accounted_drops :: "'a bg_logger \<Rightarrow> int" where
  "accounted_drops bg = reported_drops (effects bg) + numDropped bg"

text \<open>Logging records one by one, each in a call of its own at its own time.\<close>

definition log_each :: "(rat \<times> 'a) list \<Rightarrow> 'a bg_logger \<Rightarrow> 'a bg_logger" where
  "log_each calls bg = fold (\<lambda>(t, x). bg_log t [x]) calls bg"

text \<open>
  Loggers as the constructor makes them: with a queue bound of 100 in synchronous-flush
  mode, with a bound of 1 in that mode, and with a bound of 100 in the default
  (asynchronous) mode.
\<close>

definition sync_logger_100 :: "'a bg_logger" where
  "sync_logger_100 =
     BackgroundLogger (no_env_options\<lparr>BRAINTRUST_SYNC_FLUSH := Some 1,
                                       BRAINTRUST_QUEUE_DROP_EXCEEDING_MAXSIZE := Some 100\<rparr>)"

definition sync_logger_1 :: "'a bg_logger" where
  "sync_logger_1 =
     BackgroundLogger (no_env_options\<lparr>BRAINTRUST_SYNC_FLUSH := Some 1,
                                       BRAINTRUST_QUEUE_DROP_EXCEEDING_MAXSIZE := Some 1\<rparr>)"

definition async_logger_100 :: "'a bg_logger" where
  "async_logger_100 =
     BackgroundLogger (no_env_options\<lparr>BRAINTRUST_QUEUE_DROP_EXCEEDING_MAXSIZE := Some 100\<rparr>)"

text \<open>
  The waits, the posts (path and body) and the payload files (directory and payload) among
  the effects, in order.
\<close>

fun sleeps :: "'a effect list \<Rightarrow> nat list" where
  "sleeps [] = []"
| "sleeps (Sleep ms # es) = ms # sleeps es"
| "sleeps (e # es) = sleeps es"

fun posts :: "'a effect list \<Rightarrow> (string \<times> string) list" where
  "posts [] = []"
| "posts (Post path body # es) = (path, body) # posts es"
| "posts (e # es) = posts es"

fun payload_writes :: "'a effect list \<Rightarrow> (string \<times> string) list" where
  "payload_writes [] = []"
| "payload_writes (WritePayload dir payload # es) = (dir, payload) # payload_writes es"
| "payload_writes (e # es) = payload_writes es"

text \<open>
  The body of the fallback post, and one attempt of \<^verbatim>\<open>submitLogsRequest\<close> as the spec words
  it: the attempt posts to \<^verbatim>\<open>logs3\<close> and, where that fails, to \<^verbatim>\<open>logs\<close>; it fails with the
  error of the second post.
\<close>

definition legacy_body :: "('a, 'r) flush_env \<Rightarrow> string list \<Rightarrow> string" where
  "legacy_body env rows = constructJsonArray env (map (legacyRow env) rows)"

definition attempt_error :: "('a, 'r) flush_env \<Rightarrow> string list \<Rightarrow> nat \<Rightarrow> error option" where
  "attempt_error env rows i =
     (case post_json env ''logs3'' (constructLogs3Data env rows) i of
        None \<Rightarrow> None
      | Some e \<Rightarrow> post_json env ''logs'' (legacy_body env rows) i)"

definition attempt_posts :: "('a, 'r) flush_env \<Rightarrow> string list \<Rightarrow> nat \<Rightarrow> (string \<times> string) list" where
  "attempt_posts env rows i =
     (case post_json env ''logs3'' (constructLogs3Data env rows) i of
        None \<Rightarrow> [(''logs3'', constructLogs3Data env rows)]
      | Some e \<Rightarrow> [(''logs3'', constructLogs3Data env rows), (''logs'', legacy_body env rows)])"

text \<open>
  The number of attempts a submission made: its posts to \<^verbatim>\<open>logs3\<close>.
\<close>

definition attempts :: "'a effect list \<Rightarrow> nat" where
  "attempts tr = length (filter (\<lambda>p. fst p = ''logs3'') (posts tr))"

text \<open>
  A concrete environment for the examples: queue items hold their own outcome, rows are
  strings, every non-empty list of rows is one bucket, one batch and one batch set, and the
  transport is a parameter.
\<close>

fun join_with_comma :: "string list \<Rightarrow> string" where
  "join_with_comma [] = []"
| "join_with_comma [x] = x"
| "join_with_comma (x # y # ys) = x @ '','' @ join_with_comma (y # ys)"

definition example_env ::
  "(string \<Rightarrow> string \<Rightarrow> nat \<Rightarrow> error option) \<Rightarrow> (error + string, string) flush_env"
where
  "example_env transport =
     \<lparr>lazy_get = (\<lambda>i x. x),
      lazy_settles = (\<lambda>i x. 0),
      mergeRowBatch = (\<lambda>rows. Inr (if rows = [] then [] else [rows])),
      stringify = (\<lambda>r. r),
      batchItems = (\<lambda>buckets n b. if buckets = [] then [] else [buckets]),
      constructJsonArray = (\<lambda>xs. ''['' @ join_with_comma xs @ '']''),
      legacyRow = (\<lambda>r. r),
      apiConn_get = None,
      post_json = transport\<rparr>"

text \<open>
  Transports: one that fails every post, one that accepts every post, and one that knows
  the legacy endpoint only.
\<close>

definition http_500 :: "string \<Rightarrow> string \<Rightarrow> nat \<Rightarrow> error option" where
  "http_500 path body i = Some (Thrown ''500 (Internal Server Error)'')"

definition http_ok :: "string \<Rightarrow> string \<Rightarrow> nat \<Rightarrow> error option" where
  "http_ok path body i = None"

definition legacy_only :: "string \<Rightarrow> string \<Rightarrow> nat \<Rightarrow> error option" where
  "legacy_only path body i = (if path = ''logs3'' then Some (Thrown ''404 (Not Found)'') else None)"

text \<open>
  The example environment with a \<^verbatim>\<open>mergeRowBatch\<close> that throws, as on a row without an
  \<^verbatim>\<open>id\<close>; and settling times under which the record failing with \<^verbatim>\<open>early\<close> settles
  before every other.
\<close>

definition unmergeable_env :: "(error + string, string) flush_env" where
  "unmergeable_env =
     (example_env http_ok)\<lparr>mergeRowBatch := (\<lambda>rows. Inl (Thrown ''row without id''))\<rparr>"

definition early_late :: "error + string \<Rightarrow> nat" where
  "early_late x = (if x = Inl (Thrown ''early'') then 1 else 2)"

text \<open>
  A pass during which one record is logged, and the default logger after \<^verbatim>\<open>log(batch)\<close>
  at time 1000: the call has started a flush, which holds the batch.
\<close>

definition late_arrival :: "(error + string) pass_script" where
  "late_arrival = \<lparr>during_resolve = [(1001, [Inr ''late''])], during_submit = []\<rparr>"

definition flushing_logger :: "(error + string) list \<Rightarrow> (error + string) bg_logger" where
  "flushing_logger batch = bg_log 1000 batch (BackgroundLogger no_env_options)"

text \<open>
  The example environment without a connection: \<^verbatim>\<open>this.apiConn.get()\<close> fails, as when the
  login failed.
\<close>

definition offline_env :: "(error + string, string) flush_env" where
  "offline_env = (example_env http_ok)\<lparr>apiConn_get := Some (Thrown ''not logged in'')\<rparr>"

text \<open>
  A pass reaches its submissions when the drained records resolve to a list of buckets
  that is not empty.
\<close>

definition reached_submissions :: "('a, 'r) flush_env \<Rightarrow> 'a bg_logger \<Rightarrow> bool" where
  "reached_submissions env bg =
     (case fst (unwrapLazyValues env bg (flushing bg)) of
        Inl e \<Rightarrow> False
      | Inr allItems \<Rightarrow> allItems \<noteq> [])"

text \<open>
  The default logger with a directory for failed payloads.
\<close>

definition failed_dir_logger :: "(error + string) bg_logger" where
  "failed_dir_logger =
     BackgroundLogger (no_env_options\<lparr>BRAINTRUST_FAILED_PUBLISH_PAYLOADS_DIR := Some ''/var/failed''\<rparr>)"

text \<open>
  Examples for the spans. \<open>keep_new\<close> stands for \<^verbatim>\<open>mergeDicts\<close> on one key and keeps the
  new value; \<open>reads row spanId now\<close> is what a call reads from outside when \<^verbatim>\<open>uuidv4()\<close>
  gives the two identifiers and the clock shows \<open>now\<close>; \<open>quiet_world\<close> has an empty queue
  in synchronous-flush mode and has made no span yet; \<open>token_of_x\<close> decodes the export
  token of a span \<open>x\<close> of the same project and nothing else, \<open>token_of_project\<close> a token
  that names the project and no span (it has no row ids); \<open>no_parent\<close> are the parent
  arguments \<^verbatim>\<open>Logger.startSpan\<close> passes when it is given no \<^verbatim>\<open>parent\<close>, and \<open>under_A\<close>
  those \<^verbatim>\<open>A.startSpan\<close> passes for the span \<open>span_A\<close> below.
\<close>

definition keep_new :: "jv \<Rightarrow> jv \<Rightarrow> jv" where
  "keep_new into from = from"

definition reads :: "string \<Rightarrow> string \<Rightarrow> rat \<Rightarrow> ambient" where
  "reads row spanId now =
     \<lparr>amb_uuid_row = row, amb_uuid_span = spanId, amb_now = now,
      amb_created = ''2024-01-01T00:00:00.000Z'', amb_callerLocation = None\<rparr>"

definition quiet_world :: world where
  "quiet_world = \<lparr>w_bgLogger = sync_logger_100, w_executionCounter = 0\<rparr>"

definition token_of_x :: "string \<Rightarrow> error + span_components" where
  "token_of_x s =
     (if s = ''token-x''
      then Inr \<lparr>comp_objectType = PROJECT_LOGS, comp_objectId = Some ''project'',
                comp_computeObjectMetadataArgs = None,
                comp_rowIds = Some \<lparr>row_rowId = ''row-x'', row_spanId = ''span-x'',
                                     row_rootSpanId = ''root-x''\<rparr>\<rparr>
      else Inl (Thrown ''malformed token''))"

definition token_of_project :: "string \<Rightarrow> error + span_components" where
  "token_of_project s =
     (if s = ''token-p''
      then Inr \<lparr>comp_objectType = PROJECT_LOGS, comp_objectId = Some ''project'',
                comp_computeObjectMetadataArgs = None, comp_rowIds = None\<rparr>
      else Inl (Thrown ''malformed token''))"

definition no_parent :: parent_args where
  "no_parent =
     \<lparr>pa_parentObjectType = PROJECT_LOGS, pa_parentObjectId = OwnerId,
      pa_parentComputeObjectMetadataArgs = None, pa_parentSpanIds = None\<rparr>"

definition under_A :: parent_args where
  "under_A =
     \<lparr>pa_parentObjectType = PROJECT_LOGS, pa_parentObjectId = OwnerId,
      pa_parentComputeObjectMetadataArgs = None,
      pa_parentSpanIds = Some \<lparr>psi_spanId = ''span-a'', psi_rootSpanId = ''span-a''\<rparr>\<rparr>"

text \<open>
  The span \<^verbatim>\<open>A\<close> a logger makes first when the identifiers read are \<^verbatim>\<open>row-a\<close> and
  \<^verbatim>\<open>span-a\<close>, and the span \<^verbatim>\<open>B\<close> that \<^verbatim>\<open>A.startSpan()\<close> makes when they are \<^verbatim>\<open>row-b\<close>
  and \<^verbatim>\<open>span-b\<close>.
\<close>

definition span_A :: span_impl where
  "span_A =
     \<lparr>sp_isMerge = True, sp_loggedEndTime = JUndefined, sp_parentObjectType = PROJECT_LOGS,
      sp_parentObjectId = OwnerId, sp_parentComputeObjectMetadataArgs = None,
      sp_id = JStr ''row-a'', sp_spanId = ''span-a'', sp_rootSpanId = ''span-a'',
      sp_spanParents = None\<rparr>"

definition span_B :: span_impl where
  "span_B =
     \<lparr>sp_isMerge = True, sp_loggedEndTime = JUndefined, sp_parentObjectType = PROJECT_LOGS,
      sp_parentObjectId = OwnerId, sp_parentComputeObjectMetadataArgs = None,
      sp_id = JStr ''row-b'', sp_spanId = ''span-b'', sp_rootSpanId = ''span-a'',
      sp_spanParents = Some [''span-a'']\<rparr>"

text \<open>
  The queued records by what they say of the hierarchy (\<^verbatim>\<open>span_id\<close>, \<^verbatim>\<open>root_span_id\<close>,
  \<^verbatim>\<open>span_parents\<close>), and by their \<^verbatim>\<open>metrics\<close>.
\<close>

definition queued_hierarchy :: "world \<Rightarrow> (string \<times> string \<times> string list option) list" where
  "queued_hierarchy w =
     map (\<lambda>item. (lr_span_id (lz_partialRecord item), lr_root_span_id (lz_partialRecord item),
                   lr_span_parents (lz_partialRecord item)))
       (items (w_bgLogger w))"

definition queued_metrics :: "world \<Rightarrow> jv option list" where
  "queued_metrics w = map (\<lambda>item. ev_metrics (lr_event (lz_partialRecord item))) (items (w_bgLogger w))"

text \<open>
  For the toplevel \<^verbatim>\<open>log\<close>: an instance of \<^verbatim>\<open>isEmpty\<close> (the value is \<^verbatim>\<open>undefined\<close> or
  \<^verbatim>\<open>null\<close>), an event with an input, an output and a score, and a logger and an
  experiment on which \<^verbatim>\<open>startSpan\<close> has not been called.
\<close>

definition nullish :: "jv \<Rightarrow> bool" where
  "nullish v = (v = JUndefined \<or> v = JNull)"

definition valid_event :: event where
  "valid_event =
     empty_event\<lparr>ev_input := Some (JStr ''question''), ev_output := Some (JStr ''answer''),
                  ev_scores := Some (JObj [(''quality'', JNum 1)])\<rparr>"

definition fresh_logger :: logger_obj where
  "fresh_logger =
     \<lparr>lg_asyncFlush = None, lg_computeMetadataArgs = None, lg_lastStartTime = JNum 9,
      lg_calledStartSpan = False\<rparr>"

definition fresh_experiment :: experiment_obj where
  "fresh_experiment =
     \<lparr>ex_hasDataset = False, ex_lastStartTime = JNum 9, ex_calledStartSpan = False\<rparr>"

section \<open>Properties of the sanitizer\<close>

lemma update_append_fresh:
  "k \<notin> fst ` set pre \<Longrightarrow> AList.update k v (pre @ (k, w) # rest) = pre @ (k, v) # rest"
  by (induction pre) auto

text \<open>
  On an object with distinct keys the loop over the scores, where it returns, has coerced
  every value in place and found every value passable.
\<close>

lemma scores_loop_obj:
  "distinct (map fst (pre @ rest)) \<Longrightarrow>
   scores_loop rest (JObj (pre @ rest)) = Inr r \<Longrightarrow>
   r = JObj (pre @ map (\<lambda>(k, v). (k, coerce_score v)) rest) \<and> (\<forall>(k, v) \<in> set rest. score_ok v)"
proof (induction rest arbitrary: pre)
  case Nil
  then show ?case by simp
next
  case (Cons p rest)
  obtain k v where p: "p = (k, v)" by (cases p)
  have fresh: "k \<notin> fst ` set pre" using Cons.prems(1) p by auto
  have d: "distinct (map fst ((pre @ [(k, coerce_score v)]) @ rest))"
    using Cons.prems(1) p by auto
  have step: "scores_loop rest (JObj ((pre @ [(k, coerce_score v)]) @ rest)) = Inr r \<and> score_ok v"
    using Cons.prems(2) p fresh
    by (cases v) (auto simp: update_append_fresh split: if_splits)
  from Cons.IH[OF d] step show ?case using p by auto
qed

lemma scores_loop_clean:
  "\<forall>(k, v) \<in> set es. score_ok v \<and> js_typeof v \<noteq> T_boolean \<Longrightarrow> scores_loop es cur = Inr cur"
proof (induction es)
  case Nil
  then show ?case by simp
next
  case (Cons p es)
  obtain k v where p: "p = (k, v)" by (cases p)
  show ?case using Cons p by (cases v) auto
qed

lemma scores_loop_fail:
  "(k, v) \<in> set es \<Longrightarrow> \<not> score_ok v \<Longrightarrow> \<exists>e. scores_loop es cur = Inl e"
proof (induction es arbitrary: cur)
  case Nil
  then show ?case by simp
next
  case (Cons p es)
  obtain k' v' where p: "p = (k', v')" by (cases p)
  show ?case
  proof (cases "(k, v) = p")
    case True
    then show ?thesis using Cons.prems p by (cases v) auto
  next
    case False
    then have "(k, v) \<in> set es" using Cons.prems by auto
    from Cons.IH[OF this Cons.prems(2)] show ?thesis using p
      by (cases v') (auto split: if_splits)
  qed
qed

lemma coerced_clean:
  "\<forall>(k, v) \<in> set kvs. score_ok v \<Longrightarrow>
   \<forall>(k, v) \<in> set (map (\<lambda>(k, v). (k, coerce_score v)) kvs). score_ok v \<and> js_typeof v \<noteq> T_boolean"
proof (induction kvs)
  case Nil
  then show ?case by simp
next
  case (Cons p kvs)
  obtain k v where p: "p = (k, v)" by (cases p)
  have "score_ok (coerce_score v) \<and> js_typeof (coerce_score v) \<noteq> T_boolean"
    using Cons.prems p by (cases v) auto
  then show ?case using Cons p by auto
qed

lemma check_scores_fixpoint:
  assumes "check_scores s = Inr s'"
    and "case s of JObj kvs \<Rightarrow> distinct (map fst kvs) | _ \<Rightarrow> True"
  shows "check_scores s' = Inr s'"
proof (cases s)
  case (JObj kvs)
  have d: "distinct (map fst ([] @ kvs))" using assms(2) JObj by simp
  have l: "scores_loop kvs (JObj ([] @ kvs)) = Inr s'"
    using assms(1) JObj by (simp add: check_scores_def)
  from scores_loop_obj[OF d l]
  have s': "s' = JObj (map (\<lambda>(k, v). (k, coerce_score v)) kvs)"
    and ok: "\<forall>(k, v) \<in> set kvs. score_ok v" by auto
  show ?thesis
    using scores_loop_clean[OF coerced_clean[OF ok]] s' by (simp add: check_scores_def)
next
  case (JStr str)
  show ?thesis
  proof (cases str)
    case Nil
    then have "s' = JStr []" using assms(1) JStr by (simp add: check_scores_def)
    then show ?thesis by (simp add: check_scores_def)
  next
    case (Cons c cs)
    have "check_scores s = Inl ScoreValuesMustBeNumbers"
      using JStr Cons by (simp add: check_scores_def upt_conv_Cons del: upt_Suc)
    then show ?thesis using assms(1) by simp
  qed
qed (use assms(1) in \<open>auto simp: check_scores_def\<close>)

lemma sanitize_scores_fixpoint:
  assumes "scores_keys_distinct event" and "sanitize_scores event = Inr event1"
  shows "sanitize_scores event1 = Inr event1"
proof (cases "truthy (prop_value (ev_scores event))")
  case False
  then show ?thesis using assms(2) by (auto simp: sanitize_scores_def)
next
  case True
  then obtain s where s: "ev_scores event = Some s" by (cases "ev_scores event") auto
  from assms(2) True s obtain s' where cs: "check_scores s = Inr s'"
    and e1: "event1 = event\<lparr>ev_scores := Some s'\<rparr>"
    by (auto simp: sanitize_scores_def split: sum.splits)
  have wf: "case s of JObj kvs \<Rightarrow> distinct (map fst kvs) | _ \<Rightarrow> True"
    using assms(1) s by (auto simp: scores_keys_distinct_def split: jv.splits)
  have fp: "check_scores s' = Inr s'" by (rule check_scores_fixpoint[OF cs wf])
  have "truthy s' \<or> \<not> truthy s'" by simp
  then show ?thesis using e1 fp by (auto simp: sanitize_scores_def)
qed

lemma sanitize_scores_rename:
  "sanitize_scores (rename_inputs e) =
     (case sanitize_scores e of Inl x \<Rightarrow> Inl x | Inr e2 \<Rightarrow> Inr (rename_inputs e2))"
  by (cases "check_scores (prop_value (ev_scores e))")
     (simp_all add: sanitize_scores_def rename_inputs_def)

lemma sanitize_scores_array:
  "ev_scores event = Some (JArr xs) \<Longrightarrow>
   validateAndSanitizeExperimentLogPartialArgs event = Inl ScoresMustNotBeArray"
  by (simp add: validateAndSanitizeExperimentLogPartialArgs_def sanitize_scores_def check_scores_def)

lemma sanitize_scores_reject:
  assumes "ev_scores event = Some (JObj kvs)" and "(name, v) \<in> set kvs" and "\<not> score_ok v"
  shows "isl (validateAndSanitizeExperimentLogPartialArgs event)"
proof -
  from scores_loop_fail[OF assms(2,3)] obtain e where "scores_loop kvs (JObj kvs) = Inl e" by blast
  then show ?thesis using assms(1)
    by (simp add: validateAndSanitizeExperimentLogPartialArgs_def sanitize_scores_def check_scores_def)
qed

lemma sanitize_scores_coerce:
  assumes "ev_scores event = Some (JObj kvs)" and "distinct (map fst kvs)"
    and "validateAndSanitizeExperimentLogPartialArgs event = Inr event'"
  shows "ev_scores event' = Some (JObj (map (\<lambda>(k, v). (k, coerce_score v)) kvs))"
proof -
  from assms(3) obtain event1 where
    s1: "sanitize_scores event = Inr event1" and e': "event' = rename_inputs event1"
    unfolding validateAndSanitizeExperimentLogPartialArgs_def
    by (auto split: sum.splits)
  from s1 assms(1) obtain sc where l: "scores_loop kvs (JObj ([] @ kvs)) = Inr sc"
    and e1: "event1 = event\<lparr>ev_scores := Some sc\<rparr>"
    by (auto simp: sanitize_scores_def check_scores_def split: sum.splits)
  have d: "distinct (map fst ([] @ kvs))" using assms(2) by simp
  from scores_loop_obj[OF d l] have "sc = JObj (map (\<lambda>(k, v). (k, coerce_score v)) kvs)" by simp
  then show ?thesis using e' e1 by (simp add: rename_inputs_def)
qed

text \<open>
  On an object with distinct keys whose values all pass, the loop returns the object with
  every value coerced in place.
\<close>

lemma scores_loop_accept:
  "distinct (map fst (pre @ rest)) \<Longrightarrow> \<forall>(k, v) \<in> set rest. score_ok v \<Longrightarrow>
   scores_loop rest (JObj (pre @ rest)) =
     Inr (JObj (pre @ map (\<lambda>(k, v). (k, coerce_score v)) rest))"
proof (induction rest arbitrary: pre)
  case Nil
  then show ?case by simp
next
  case (Cons p rest)
  obtain k v where p: "p = (k, v)" by (cases p)
  have fresh: "k \<notin> fst ` set pre" using Cons.prems(1) p by auto
  have d: "distinct (map fst ((pre @ [(k, coerce_score v)]) @ rest))"
    using Cons.prems(1) p by auto
  have ok: "\<forall>(k, v) \<in> set rest. score_ok v" using Cons.prems(2) by simp
  have okv: "score_ok v" using Cons.prems(2) p by simp
  have step: "scores_loop (p # rest) (JObj (pre @ p # rest)) =
                scores_loop rest (JObj ((pre @ [(k, coerce_score v)]) @ rest))"
    using okv p fresh by (cases v) (auto simp: update_append_fresh)
  show ?case unfolding step Cons.IH[OF d ok] using p by simp
qed

lemma sanitize_scores_accept:
  assumes "ev_scores event = Some (JObj kvs)" and "distinct (map fst kvs)"
    and "\<forall>(k, v) \<in> set kvs. score_ok v" and "other_fields_pass event"
  shows "validateAndSanitizeExperimentLogPartialArgs event =
           Inr (rename_inputs
                  (event\<lparr>ev_scores := Some (JObj (map (\<lambda>(k, v). (k, coerce_score v)) kvs))\<rparr>))"
proof -
  have d: "distinct (map fst ([] @ kvs))" using assms(2) by simp
  from scores_loop_accept[OF d assms(3)]
  have l: "scores_loop kvs (JObj kvs) = Inr (JObj (map (\<lambda>(k, v). (k, coerce_score v)) kvs))"
    by simp
  have s: "sanitize_scores event =
             Inr (event\<lparr>ev_scores := Some (JObj (map (\<lambda>(k, v). (k, coerce_score v)) kvs))\<rparr>)"
    using assms(1) l by (simp add: sanitize_scores_def check_scores_def)
  have same: "check_metrics (event\<lparr>ev_scores := x\<rparr>) = check_metrics event"
    "check_input_alias (event\<lparr>ev_scores := x\<rparr>) = check_input_alias event"
    "check_tags (event\<lparr>ev_scores := x\<rparr>) = check_tags event" for x
    by (simp_all add: check_metrics_def check_input_alias_def check_tags_def)
  have m: "check_metrics (event\<lparr>ev_scores := x\<rparr>) = Inr ()"
    and a: "check_input_alias (event\<lparr>ev_scores := x\<rparr>) = Inr ()"
    and t: "check_tags (event\<lparr>ev_scores := x\<rparr>) = Inr ()" for x
    using assms(4) unfolding same other_fields_pass_def by simp_all
  show ?thesis
    unfolding validateAndSanitizeExperimentLogPartialArgs_def by (simp add: s m a t)
qed

lemma sanitize_eval:
  "validateAndSanitizeExperimentLogPartialArgs
     (scored_event [(''a'', JBool True), (''b'', JBool False), (''c'', JNum (1/2))]) =
   Inr (scored_event [(''a'', JNum 1), (''b'', JNum 0), (''c'', JNum (1/2))])"
  by (simp add: validateAndSanitizeExperimentLogPartialArgs_def sanitize_scores_def check_scores_def
      check_metrics_def check_input_alias_def check_tags_def rename_inputs_def scored_event_def
      empty_event_def)

text \<open>
  The loop of \<^verbatim>\<open>validateTags\<close> decides on the types of the tags alone: no list of
  strings is refused, whatever it repeats.
\<close>

lemma validateTags_loop_never_duplicate:
  "validateTags_loop [] xs =
     (if \<forall>x \<in> set xs. js_typeof x = T_string then Inr () else Inl TagsMustBeStrings)"
  by (induction xs) (auto split: jv.splits)

text \<open>
  C4. Sanitization is to refuse an event whose list of tags repeats a tag. Run on the
  event \<^verbatim>\<open>{ tags: ["a", "a"] }\<close>, the function refuses nothing and returns the event as
  it was: \<^verbatim>\<open>validateTags\<close> looks each tag up in a set it never adds to. (A tag that is
  not a string is refused, see \<open>validateTags_loop_never_duplicate\<close>.)
\<close>

theorem duplicate_tags_accepted:
  "validateAndSanitizeExperimentLogPartialArgs
     (empty_event\<lparr>ev_tags := Some (JArr [JStr ''a'', JStr ''a''])\<rparr>) =
   Inr (empty_event\<lparr>ev_tags := Some (JArr [JStr ''a'', JStr ''a''])\<rparr>)"
  by (simp add: validateAndSanitizeExperimentLogPartialArgs_def sanitize_scores_def
      check_metrics_def check_input_alias_def check_tags_def rename_inputs_def validateTags_def
      empty_event_def)

text \<open>
  C5, as amended. For every partial event with a scores object: an array given as scores
  is refused; a score that does not pass, that is a finite number outside the closed
  interval from 0 to 1, an infinity, or a value that is neither \<^verbatim>\<open>null\<close> nor \<^verbatim>\<open>undefined\<close>,
  neither a number nor a boolean, makes the function throw; where the function returns,
  every boolean score has become 0 (\<^verbatim>\<open>false\<close>) or 1 (\<^verbatim>\<open>true\<close>) and every other score is as
  it was; and the function does return, with the scores so coerced, whenever every score
  passes and the rest of the event does. A score \<^verbatim>\<open>null\<close>, \<^verbatim>\<open>undefined\<close> or \<^verbatim>\<open>NaN\<close> is
  skipped, not refused.
\<close>

theorem score_sanitization:
  "(ev_scores event = Some (JArr xs) \<longrightarrow>
      validateAndSanitizeExperimentLogPartialArgs event = Inl ScoresMustNotBeArray) \<and>
   (ev_scores event = Some (JObj kvs) \<and> (name, v) \<in> set kvs \<and> \<not> score_ok v \<longrightarrow>
      isl (validateAndSanitizeExperimentLogPartialArgs event)) \<and>
   (ev_scores event = Some (JObj kvs) \<and> distinct (map fst kvs) \<and>
    validateAndSanitizeExperimentLogPartialArgs event = Inr event' \<longrightarrow>
      ev_scores event' = Some (JObj (map (\<lambda>(k, v). (k, coerce_score v)) kvs))) \<and>
   (ev_scores event = Some (JObj kvs) \<and> distinct (map fst kvs) \<and>
    (\<forall>(k, v) \<in> set kvs. score_ok v) \<and> other_fields_pass event \<longrightarrow>
      validateAndSanitizeExperimentLogPartialArgs event =
        Inr (rename_inputs
               (event\<lparr>ev_scores := Some (JObj (map (\<lambda>(k, v). (k, coerce_score v)) kvs))\<rparr>))) \<and>
   (score_ok v \<longleftrightarrow>
      v = JNull \<or> v = JUndefined \<or> v = JNaN \<or> js_typeof v = T_boolean \<or>
      (\<exists>x. v = JNum x \<and> 0 \<le> x \<and> x \<le> 1))"
proof (intro conjI impI)
  assume "ev_scores event = Some (JArr xs)"
  then show "validateAndSanitizeExperimentLogPartialArgs event = Inl ScoresMustNotBeArray"
    by (rule sanitize_scores_array)
next
  assume a: "ev_scores event = Some (JObj kvs) \<and> (name, v) \<in> set kvs \<and> \<not> score_ok v"
  then show "isl (validateAndSanitizeExperimentLogPartialArgs event)"
    using sanitize_scores_reject by blast
next
  assume "ev_scores event = Some (JObj kvs) \<and> distinct (map fst kvs) \<and>
    validateAndSanitizeExperimentLogPartialArgs event = Inr event'"
  then show "ev_scores event' = Some (JObj (map (\<lambda>(k, v). (k, coerce_score v)) kvs))"
    using sanitize_scores_coerce by blast
next
  assume "ev_scores event = Some (JObj kvs) \<and> distinct (map fst kvs) \<and>
    (\<forall>(k, v) \<in> set kvs. score_ok v) \<and> other_fields_pass event"
  then show "validateAndSanitizeExperimentLogPartialArgs event =
        Inr (rename_inputs
               (event\<lparr>ev_scores := Some (JObj (map (\<lambda>(k, v). (k, coerce_score v)) kvs))\<rparr>))"
    using sanitize_scores_accept by blast
next
  show "score_ok v \<longleftrightarrow>
      v = JNull \<or> v = JUndefined \<or> v = JNaN \<or> js_typeof v = T_boolean \<or>
      (\<exists>x. v = JNum x \<and> 0 \<le> x \<and> x \<le> 1)"
    by (cases v) auto
qed

text \<open>
  The theorem at work: an array of scores, the scores 1.5, -0.1, \<^verbatim>\<open>"high"\<close> and
  \<^verbatim>\<open>-Infinity\<close> are refused; the event \<^verbatim>\<open>{ scores: { a: true, b: false, c: 0.5 } }\<close>, whose
  scores and other fields pass, is accepted and comes back with the scores 1, 0 and 0.5.
\<close>

theorem score_sanitization_witness:
  "validateAndSanitizeExperimentLogPartialArgs (empty_event\<lparr>ev_scores := Some (JArr [JNum 1])\<rparr>) =
     Inl ScoresMustNotBeArray \<and>
   \<not> score_ok (JNum (3/2)) \<and>
   isl (validateAndSanitizeExperimentLogPartialArgs (scored_event [(''q'', JNum (3/2))])) \<and>
   isl (validateAndSanitizeExperimentLogPartialArgs (scored_event [(''q'', JNum (- 1/10))])) \<and>
   isl (validateAndSanitizeExperimentLogPartialArgs (scored_event [(''q'', JStr ''high'')])) \<and>
   isl (validateAndSanitizeExperimentLogPartialArgs (scored_event [(''q'', JInfinity False)])) \<and>
   score_ok (JBool True) \<and> score_ok (JBool False) \<and> score_ok (JNum (1/2)) \<and>
   other_fields_pass
     (scored_event [(''a'', JBool True), (''b'', JBool False), (''c'', JNum (1/2))]) \<and>
   validateAndSanitizeExperimentLogPartialArgs
     (scored_event [(''a'', JBool True), (''b'', JBool False), (''c'', JNum (1/2))]) =
     Inr (scored_event [(''a'', JNum 1), (''b'', JNum 0), (''c'', JNum (1/2))])"
proof -
  have a: "ev_scores (empty_event\<lparr>ev_scores := Some (JArr [JNum 1])\<rparr>) = Some (JArr [JNum 1])"
    by simp
  have b: "ev_scores (scored_event kvs) = Some (JObj kvs)" for kvs
    by (simp add: scored_event_def)
  have o: "other_fields_pass (scored_event kvs)" for kvs
    by (simp add: other_fields_pass_def scored_event_def empty_event_def check_metrics_def
        check_input_alias_def check_tags_def)
  have r: "rename_inputs ((scored_event kvs)\<lparr>ev_scores := Some (JObj kvs')\<rparr>) = scored_event kvs'"
    for kvs kvs'
    by (simp add: rename_inputs_def scored_event_def empty_event_def)
  have ok: "\<forall>(k, v) \<in> set [(''a'', JBool True), (''b'', JBool False), (''c'', JNum (1/2))]. score_ok v"
    by simp
  note t = score_sanitization
  from t[of "empty_event\<lparr>ev_scores := Some (JArr [JNum 1])\<rparr>" "[JNum 1]"] a
  have 1: "validateAndSanitizeExperimentLogPartialArgs (empty_event\<lparr>ev_scores := Some (JArr [JNum 1])\<rparr>) =
     Inl ScoresMustNotBeArray" by blast
  from t[of "scored_event [(''q'', JNum (3/2))]" _ "[(''q'', JNum (3/2))]" "''q''" "JNum (3/2)"] b
  have 2: "isl (validateAndSanitizeExperimentLogPartialArgs (scored_event [(''q'', JNum (3/2))]))"
    by simp
  from t[of "scored_event [(''q'', JNum (- 1/10))]" _ "[(''q'', JNum (- 1/10))]" "''q''" "JNum (- 1/10)"] b
  have 3: "isl (validateAndSanitizeExperimentLogPartialArgs (scored_event [(''q'', JNum (- 1/10))]))"
    by simp
  from t[of "scored_event [(''q'', JStr ''high'')]" _ "[(''q'', JStr ''high'')]" "''q''" "JStr ''high''"] b
  have 4: "isl (validateAndSanitizeExperimentLogPartialArgs (scored_event [(''q'', JStr ''high'')]))"
    by simp
  from t[of "scored_event [(''q'', JInfinity False)]" _ "[(''q'', JInfinity False)]" "''q''"
      "JInfinity False"] b
  have 5: "isl (validateAndSanitizeExperimentLogPartialArgs (scored_event [(''q'', JInfinity False)]))"
    by simp
  from t[of "scored_event [(''a'', JBool True), (''b'', JBool False), (''c'', JNum (1/2))]" _
      "[(''a'', JBool True), (''b'', JBool False), (''c'', JNum (1/2))]"] b o r ok
  have 6: "validateAndSanitizeExperimentLogPartialArgs
     (scored_event [(''a'', JBool True), (''b'', JBool False), (''c'', JNum (1/2))]) =
     Inr (scored_event [(''a'', JNum 1), (''b'', JNum 0), (''c'', JNum (1/2))])"
    by simp
  have 7: "\<not> score_ok (JNum (3/2))" by simp
  have 8: "score_ok (JBool True) \<and> score_ok (JBool False) \<and> score_ok (JNum (1/2))" by simp
  from 1 2 3 4 5 6 7 8 o show ?thesis by blast
qed

text \<open>
  The claim C5 as it was stated fails on \<^verbatim>\<open>{ scores: { quality: null } }\<close>: \<^verbatim>\<open>null\<close> is a
  defined value, neither a number nor a boolean, and the event is accepted unchanged.
  It fails on \<^verbatim>\<open>{ scores: { quality: NaN } }\<close> as well: \<^verbatim>\<open>NaN\<close> is a number and lies
  outside every interval, and the event is accepted unchanged.
\<close>

theorem null_score_counterexample:
  "JNull \<noteq> JUndefined \<and> js_typeof JNull \<noteq> T_number \<and> js_typeof JNull \<noteq> T_boolean \<and>
   validateAndSanitizeExperimentLogPartialArgs (scored_event [(''quality'', JNull)]) =
     Inr (scored_event [(''quality'', JNull)]) \<and>
   js_typeof JNaN = T_number \<and> (\<forall>x. JNaN \<noteq> JNum x) \<and>
   validateAndSanitizeExperimentLogPartialArgs (scored_event [(''quality'', JNaN)]) =
     Inr (scored_event [(''quality'', JNaN)])"
  by (simp add: validateAndSanitizeExperimentLogPartialArgs_def sanitize_scores_def check_scores_def
      check_metrics_def check_input_alias_def check_tags_def rename_inputs_def scored_event_def
      empty_event_def)

text \<open>
  C9. Sanitization of partial events is idempotent: whenever the function accepts an
  event and returns \<open>event'\<close>, it accepts \<open>event'\<close> and returns it unchanged.
\<close>

theorem sanitize_idempotent:
  assumes "scores_keys_distinct event"
    and "validateAndSanitizeExperimentLogPartialArgs event = Inr event'"
  shows "validateAndSanitizeExperimentLogPartialArgs event' = Inr event'"
proof -
  from assms(2) obtain event1 where
    s1: "sanitize_scores event = Inr event1" and
    m1: "check_metrics event1 = Inr ()" and
    t1: "check_tags event1 = Inr ()" and
    e': "event' = rename_inputs event1"
    unfolding validateAndSanitizeExperimentLogPartialArgs_def
    by (auto split: sum.splits)
  have a: "sanitize_scores event' = Inr event'"
    unfolding e' by (simp add: sanitize_scores_rename sanitize_scores_fixpoint[OF assms(1) s1])
  have b: "check_metrics event' = Inr ()"
    using m1 unfolding e' by (auto simp: check_metrics_def rename_inputs_def split: if_splits)
  have c: "check_input_alias event' = Inr ()"
    unfolding e' by (simp add: check_input_alias_def rename_inputs_def)
  have d: "check_tags event' = Inr ()"
    using t1 unfolding e' by (auto simp: check_tags_def rename_inputs_def split: if_splits)
  have e: "rename_inputs event' = event'"
    unfolding e' by (simp add: rename_inputs_def)
  show ?thesis
    unfolding validateAndSanitizeExperimentLogPartialArgs_def
    by (simp add: a b c d e)
qed

theorem sanitize_idempotent_witness:
  "scores_keys_distinct
     (scored_event [(''a'', JBool True), (''b'', JBool False), (''c'', JNum (1/2))]) \<and>
   validateAndSanitizeExperimentLogPartialArgs
     (scored_event [(''a'', JBool True), (''b'', JBool False), (''c'', JNum (1/2))]) =
     Inr (scored_event [(''a'', JNum 1), (''b'', JNum 0), (''c'', JNum (1/2))]) \<and>
   validateAndSanitizeExperimentLogPartialArgs
     (scored_event [(''a'', JNum 1), (''b'', JNum 0), (''c'', JNum (1/2))]) =
     Inr (scored_event [(''a'', JNum 1), (''b'', JNum 0), (''c'', JNum (1/2))])"
proof -
  have d: "scores_keys_distinct
     (scored_event [(''a'', JBool True), (''b'', JBool False), (''c'', JNum (1/2))])"
    by (simp add: scores_keys_distinct_def scored_event_def)
  from sanitize_idempotent[OF d sanitize_eval] d sanitize_eval show ?thesis by blast
qed

section \<open>Properties of the queue bound\<close>

lemma reported_drops_append [simp]:
  "reported_drops (es @ fs) = reported_drops es + reported_drops fs"
  by (induction es rule: reported_drops.induct) auto

lemma register_fields [simp]:
  "items (registerDroppedItemCount t d bg) = items bg"
  "flushing (registerDroppedItemCount t d bg) = flushing bg"
  "syncFlush (registerDroppedItemCount t d bg) = syncFlush bg"
  "activeFlushResolved (registerDroppedItemCount t d bg) = activeFlushResolved bg"
  "queueDropExceedingMaxsize (registerDroppedItemCount t d bg) = queueDropExceedingMaxsize bg"
  "allPublishPayloadsDir (registerDroppedItemCount t d bg) = allPublishPayloadsDir bg"
  "failedPublishPayloadsDir (registerDroppedItemCount t d bg) = failedPublishPayloadsDir bg"
  by (simp_all add: registerDroppedItemCount_def emit_def Let_def)

lemma register_accounted:
  "accounted_drops (registerDroppedItemCount t d bg) = accounted_drops bg + max d 0"
  by (simp add: registerDroppedItemCount_def emit_def Let_def accounted_drops_def)

lemma trigger_fields [simp]:
  "syncFlush (triggerActiveFlush bg) = syncFlush bg"
  "queueDropExceedingMaxsize (triggerActiveFlush bg) = queueDropExceedingMaxsize bg"
  "numDropped (triggerActiveFlush bg) = numDropped bg"
  "effects (triggerActiveFlush bg) = effects bg"
  "lastLoggedTimestamp (triggerActiveFlush bg) = lastLoggedTimestamp bg"
  "queueDropLoggingPeriod (triggerActiveFlush bg) = queueDropLoggingPeriod bg"
  "allPublishPayloadsDir (triggerActiveFlush bg) = allPublishPayloadsDir bg"
  "failedPublishPayloadsDir (triggerActiveFlush bg) = failedPublishPayloadsDir bg"
  "activeFlushResolved (triggerActiveFlush bg) = False"
  by (simp_all add: triggerActiveFlush_def drain_queue_def)

lemma bg_log_items:
  "items (bg_log t batch bg) =
     (if syncFlush bg \<or> \<not> activeFlushResolved bg then items bg @ fst (log_split bg batch) else [])"
  by (simp add: bg_log_def Let_def triggerActiveFlush_def drain_queue_def emit_def split: prod.splits)

lemma bg_log_flushing:
  "flushing (bg_log t batch bg) =
     (if syncFlush bg \<or> \<not> activeFlushResolved bg then flushing bg
      else items bg @ fst (log_split bg batch))"
  by (simp add: bg_log_def Let_def triggerActiveFlush_def drain_queue_def emit_def split: prod.splits)

lemma accounted_frame [simp]:
  "accounted_drops (emit [DumpDroppedEvents xs] bg) = accounted_drops bg"
  "accounted_drops (triggerActiveFlush bg) = accounted_drops bg"
  "accounted_drops (bg\<lparr>items := ys\<rparr>) = accounted_drops bg"
  by (simp_all add: accounted_drops_def emit_def)

lemma bg_log_accounted:
  "accounted_drops (bg_log t batch bg) = accounted_drops bg + int (length (snd (log_split bg batch)))"
  by (simp add: bg_log_def Let_def register_accounted split: prod.splits)

lemma bg_log_numDropped:
  "numDropped (bg_log t batch bg) =
     (let d = int (length (snd (log_split bg batch)))
      in if d > 0 \<and> t - lastLoggedTimestamp bg > queueDropLoggingPeriod bg then 0
         else numDropped bg + d)"
  by (simp add: bg_log_def Let_def emit_def registerDroppedItemCount_def split: prod.splits)


lemma bg_log_config [simp]:
  "syncFlush (bg_log t batch bg) = syncFlush bg"
  "queueDropExceedingMaxsize (bg_log t batch bg) = queueDropExceedingMaxsize bg"
  by (simp_all add: bg_log_def Let_def emit_def split: prod.splits)

lemma bg_log_resolved:
  "activeFlushResolved (bg_log t batch bg) = (syncFlush bg \<and> activeFlushResolved bg)"
  by (auto simp: bg_log_def Let_def emit_def triggerActiveFlush_def drain_queue_def split: prod.splits)

lemma log_split_single:
  "queueDropExceedingMaxsize bg = Some m \<Longrightarrow>
   log_split bg [x] = (if int (length (items bg)) < m then ([x], []) else ([], [x]))"
  by (auto simp: log_split_def Let_def min_def max_def)

lemma log_each_bounded:
  assumes "syncFlush bg \<or> \<not> activeFlushResolved bg"
    and "queueDropExceedingMaxsize bg = Some m"
    and "int (length (items bg)) \<le> m"
  shows "items (log_each calls bg) = items bg @ take (nat m - length (items bg)) (map snd calls) \<and>
         flushing (log_each calls bg) = flushing bg \<and>
         accounted_drops (log_each calls bg) =
           accounted_drops bg + int (length calls - (nat m - length (items bg)))"
  using assms
proof (induction calls arbitrary: bg)
  case Nil
  then show ?case by (simp add: log_each_def)
next
  case (Cons c calls)
  obtain t x where c: "c = (t, x)" by (cases c)
  let ?bg1 = "bg_log t [x] bg"
  have step: "log_each (c # calls) bg = log_each calls ?bg1"
    by (simp add: log_each_def c)
  have p1: "syncFlush ?bg1 \<or> \<not> activeFlushResolved ?bg1"
    using Cons.prems(1) by (auto simp: bg_log_resolved)
  have p2: "queueDropExceedingMaxsize ?bg1 = Some m" using Cons.prems(2) by simp
  show ?case
  proof (cases "int (length (items bg)) < m")
    case True
    have i1: "items ?bg1 = items bg @ [x]"
      using Cons.prems True by (simp add: bg_log_items log_split_single)
    have f1: "flushing ?bg1 = flushing bg"
      using Cons.prems by (simp add: bg_log_flushing)
    have a1: "accounted_drops ?bg1 = accounted_drops bg"
      using Cons.prems True by (simp add: bg_log_accounted log_split_single)
    have p3: "int (length (items ?bg1)) \<le> m" using True i1 by simp
    have n: "nat m - length (items bg) = Suc (nat m - length (items ?bg1))"
      using True i1 by simp
    from Cons.IH[OF p1 p2 p3] show ?thesis
      unfolding step using i1 f1 a1 n c by simp
  next
    case False
    have i1: "items ?bg1 = items bg"
      using Cons.prems False by (simp add: bg_log_items log_split_single)
    have f1: "flushing ?bg1 = flushing bg"
      using Cons.prems by (simp add: bg_log_flushing)
    have a1: "accounted_drops ?bg1 = accounted_drops bg + 1"
      using Cons.prems False by (simp add: bg_log_accounted log_split_single)
    have p3: "int (length (items ?bg1)) \<le> m" using Cons.prems(3) i1 by simp
    have n: "nat m - length (items bg) = 0" using False by simp
    from Cons.IH[OF p1 p2 p3] show ?thesis
      unfolding step using i1 f1 a1 n by simp
  qed
qed

lemma sync_250:
  assumes "length calls = 250"
  shows "items (log_each calls sync_logger_100) = map snd (take 100 calls) \<and>
         accounted_drops (log_each calls sync_logger_100) = 150"
proof -
  have a: "syncFlush (sync_logger_100 :: 'a bg_logger) \<or> \<not> activeFlushResolved (sync_logger_100 :: 'a bg_logger)"
    by (simp add: sync_logger_100_def BackgroundLogger_def no_env_options_def)
  have b: "queueDropExceedingMaxsize (sync_logger_100 :: 'a bg_logger) = Some 100"
    by (simp add: sync_logger_100_def BackgroundLogger_def no_env_options_def)
  have c: "int (length (items (sync_logger_100 :: 'a bg_logger))) \<le> 100"
    by (simp add: sync_logger_100_def BackgroundLogger_def no_env_options_def)
  have i: "items (sync_logger_100 :: 'a bg_logger) = []"
    by (simp add: sync_logger_100_def BackgroundLogger_def no_env_options_def)
  have d: "accounted_drops (sync_logger_100 :: 'a bg_logger) = 0"
    by (simp add: sync_logger_100_def BackgroundLogger_def no_env_options_def accounted_drops_def)
  from log_each_bounded[OF a b c, of calls] show ?thesis
    using assms i d by (simp add: take_map)
qed

text \<open>
  C1, as amended. For every call of \<^verbatim>\<open>log\<close> on a logger with a configured maximum queue
  size \<open>m\<close>: exactly the first \<open>n = min (max (m - queue length) 0) (batch length)\<close> items
  of the batch are appended to the queue and the rest of the batch is dropped; nothing
  already queued is dropped (in asynchronous mode, where no flush is running, the call
  starts one, which takes the whole queue to be flushed); the number of dropped items is
  added to the dropped-item counter, and when more than the logging period has gone by
  since the last warning the counter is reported in a warning and set back to zero, so
  that what the warnings reported plus the counter grows by exactly the number of dropped
  items. In particular, logging 250 records one by one to a fresh logger in
  synchronous-flush mode with maximum queue size 100 leaves the first 100 in the queue
  and accounts for exactly 150 dropped ones.
\<close>

theorem log_queue_bound:
  "(queueDropExceedingMaxsize bg = Some m \<longrightarrow>
      (let n = nat (min (max (m - int (length (items bg))) 0) (int (length batch)));
           bg' = bg_log t batch bg
       in log_split bg batch = (take n batch, drop n batch) \<and>
          (if syncFlush bg \<or> \<not> activeFlushResolved bg
           then items bg' = items bg @ take n batch \<and> flushing bg' = flushing bg
           else items bg' = [] \<and> flushing bg' = items bg @ take n batch) \<and>
          numDropped bg' =
            (if drop n batch \<noteq> [] \<and> t - lastLoggedTimestamp bg > queueDropLoggingPeriod bg
             then 0 else numDropped bg + int (length (drop n batch))) \<and>
          accounted_drops bg' = accounted_drops bg + int (length (drop n batch)))) \<and>
   (length calls = 250 \<longrightarrow>
      items (log_each calls sync_logger_100) = map snd (take 100 calls) \<and>
      accounted_drops (log_each calls sync_logger_100) = 150)"
proof (intro conjI impI)
  assume m: "queueDropExceedingMaxsize bg = Some m"
  define n where "n = nat (min (max (m - int (length (items bg))) 0) (int (length batch)))"
  have sp: "log_split bg batch = (take n batch, drop n batch)"
    using m by (simp add: log_split_def Let_def n_def)
  have "log_split bg batch = (take n batch, drop n batch) \<and>
        (if syncFlush bg \<or> \<not> activeFlushResolved bg
         then items (bg_log t batch bg) = items bg @ take n batch \<and>
              flushing (bg_log t batch bg) = flushing bg
         else items (bg_log t batch bg) = [] \<and>
              flushing (bg_log t batch bg) = items bg @ take n batch) \<and>
        numDropped (bg_log t batch bg) =
          (if drop n batch \<noteq> [] \<and> t - lastLoggedTimestamp bg > queueDropLoggingPeriod bg
           then 0 else numDropped bg + int (length (drop n batch))) \<and>
        accounted_drops (bg_log t batch bg) = accounted_drops bg + int (length (drop n batch))"
    using sp by (simp add: bg_log_items bg_log_flushing bg_log_numDropped bg_log_accounted Let_def)
  then show "let n = nat (min (max (m - int (length (items bg))) 0) (int (length batch)));
           bg' = bg_log t batch bg
       in log_split bg batch = (take n batch, drop n batch) \<and>
          (if syncFlush bg \<or> \<not> activeFlushResolved bg
           then items bg' = items bg @ take n batch \<and> flushing bg' = flushing bg
           else items bg' = [] \<and> flushing bg' = items bg @ take n batch) \<and>
          numDropped bg' =
            (if drop n batch \<noteq> [] \<and> t - lastLoggedTimestamp bg > queueDropLoggingPeriod bg
             then 0 else numDropped bg + int (length (drop n batch))) \<and>
          accounted_drops bg' = accounted_drops bg + int (length (drop n batch))"
    unfolding Let_def n_def .
next
  assume "length calls = 250"
  then show "items (log_each calls sync_logger_100) = map snd (take 100 calls)"
    and "accounted_drops (log_each calls sync_logger_100) = 150"
    using sync_250 by auto
qed


theorem log_queue_bound_witness:
  "queueDropExceedingMaxsize
     ((sync_logger_100 :: nat bg_logger)\<lparr>items := [7, 8], queueDropExceedingMaxsize := Some 3\<rparr>) = Some 3 \<and>
   log_split ((sync_logger_100 :: nat bg_logger)\<lparr>items := [7, 8], queueDropExceedingMaxsize := Some 3\<rparr>)
     [1, 2, 3] = ([1], [2, 3]) \<and>
   items (bg_log 1000
     [1, 2, 3] ((sync_logger_100 :: nat bg_logger)\<lparr>items := [7, 8], queueDropExceedingMaxsize := Some 3\<rparr>)) =
     [7, 8, 1] \<and>
   numDropped (bg_log 1000
     [1, 2, 3] ((sync_logger_100 :: nat bg_logger)\<lparr>items := [7, 8], queueDropExceedingMaxsize := Some 3\<rparr>)) = 0 \<and>
   accounted_drops (bg_log 1000
     [1, 2, 3] ((sync_logger_100 :: nat bg_logger)\<lparr>items := [7, 8], queueDropExceedingMaxsize := Some 3\<rparr>)) = 2 \<and>
   length (map (\<lambda>i. (1000 :: rat, i)) [0..<250]) = 250 \<and>
   items (log_each (map (\<lambda>i. (1000, i)) [0..<250]) sync_logger_100) = [0..<100] \<and>
   accounted_drops (log_each (map (\<lambda>i. (1000, i)) [0..<250]) (sync_logger_100 :: nat bg_logger)) = 150"
proof -
  let ?bg = "(sync_logger_100 :: nat bg_logger)\<lparr>items := [7, 8], queueDropExceedingMaxsize := Some 3\<rparr>"
  let ?calls = "map (\<lambda>i. (1000 :: rat, i)) [0..<250]"
  have h1: "queueDropExceedingMaxsize ?bg = Some 3" by simp
  have h2: "length ?calls = 250" by simp
  have s: "syncFlush ?bg" "lastLoggedTimestamp ?bg = 0" "queueDropLoggingPeriod ?bg = 60"
    "numDropped ?bg = 0" "accounted_drops ?bg = 0"
    by (simp_all add: sync_logger_100_def BackgroundLogger_def no_env_options_def accounted_drops_def)
  have t: "map snd (take 100 ?calls) = [0..<100]"
    by (simp add: take_map comp_def)
  from log_queue_bound[of ?bg 3 "[1, 2, 3]" 1000 ?calls] h1 h2 s t
  show ?thesis by (simp add: Let_def)
qed

lemma async_250:
  assumes "length calls = 250"
  shows "flushing (log_each calls async_logger_100) = map snd (take 1 calls) \<and>
         items (log_each calls async_logger_100) = map snd (take 100 (drop 1 calls)) \<and>
         accounted_drops (log_each calls async_logger_100) = 149"
proof -
  obtain t x rest where c: "calls = (t, x) # rest" and r: "length rest = 249"
    using assms by (cases calls) auto
  let ?bg1 = "bg_log t [x] (async_logger_100 :: 'a bg_logger)"
  have f: "syncFlush (async_logger_100 :: 'a bg_logger) = False"
    "activeFlushResolved (async_logger_100 :: 'a bg_logger) = True"
    "queueDropExceedingMaxsize (async_logger_100 :: 'a bg_logger) = Some 100"
    "items (async_logger_100 :: 'a bg_logger) = []"
    "accounted_drops (async_logger_100 :: 'a bg_logger) = 0"
    by (simp_all add: async_logger_100_def BackgroundLogger_def no_env_options_def accounted_drops_def)
  have a: "syncFlush ?bg1 \<or> \<not> activeFlushResolved ?bg1" by (simp add: bg_log_resolved f)
  have b: "queueDropExceedingMaxsize ?bg1 = Some 100" by (simp add: f)
  have i: "items ?bg1 = []" by (simp add: bg_log_items f)
  have fl: "flushing ?bg1 = [x]" by (simp add: bg_log_flushing f log_split_single)
  have ac: "accounted_drops ?bg1 = 0" by (simp add: bg_log_accounted f log_split_single)
  have c3: "int (length (items ?bg1)) \<le> 100" using i by simp
  have step: "log_each calls async_logger_100 = log_each rest ?bg1"
    by (simp add: log_each_def c)
  from log_each_bounded[OF a b c3, of rest] show ?thesis
    unfolding step using i fl ac r c by (simp add: take_map)
qed

text \<open>
  The claim C1 as it was stated fails twice. On a logger in synchronous-flush mode with
  maximum queue size 1 that holds one record, a call at time 1000 with one more record
  drops that record, and the counter is 0 before the call and 0 after it (the drop is
  reported at once and the counter reset). And on a fresh logger in the default mode
  with maximum queue size 100, logging 250 records one by one accepts 101 of them (the
  first call starts a flush that takes its record out of the queue) and accounts for
  149 dropped ones.
\<close>

theorem log_counter_counterexample:
  "snd (log_split (bg_log 1000 [CHR ''a''] sync_logger_1) [CHR ''b'']) = [CHR ''b''] \<and>
   numDropped (bg_log 1000 [CHR ''a''] sync_logger_1) = 0 \<and>
   numDropped (bg_log 1000 [CHR ''b''] (bg_log 1000 [CHR ''a''] sync_logger_1)) = 0 \<and>
   length (map (\<lambda>i. (1000 :: rat, i)) [0..<250]) = 250 \<and>
   length (flushing (log_each (map (\<lambda>i. (1000, i)) [0..<250]) (async_logger_100 :: nat bg_logger))) +
   length (items (log_each (map (\<lambda>i. (1000, i)) [0..<250]) (async_logger_100 :: nat bg_logger))) = 101 \<and>
   accounted_drops (log_each (map (\<lambda>i. (1000, i)) [0..<250]) (async_logger_100 :: nat bg_logger)) = 149"
proof -
  let ?calls = "map (\<lambda>i. (1000 :: rat, i)) [0..<250]"
  have h: "length ?calls = 250" by simp
  have s: "syncFlush (sync_logger_1 :: char bg_logger)"
    "queueDropExceedingMaxsize (sync_logger_1 :: char bg_logger) = Some 1"
    "items (sync_logger_1 :: char bg_logger) = []"
    "numDropped (sync_logger_1 :: char bg_logger) = 0"
    "lastLoggedTimestamp (sync_logger_1 :: char bg_logger) = 0"
    "queueDropLoggingPeriod (sync_logger_1 :: char bg_logger) = 60"
    by (simp_all add: sync_logger_1_def BackgroundLogger_def no_env_options_def)
  have a: "snd (log_split (bg_log 1000 [CHR ''a''] sync_logger_1) [CHR ''b'']) = [CHR ''b'']"
    by (simp add: log_split_single bg_log_items s)
  have b: "numDropped (bg_log 1000 [CHR ''a''] sync_logger_1) = 0"
    by (simp add: bg_log_numDropped log_split_single s)
  have bg1: "bg_log 1000 [CHR ''a''] sync_logger_1 = sync_logger_1\<lparr>items := [CHR ''a'']\<rparr>"
    by (simp add: bg_log_def log_split_single s)
  have c: "numDropped (bg_log 1000 [CHR ''b''] (bg_log 1000 [CHR ''a''] sync_logger_1)) = 0"
    unfolding bg1 by (simp add: bg_log_numDropped log_split_single s)
  from async_250[OF h] a b c show ?thesis by simp
qed

section \<open>Properties of the flush pipeline\<close>

lemma sleeps_append [simp]: "sleeps (es @ fs) = sleeps es @ sleeps fs"
  by (induction es rule: sleeps.induct) auto

lemma posts_append [simp]: "posts (es @ fs) = posts es @ posts fs"
  by (induction es rule: posts.induct) auto

lemma payload_writes_append [simp]: "payload_writes (es @ fs) = payload_writes es @ payload_writes fs"
  by (induction es rule: payload_writes.induct) auto

lemma submit_loop_done:
  assumes "int i < numTries bg" and "attempt_error env rows i = None"
  shows "submit_loop env bg rows (constructLogs3Data env rows) i =
           (Inr (), map (\<lambda>(p, b). Post p b) (attempt_posts env rows i))"
  using assms
  by (subst submit_loop.simps)
     (auto simp: attempt_error_def attempt_posts_def legacy_body_def Let_def split: option.splits)

lemma submit_loop_retry:
  assumes "int (i + 1) < numTries bg" and "attempt_error env rows i = Some err"
  shows "submit_loop env bg rows (constructLogs3Data env rows) i =
           (fst (submit_loop env bg rows (constructLogs3Data env rows) (i + 1)),
            map (\<lambda>(p, b). Post p b) (attempt_posts env rows i) @
            [Warn (LogRequestFailedWarning True), Sleep 100] @
            snd (submit_loop env bg rows (constructLogs3Data env rows) (i + 1)))"
  using assms
  by (subst submit_loop.simps)
     (auto simp: attempt_error_def attempt_posts_def legacy_body_def Let_def
           split: option.splits prod.splits)

lemma submit_loop_last_async:
  assumes "int i < numTries bg" and "\<not> int (i + 1) < numTries bg" and "\<not> syncFlush bg"
    and "attempt_error env rows i = Some err"
  shows "submit_loop env bg rows (constructLogs3Data env rows) i =
           (Inr (),
            map (\<lambda>(p, b). Post p b) (attempt_posts env rows i) @
            (if dir_set (failedPublishPayloadsDir bg)
             then [WritePayload (the (failedPublishPayloadsDir bg)) (constructLogs3Data env rows),
                   Warn (LoggingFailedPayloadsTo (failedPublishPayloadsDir bg))]
             else []) @
            [Warn (LogRequestFailedWarning False), Warn (LogRequestGaveUp (numTries bg))])"
proof -
  have nxt: "submit_loop env bg rows (constructLogs3Data env rows) (i + 1) =
               (Inr (), [Warn (LogRequestGaveUp (numTries bg))])"
    using assms(2) by (subst submit_loop.simps) simp
  show ?thesis using assms nxt
    by (subst submit_loop.simps)
       (auto simp: attempt_error_def attempt_posts_def legacy_body_def Let_def
             split: option.splits prod.splits)
qed

lemma submit_loop_last_sync:
  assumes "int i < numTries bg" and "\<not> int (i + 1) < numTries bg" and "syncFlush bg"
    and "attempt_error env rows i = Some err"
  shows "submit_loop env bg rows (constructLogs3Data env rows) i =
           (Inl (LogRequestFailed err),
            map (\<lambda>(p, b). Post p b) (attempt_posts env rows i) @
            (if dir_set (failedPublishPayloadsDir bg)
             then [WritePayload (the (failedPublishPayloadsDir bg)) (constructLogs3Data env rows),
                   Warn (LoggingFailedPayloadsTo (failedPublishPayloadsDir bg))]
             else []))"
  using assms
  by (subst submit_loop.simps)
     (auto simp: attempt_error_def attempt_posts_def legacy_body_def Let_def
           split: option.splits prod.splits)

lemma posts_of_attempt [simp]:
  "posts (map (\<lambda>(p, b). Post p b) ps) = ps"
  "sleeps (map (\<lambda>(p, b). Post p b) ps) = []"
  "payload_writes (map (\<lambda>(p, b). Post p b) ps) = []"
  by (induction ps) auto

lemma upt_head: "i < k \<Longrightarrow> [i..<k] = i # [Suc i..<k]"
  by (rule upt_conv_Cons)

lemma submit_loop_success:
  assumes "k < nat (numTries bg)" and "i \<le> k"
    and "\<forall>j. i \<le> j \<and> j < k \<longrightarrow> attempt_error env rows j \<noteq> None"
    and "attempt_error env rows k = None"
  shows "fst (submit_loop env bg rows (constructLogs3Data env rows) i) = Inr () \<and>
         posts (snd (submit_loop env bg rows (constructLogs3Data env rows) i)) =
           concat (map (attempt_posts env rows) [i..<Suc k]) \<and>
         sleeps (snd (submit_loop env bg rows (constructLogs3Data env rows) i)) =
           replicate (k - i) 100 \<and>
         payload_writes (snd (submit_loop env bg rows (constructLogs3Data env rows) i)) = []"
  using assms(2,3)
proof (induction "k - i" arbitrary: i)
  case 0
  then have i: "i = k" by simp
  have here: "int k < numTries bg" using assms(1) by simp
  show ?case unfolding i submit_loop_done[OF here assms(4)] by simp
next
  case (Suc d)
  then have lt: "i < k" by simp
  then obtain err where e: "attempt_error env rows i = Some err" using Suc.prems by auto
  have retry: "int (i + 1) < numTries bg" using assms(1) lt by simp
  have d: "d = k - Suc i" using Suc.hyps(2) by simp
  have le: "Suc i \<le> k" using lt by simp
  have rest: "\<forall>j. Suc i \<le> j \<and> j < k \<longrightarrow> attempt_error env rows j \<noteq> None"
    using Suc.prems by simp
  have up: "[i..<Suc k] = i # [Suc i..<Suc k]" using lt by (simp add: upt_head del: upt_Suc)
  have sub: "k - i = Suc (k - Suc i)" using lt by simp
  from Suc.hyps(1)[OF d le rest] show ?case
    unfolding submit_loop_retry[OF retry e] up sub by simp
qed

lemma submit_loop_all_fail:
  assumes "i < nat (numTries bg)"
    and "\<forall>j. i \<le> j \<and> j < nat (numTries bg) \<longrightarrow> attempt_error env rows j \<noteq> None"
  shows "fst (submit_loop env bg rows (constructLogs3Data env rows) i) =
           (if syncFlush bg
            then Inl (LogRequestFailed (the (attempt_error env rows (nat (numTries bg) - 1))))
            else Inr ()) \<and>
         posts (snd (submit_loop env bg rows (constructLogs3Data env rows) i)) =
           concat (map (attempt_posts env rows) [i..<nat (numTries bg)]) \<and>
         sleeps (snd (submit_loop env bg rows (constructLogs3Data env rows) i)) =
           replicate (nat (numTries bg) - 1 - i) 100 \<and>
         payload_writes (snd (submit_loop env bg rows (constructLogs3Data env rows) i)) =
           (if dir_set (failedPublishPayloadsDir bg)
            then [(the (failedPublishPayloadsDir bg), constructLogs3Data env rows)] else [])"
  using assms
proof (induction "nat (numTries bg) - 1 - i" arbitrary: i)
  case 0
  then have i: "i = nat (numTries bg) - 1" by simp
  obtain err where e: "attempt_error env rows i = Some err" using 0 by auto
  have here: "int i < numTries bg" using 0 by simp
  have last: "\<not> int (i + 1) < numTries bg" using i 0 by simp
  have up: "[i..<nat (numTries bg)] = [i]"
    using 0 i by (simp add: upt_head del: upt_Suc)
  show ?case
  proof (cases "syncFlush bg")
    case True
    show ?thesis
      unfolding submit_loop_last_sync[OF here last True e] up using True e i by simp
  next
    case False
    show ?thesis
      unfolding submit_loop_last_async[OF here last False e] up using False e i by simp
  qed
next
  case (Suc d)
  then have lt: "Suc i < nat (numTries bg)" by simp
  obtain err where e: "attempt_error env rows i = Some err" using Suc.prems by auto
  have retry: "int (i + 1) < numTries bg" using lt by simp
  have d: "d = nat (numTries bg) - 1 - Suc i" using Suc.hyps(2) by simp
  have rest: "\<forall>j. Suc i \<le> j \<and> j < nat (numTries bg) \<longrightarrow> attempt_error env rows j \<noteq> None"
    using Suc.prems by simp
  have up: "[i..<nat (numTries bg)] = i # [Suc i..<nat (numTries bg)]"
    using lt by (simp add: upt_head del: upt_Suc)
  have sub: "nat (numTries bg) - 1 - i = Suc (nat (numTries bg) - 1 - Suc i)" using lt by simp
  from Suc.hyps(1)[OF d lt rest] show ?case
    unfolding submit_loop_retry[OF retry e] up sub by simp
qed

lemma attempts_append [simp]: "attempts (es @ fs) = attempts es + attempts fs"
  by (simp add: attempts_def)

lemma submit_loop_bound:
  "attempts (snd (submit_loop env bg rows dataStr i)) \<le> nat (numTries bg) - i"
proof (induction "nat (numTries bg) - i" arbitrary: i)
  case 0
  then have "\<not> int i < numTries bg" by simp
  then show ?case by (subst submit_loop.simps) (simp add: attempts_def)
next
  case (Suc d)
  then have here: "int i < numTries bg" by simp
  have d: "d = nat (numTries bg) - (i + 1)" using Suc.hyps(2) by simp
  have ih: "attempts (snd (submit_loop env bg rows dataStr (i + 1))) \<le> nat (numTries bg) - (i + 1)"
    by (rule Suc.hyps(1)[OF d])
  have sub: "nat (numTries bg) - i = Suc (nat (numTries bg) - (i + 1))" using Suc.hyps(2) by simp
  show ?case
    unfolding sub using here ih
    by (subst submit_loop.simps)
       (auto simp: Let_def attempts_def split: option.splits prod.splits)
qed

lemma first_rejection_none:
  "first_rejection f settles xs = None \<longleftrightarrow> (\<forall>x \<in> set xs. \<not> isl (f x))"
  by (induction xs) (auto split: sum.splits option.splits)

lemma first_rejection_some:
  "first_rejection f settles xs = Some (t, e) \<Longrightarrow>
   \<exists>x \<in> set xs. f x = Inl e \<and> settles x = t \<and> (\<forall>y \<in> set xs. isl (f y) \<longrightarrow> t \<le> settles y)"
proof (induction xs arbitrary: t e)
  case Nil
  then show ?case by simp
next
  case (Cons x xs)
  show ?case
  proof (cases "f x")
    case (Inr v)
    then have "first_rejection f settles xs = Some (t, e)" using Cons.prems by simp
    from Cons.IH[OF this] show ?thesis using Inr by auto
  next
    case (Inl e0)
    show ?thesis
    proof (cases "first_rejection f settles xs")
      case None
      then have "\<forall>y \<in> set xs. \<not> isl (f y)" by (simp add: first_rejection_none)
      then show ?thesis using Cons.prems Inl None by auto
    next
      case (Some p)
      obtain t1 e1 where p: "p = (t1, e1)" by (cases p)
      from Cons.IH[OF Some[unfolded p]] obtain z where
        z: "z \<in> set xs" "f z = Inl e1" "settles z = t1"
        "\<forall>y \<in> set xs. isl (f y) \<longrightarrow> t1 \<le> settles y" by blast
      show ?thesis
      proof (cases "settles x \<le> t1")
        case True
        then have "t = settles x" "e = e0" using Cons.prems Inl Some p by simp_all
        then show ?thesis using Inl z True by auto
      next
        case False
        then have "t = t1" "e = e1" using Cons.prems Inl Some p by simp_all
        then show ?thesis using Inl z False by auto
      qed
    qed
  qed
qed

lemma promise_all_isl:
  "isl (promise_all f settles xs) \<longleftrightarrow> (\<exists>x \<in> set xs. isl (f x))"
proof (cases "first_rejection f settles xs")
  case None
  then show ?thesis using first_rejection_none[of f settles xs] by (simp add: promise_all_def)
next
  case (Some p)
  then have "first_rejection f settles xs \<noteq> None" by simp
  then have "\<exists>x \<in> set xs. isl (f x)" using first_rejection_none[of f settles xs] by auto
  then show ?thesis using Some by (simp add: promise_all_def split: prod.splits)
qed

lemma promise_all_rejection:
  assumes "promise_all f settles xs = Inl e"
  shows "\<exists>x \<in> set xs. f x = Inl e \<and> (\<forall>y \<in> set xs. isl (f y) \<longrightarrow> settles x \<le> settles y)"
proof -
  from assms obtain t where "first_rejection f settles xs = Some (t, e)"
    by (auto simp: promise_all_def split: option.splits prod.splits)
  from first_rejection_some[OF this] show ?thesis by blast
qed

lemma values_of_resolved:
  "\<forall>x \<in> set xs. \<not> isl (f x) \<Longrightarrow>
   concat (map (\<lambda>x. case f x of Inr v \<Rightarrow> [v] | Inl e \<Rightarrow> []) xs) = map (\<lambda>x. projr (f x)) xs"
  by (induction xs) (auto split: sum.splits)

lemma promise_all_values:
  assumes "\<forall>x \<in> set xs. \<not> isl (f x)"
  shows "promise_all f settles xs = Inr (map (\<lambda>x. projr (f x)) xs)"
  using assms first_rejection_none[of f settles xs]
  by (simp add: promise_all_def values_of_resolved)

lemma resolve_try_resolved:
  assumes "\<forall>x \<in> set ws. \<not> isl (lazy_get env i x)"
  shows "resolve_try env i ws = mergeRowBatch env (map (\<lambda>x. projr (lazy_get env i x)) ws)"
  by (simp add: resolve_try_def promise_all_values[OF assms])

lemma resolve_try_rejected:
  assumes "\<exists>x \<in> set ws. isl (lazy_get env i x)"
  shows "resolve_try env i ws = Inl (projl (promise_all (lazy_get env i) (lazy_settles env i) ws))"
proof -
  have "isl (promise_all (lazy_get env i) (lazy_settles env i) ws)"
    using assms by (simp add: promise_all_isl)
  then show ?thesis
    by (cases "promise_all (lazy_get env i) (lazy_settles env i) ws") (simp_all add: resolve_try_def)
qed

lemma unwrap_loop_fail_retry:
  assumes "int (i + 1) < numTries bg" and "resolve_try env i ws = Inl e"
  shows "unwrap_loop env bg ws i =
           (fst (unwrap_loop env bg ws (i + 1)),
            [Warn (ConstructingRecordsFailed True), Warn (WarnError e), Sleep 100] @
            snd (unwrap_loop env bg ws (i + 1)))"
  using assms by (subst unwrap_loop.simps) (simp add: Let_def split: prod.splits)

lemma unwrap_loop_fail_last_async:
  assumes "int i < numTries bg" and "\<not> int (i + 1) < numTries bg" and "\<not> syncFlush bg"
    and "resolve_try env i ws = Inl e"
  shows "unwrap_loop env bg ws i =
           (Inr [],
            [Warn (ConstructingRecordsFailed False), Warn (WarnError e), Sleep 100,
             Warn (ConstructingRecordsGaveUp (numTries bg))])"
proof -
  have nxt: "unwrap_loop env bg ws (i + 1) = (Inr [], [Warn (ConstructingRecordsGaveUp (numTries bg))])"
    using assms(2) by (subst unwrap_loop.simps) simp
  show ?thesis using assms nxt by (subst unwrap_loop.simps) (simp add: Let_def)
qed

lemma unwrap_loop_fail_last_sync:
  assumes "int i < numTries bg" and "\<not> int (i + 1) < numTries bg" and "syncFlush bg"
    and "resolve_try env i ws = Inl e"
  shows "unwrap_loop env bg ws i = (Inl e, [Warn (ConstructingRecordsFailed False)])"
  using assms by (subst unwrap_loop.simps) (simp add: Let_def)

lemma unwrap_loop_ok:
  assumes "int i < numTries bg" and "resolve_try env i ws = Inr merged"
  shows "unwrap_loop env bg ws i = (Inr merged, [])"
  using assms by (subst unwrap_loop.simps) simp

lemma unwrap_loop_success:
  assumes "k < nat (numTries bg)" and "i \<le> k"
    and "\<forall>j. i \<le> j \<and> j < k \<longrightarrow> isl (resolve_try env j ws)"
    and "resolve_try env k ws = Inr merged"
  shows "fst (unwrap_loop env bg ws i) = Inr merged \<and>
         sleeps (snd (unwrap_loop env bg ws i)) = replicate (k - i) 100 \<and>
         posts (snd (unwrap_loop env bg ws i)) = []"
  using assms(2,3)
proof (induction "k - i" arbitrary: i)
  case 0
  then have i: "i = k" by simp
  have here: "int k < numTries bg" using assms(1) by simp
  show ?case unfolding i unwrap_loop_ok[OF here assms(4)] by simp
next
  case (Suc d)
  then have lt: "i < k" by simp
  then have "isl (resolve_try env i ws)" using Suc.prems by simp
  then obtain e where e: "resolve_try env i ws = Inl e"
    by (cases "resolve_try env i ws") auto
  have retry: "int (i + 1) < numTries bg" using assms(1) lt by simp
  have d: "d = k - Suc i" using Suc.hyps(2) by simp
  have le: "Suc i \<le> k" using lt by simp
  have rest: "\<forall>j. Suc i \<le> j \<and> j < k \<longrightarrow> isl (resolve_try env j ws)"
    using Suc.prems by simp
  have sub: "k - i = Suc (k - Suc i)" using lt by simp
  from Suc.hyps(1)[OF d le rest] show ?case
    unfolding unwrap_loop_fail_retry[OF retry e] sub by simp
qed

lemma unwrap_loop_all_fail:
  assumes "i < nat (numTries bg)"
    and "\<forall>j. i \<le> j \<and> j < nat (numTries bg) \<longrightarrow> isl (resolve_try env j ws)"
  shows "fst (unwrap_loop env bg ws i) =
           (if syncFlush bg
            then Inl (projl (resolve_try env (nat (numTries bg) - 1) ws))
            else Inr []) \<and>
         sleeps (snd (unwrap_loop env bg ws i)) =
           replicate (if syncFlush bg then nat (numTries bg) - 1 - i else nat (numTries bg) - i) 100 \<and>
         posts (snd (unwrap_loop env bg ws i)) = [] \<and>
         (\<not> syncFlush bg \<longrightarrow>
            last (snd (unwrap_loop env bg ws i)) = Warn (ConstructingRecordsGaveUp (numTries bg)))"
  using assms
proof (induction "nat (numTries bg) - 1 - i" arbitrary: i)
  case 0
  then have i: "i = nat (numTries bg) - 1" by simp
  have "isl (resolve_try env i ws)" using 0 by simp
  then obtain e where e: "resolve_try env i ws = Inl e"
    by (cases "resolve_try env i ws") auto
  have here: "int i < numTries bg" using 0 by simp
  have last: "\<not> int (i + 1) < numTries bg" using i 0 by simp
  have one: "nat (numTries bg) - i = Suc 0" using 0 i by simp
  show ?case
  proof (cases "syncFlush bg")
    case True
    show ?thesis
      unfolding unwrap_loop_fail_last_sync[OF here last True e] using True e i by simp
  next
    case False
    show ?thesis
      unfolding unwrap_loop_fail_last_async[OF here last False e] using False e one by simp
  qed
next
  case (Suc d)
  then have lt: "Suc i < nat (numTries bg)" by simp
  have "isl (resolve_try env i ws)" using Suc.prems by simp
  then obtain e where e: "resolve_try env i ws = Inl e"
    by (cases "resolve_try env i ws") auto
  have retry: "int (i + 1) < numTries bg" using lt by simp
  have d: "d = nat (numTries bg) - 1 - Suc i" using Suc.hyps(2) by simp
  have rest: "\<forall>j. Suc i \<le> j \<and> j < nat (numTries bg) \<longrightarrow> isl (resolve_try env j ws)"
    using Suc.prems by simp
  have sub: "nat (numTries bg) - 1 - i = Suc (nat (numTries bg) - 1 - Suc i)"
    "nat (numTries bg) - i = Suc (nat (numTries bg) - Suc i)" using lt by simp_all
  have ne: "snd (unwrap_loop env bg ws (Suc i)) \<noteq> []" if "\<not> syncFlush bg"
  proof
    assume "snd (unwrap_loop env bg ws (Suc i)) = []"
    then have "sleeps (snd (unwrap_loop env bg ws (Suc i))) = []" by simp
    moreover have "sleeps (snd (unwrap_loop env bg ws (Suc i))) =
        replicate (nat (numTries bg) - Suc i) 100"
      using Suc.hyps(1)[OF d lt rest] that by simp
    ultimately show False using lt by simp
  qed
  from Suc.hyps(1)[OF d lt rest] ne show ?case
    unfolding unwrap_loop_fail_retry[OF retry e] sub by simp
qed

lemma bg_log_posts [simp]: "posts (effects (bg_log t batch bg)) = posts (effects bg)"
  by (simp add: bg_log_def Let_def emit_def registerDroppedItemCount_def triggerActiveFlush_def
      drain_queue_def split: prod.splits)

lemma apply_log_calls_posts [simp]:
  "posts (effects (apply_log_calls calls bg)) = posts (effects bg)"
  unfolding apply_log_calls_def
  by (induction calls arbitrary: bg) (auto split: prod.splits)

lemma flush_pass_nothing:
  assumes "fst (unwrapLazyValues env bg (flushing bg)) = Inr []"
    and "posts (snd (unwrapLazyValues env bg (flushing bg))) = []"
  shows "fst (flush_pass env script bg) = PassNothingToFlush \<and>
         posts (effects (snd (flush_pass env script bg))) = posts (effects bg)"
  using assms
  by (cases "unwrapLazyValues env bg (flushing bg)")
     (simp add: flush_pass_def Let_def emit_def)

text \<open>
  C7, as amended. When \<^verbatim>\<open>unwrapLazyValues\<close> resolves the records of a drained queue, the
  records are awaited together: a try fails as soon as one record fails, with the error
  of the record that fails first in time, and it fails as well when all records resolve
  and \<^verbatim>\<open>mergeRowBatch\<close> throws on their values. There are at most \<open>numTries\<close> tries (3 by
  default) with a fixed wait of 100 ms after each failed try that is followed by another:
  the first try \<open>k\<close> that succeeds returns the merged rows after \<open>k\<close> waits. Where every try
  fails, in asynchronous mode there is one more wait of 100 ms, the whole drained list is
  dropped with a warning, the records of it that did resolve included, and the pass ends
  without posting anything; in synchronous-flush mode the error of the last try is thrown
  instead.
\<close>

theorem resolve_retries:
  "(isl (promise_all f settles ws) \<longleftrightarrow> (\<exists>x \<in> set ws. isl (f x))) \<and>
   (promise_all f settles ws = Inl e \<longrightarrow>
      (\<exists>x \<in> set ws. f x = Inl e \<and> (\<forall>y \<in> set ws. isl (f y) \<longrightarrow> settles x \<le> settles y))) \<and>
   ((\<exists>x \<in> set ws. isl (lazy_get env i x)) \<longrightarrow>
      resolve_try env i ws =
        Inl (projl (promise_all (lazy_get env i) (lazy_settles env i) ws))) \<and>
   ((\<forall>x \<in> set ws. \<not> isl (lazy_get env i x)) \<longrightarrow>
      resolve_try env i ws = mergeRowBatch env (map (\<lambda>x. projr (lazy_get env i x)) ws)) \<and>
   (k < nat (numTries bg) \<and> (\<forall>j<k. isl (resolve_try env j ws)) \<and>
    resolve_try env k ws = Inr merged \<longrightarrow>
      fst (unwrapLazyValues env bg ws) = Inr merged \<and>
      sleeps (snd (unwrapLazyValues env bg ws)) = replicate k 100) \<and>
   (0 < nat (numTries bg) \<and> (\<forall>j < nat (numTries bg). isl (resolve_try env j ws)) \<longrightarrow>
      (if syncFlush bg
       then fst (unwrapLazyValues env bg ws) =
              Inl (projl (resolve_try env (nat (numTries bg) - 1) ws)) \<and>
            sleeps (snd (unwrapLazyValues env bg ws)) = replicate (nat (numTries bg) - 1) 100
       else fst (unwrapLazyValues env bg ws) = Inr [] \<and>
            sleeps (snd (unwrapLazyValues env bg ws)) = replicate (nat (numTries bg)) 100 \<and>
            last (snd (unwrapLazyValues env bg ws)) =
              Warn (ConstructingRecordsGaveUp (numTries bg)) \<and>
            (flushing bg = ws \<longrightarrow>
               fst (flush_pass env script bg) = PassNothingToFlush \<and>
               posts (effects (snd (flush_pass env script bg))) = posts (effects bg))))"
proof (intro conjI impI)
  show "isl (promise_all f settles ws) \<longleftrightarrow> (\<exists>x \<in> set ws. isl (f x))"
    by (rule promise_all_isl)
next
  assume "promise_all f settles ws = Inl e"
  then show "\<exists>x \<in> set ws. f x = Inl e \<and> (\<forall>y \<in> set ws. isl (f y) \<longrightarrow> settles x \<le> settles y)"
    by (rule promise_all_rejection)
next
  assume "\<exists>x \<in> set ws. isl (lazy_get env i x)"
  then show "resolve_try env i ws =
        Inl (projl (promise_all (lazy_get env i) (lazy_settles env i) ws))"
    by (rule resolve_try_rejected)
next
  assume "\<forall>x \<in> set ws. \<not> isl (lazy_get env i x)"
  then show "resolve_try env i ws = mergeRowBatch env (map (\<lambda>x. projr (lazy_get env i x)) ws)"
    by (rule resolve_try_resolved)
next
  assume a: "k < nat (numTries bg) \<and> (\<forall>j<k. isl (resolve_try env j ws)) \<and>
    resolve_try env k ws = Inr merged"
  then have 1: "k < nat (numTries bg)" and 2: "0 \<le> k"
    and 3: "\<forall>j. 0 \<le> j \<and> j < k \<longrightarrow> isl (resolve_try env j ws)"
    and 4: "resolve_try env k ws = Inr merged" by auto
  from unwrap_loop_success[OF 1 2 3 4]
  show "fst (unwrapLazyValues env bg ws) = Inr merged"
    and "sleeps (snd (unwrapLazyValues env bg ws)) = replicate k 100"
    by (simp_all add: unwrapLazyValues_def)
next
  assume a: "0 < nat (numTries bg) \<and>
    (\<forall>j < nat (numTries bg). isl (resolve_try env j ws))"
  then have 1: "0 < nat (numTries bg)"
    and 2: "\<forall>j. 0 \<le> j \<and> j < nat (numTries bg) \<longrightarrow> isl (resolve_try env j ws)"
    by auto
  note u = unwrap_loop_all_fail[OF 1 2, folded unwrapLazyValues_def]
  show "if syncFlush bg
       then fst (unwrapLazyValues env bg ws) =
              Inl (projl (resolve_try env (nat (numTries bg) - 1) ws)) \<and>
            sleeps (snd (unwrapLazyValues env bg ws)) = replicate (nat (numTries bg) - 1) 100
       else fst (unwrapLazyValues env bg ws) = Inr [] \<and>
            sleeps (snd (unwrapLazyValues env bg ws)) = replicate (nat (numTries bg)) 100 \<and>
            last (snd (unwrapLazyValues env bg ws)) =
              Warn (ConstructingRecordsGaveUp (numTries bg)) \<and>
            (flushing bg = ws \<longrightarrow>
               fst (flush_pass env script bg) = PassNothingToFlush \<and>
               posts (effects (snd (flush_pass env script bg))) = posts (effects bg))"
  proof (cases "syncFlush bg")
    case True
    then show ?thesis using u by simp
  next
    case False
    have "fst (flush_pass env script bg) = PassNothingToFlush \<and>
          posts (effects (snd (flush_pass env script bg))) = posts (effects bg)"
      if "flushing bg = ws"
      using flush_pass_nothing[of env bg script] u False that by simp
    then show ?thesis using u False by simp
  qed
qed

lemma default_logger_fields:
  "numTries (BackgroundLogger no_env_options) = 3"
  "syncFlush (BackgroundLogger no_env_options) = False"
  "failedPublishPayloadsDir (BackgroundLogger no_env_options) = None"
  "allPublishPayloadsDir (BackgroundLogger no_env_options) = None"
  "effects (BackgroundLogger no_env_options) = []"
  by (simp_all add: BackgroundLogger_def no_env_options_def)

lemma sync_logger_fields:
  "numTries (BackgroundLogger (no_env_options\<lparr>BRAINTRUST_SYNC_FLUSH := Some 1\<rparr>)) = 3"
  "syncFlush (BackgroundLogger (no_env_options\<lparr>BRAINTRUST_SYNC_FLUSH := Some 1\<rparr>))"
  by (simp_all add: BackgroundLogger_def no_env_options_def)

lemma example_try:
  "resolve_try (example_env tr) j [Inr ''row''] = Inr [[''row'']]"
  "resolve_try (example_env tr) j [Inr ''row'', Inl (Thrown ''boom'')] = Inl (Thrown ''boom'')"
  "resolve_try unmergeable_env j [Inr ''row''] = Inl (Thrown ''row without id'')"
  by (simp_all add: resolve_try_def promise_all_def example_env_def unmergeable_env_def)

text \<open>
  The theorem at work. Of two failing records the one that settles first gives the error,
  though it stands second in the list. On the default logger, one record that resolves is
  returned at once, in a bucket; two records of which one fails are dropped after three
  tries and three waits, and so is a record that resolves when \<^verbatim>\<open>mergeRowBatch\<close> throws on
  its value; on a logger in synchronous-flush mode the failure is thrown after three tries
  and two waits.
\<close>

theorem resolve_retries_witness:
  "promise_all (\<lambda>x. x) early_late [Inl (Thrown ''late''), Inl (Thrown ''early'')] =
     (Inl (Thrown ''early'') :: error + string list) \<and>
   numTries (BackgroundLogger no_env_options :: (error + string) bg_logger) = 3 \<and>
   fst (unwrapLazyValues (example_env http_ok) (BackgroundLogger no_env_options) [Inr ''row'']) =
     Inr [[''row'']] \<and>
   sleeps (snd (unwrapLazyValues (example_env http_ok) (BackgroundLogger no_env_options)
     [Inr ''row''])) = [] \<and>
   fst (unwrapLazyValues (example_env http_ok) (BackgroundLogger no_env_options)
     [Inr ''row'', Inl (Thrown ''boom'')]) = Inr [] \<and>
   sleeps (snd (unwrapLazyValues (example_env http_ok) (BackgroundLogger no_env_options)
     [Inr ''row'', Inl (Thrown ''boom'')])) = [100, 100, 100] \<and>
   lazy_get unmergeable_env 0 (Inr ''row'') = Inr ''row'' \<and>
   fst (unwrapLazyValues unmergeable_env (BackgroundLogger no_env_options) [Inr ''row'']) =
     Inr [] \<and>
   sleeps (snd (unwrapLazyValues unmergeable_env (BackgroundLogger no_env_options)
     [Inr ''row''])) = [100, 100, 100] \<and>
   fst (unwrapLazyValues (example_env http_ok)
     (BackgroundLogger (no_env_options\<lparr>BRAINTRUST_SYNC_FLUSH := Some 1\<rparr>))
     [Inr ''row'', Inl (Thrown ''boom'')]) = Inl (Thrown ''boom'') \<and>
   sleeps (snd (unwrapLazyValues (example_env http_ok)
     (BackgroundLogger (no_env_options\<lparr>BRAINTRUST_SYNC_FLUSH := Some 1\<rparr>))
     [Inr ''row'', Inl (Thrown ''boom'')])) = [100, 100]"
proof -
  let ?bg = "BackgroundLogger no_env_options :: (error + string) bg_logger"
  let ?sync = "BackgroundLogger (no_env_options\<lparr>BRAINTRUST_SYNC_FLUSH := Some 1\<rparr>)
                 :: (error + string) bg_logger"
  let ?env = "example_env http_ok"
  let ?good = "[Inr ''row''] :: (error + string) list"
  let ?bad = "[Inr ''row'', Inl (Thrown ''boom'')] :: (error + string) list"
  let ?two = "[Inl (Thrown ''late''), Inl (Thrown ''early'')] :: (error + string) list"
  have r3: "replicate (nat 3) (100 :: nat) = [100, 100, 100]"
    and r2: "replicate (nat 3 - 1) (100 :: nat) = [100, 100]"
    by (simp_all add: numeral_3_eq_3)
  let ?id = "\<lambda>x :: error + string. x"
  note t = resolve_retries[where f = ?id and settles = early_late and ws = ?two,
      THEN conjunct1]
  obtain e where e: "promise_all ?id early_late ?two = Inl e"
    using t by (cases "promise_all ?id early_late ?two") auto
  from resolve_retries[where f = ?id and settles = early_late and ws = ?two and e = e,
      THEN conjunct2, THEN conjunct1] e
  have "e = Thrown ''early''" by (auto simp: early_late_def split: if_splits)
  then have 0: "promise_all ?id early_late ?two = Inl (Thrown ''early'')"
    using e by simp
  have tg: "resolve_try ?env j ?good = Inr [[''row'']]" for j
    using resolve_retries[where env = ?env and i = j and ws = ?good,
      THEN conjunct2, THEN conjunct2, THEN conjunct2, THEN conjunct1] by (simp add: example_env_def)
  have tb: "resolve_try ?env j ?bad = Inl (Thrown ''boom'')" for j
    using resolve_retries[where env = ?env and i = j and ws = ?bad,
      THEN conjunct2, THEN conjunct2, THEN conjunct1]
    by (simp add: example_env_def promise_all_def)
  have tu: "resolve_try unmergeable_env j ?good = Inl (Thrown ''row without id'')" for j
    using resolve_retries[where env = unmergeable_env and i = j and ws = ?good,
      THEN conjunct2, THEN conjunct2, THEN conjunct2, THEN conjunct1]
    by (simp add: example_env_def unmergeable_env_def)
  from resolve_retries[where ws = ?good and k = 0 and bg = ?bg and env = ?env
      and merged = "[[''row'']]",
      THEN conjunct2, THEN conjunct2, THEN conjunct2, THEN conjunct2, THEN conjunct1] tg
  have 2: "fst (unwrapLazyValues ?env ?bg ?good) = Inr [[''row'']]"
    and 3: "sleeps (snd (unwrapLazyValues ?env ?bg ?good)) = []"
    by (simp_all add: default_logger_fields)
  from resolve_retries[where ws = ?bad and bg = ?bg and env = ?env,
      THEN conjunct2, THEN conjunct2, THEN conjunct2, THEN conjunct2, THEN conjunct2] tb r3
  have 4: "fst (unwrapLazyValues ?env ?bg ?bad) = Inr []"
    and 5: "sleeps (snd (unwrapLazyValues ?env ?bg ?bad)) = [100, 100, 100]"
    by (simp_all add: default_logger_fields)
  from resolve_retries[where ws = ?good and bg = ?bg and env = unmergeable_env,
      THEN conjunct2, THEN conjunct2, THEN conjunct2, THEN conjunct2, THEN conjunct2] tu r3
  have 6: "fst (unwrapLazyValues unmergeable_env ?bg ?good) = Inr []"
    and 7: "sleeps (snd (unwrapLazyValues unmergeable_env ?bg ?good)) = [100, 100, 100]"
    by (simp_all add: default_logger_fields)
  from resolve_retries[where ws = ?bad and bg = ?sync and env = ?env,
      THEN conjunct2, THEN conjunct2, THEN conjunct2, THEN conjunct2, THEN conjunct2] tb r2
  have 8: "fst (unwrapLazyValues ?env ?sync ?bad) = Inl (Thrown ''boom'')"
    and 9: "sleeps (snd (unwrapLazyValues ?env ?sync ?bad)) = [100, 100]"
    by (simp_all add: sync_logger_fields)
  have g: "lazy_get unmergeable_env 0 (Inr ''row'') = Inr ''row''"
    by (simp add: unmergeable_env_def example_env_def)
  from 0 2 3 4 5 6 7 8 9 g show ?thesis by (simp add: default_logger_fields)
qed

text \<open>
  The claim C7 as it was stated fails on a drained queue of two records, the first of
  which resolves while the second fails: in the default mode the pass ends with nothing
  to flush and posts nothing, so the record that resolved is not flushed; and in
  synchronous-flush mode the failure is thrown, not dropped with a warning.
\<close>

theorem resolved_items_dropped_counterexample:
  "flushing (bg_log 1000 [Inr ''row'', Inl (Thrown ''boom'')] (BackgroundLogger no_env_options)) =
     [Inr ''row'', Inl (Thrown ''boom'')] \<and>
   lazy_get (example_env http_ok) 0 (Inr ''row'') = Inr ''row'' \<and>
   fst (flush_pass (example_env http_ok) quiet_pass
     (bg_log 1000 [Inr ''row'', Inl (Thrown ''boom'')] (BackgroundLogger no_env_options))) =
     PassNothingToFlush \<and>
   posts (effects (snd (flush_pass (example_env http_ok) quiet_pass
     (bg_log 1000 [Inr ''row'', Inl (Thrown ''boom'')] (BackgroundLogger no_env_options))))) = [] \<and>
   fst (unwrapLazyValues (example_env http_ok)
     (BackgroundLogger (no_env_options\<lparr>BRAINTRUST_SYNC_FLUSH := Some 1\<rparr>))
     [Inr ''row'', Inl (Thrown ''boom'')]) = Inl (Thrown ''boom'')"
proof -
  let ?ws = "[Inr ''row'', Inl (Thrown ''boom'')] :: (error + string) list"
  let ?env = "example_env http_ok"
  let ?bg1 = "bg_log 1000 ?ws (BackgroundLogger no_env_options)"
  let ?sync = "BackgroundLogger (no_env_options\<lparr>BRAINTRUST_SYNC_FLUSH := Some 1\<rparr>) :: (error + string) bg_logger"
  have f: "flushing ?bg1 = ?ws" "numTries ?bg1 = 3" "\<not> syncFlush ?bg1" "effects ?bg1 = []"
    by (simp_all add: bg_log_def log_split_def BackgroundLogger_def no_env_options_def
        triggerActiveFlush_def drain_queue_def)
  have g: "lazy_get ?env 0 (Inr ''row'') = Inr ''row''" by (simp add: example_env_def)
  have pos: "0 < nat (numTries ?bg1)" using f by simp
  have bad: "\<forall>j. 0 \<le> j \<and> j < nat (numTries ?bg1) \<longrightarrow> isl (resolve_try ?env j ?ws)"
    by (simp add: example_try)
  note u = unwrap_loop_all_fail[OF pos bad, folded unwrapLazyValues_def]
  have p: "fst (flush_pass ?env quiet_pass ?bg1) = PassNothingToFlush \<and>
           posts (effects (snd (flush_pass ?env quiet_pass ?bg1))) = posts (effects ?bg1)"
    using flush_pass_nothing[of ?env ?bg1 quiet_pass] u f by simp
  have s: "numTries ?sync = 3" "syncFlush ?sync"
    by (simp_all add: BackgroundLogger_def no_env_options_def)
  have pos': "0 < nat (numTries ?sync)" using s by simp
  have bad': "\<forall>j. 0 \<le> j \<and> j < nat (numTries ?sync) \<longrightarrow> isl (resolve_try ?env j ?ws)"
    by (simp add: example_try)
  have t: "fst (unwrapLazyValues ?env ?sync ?ws) = Inl (Thrown ''boom'')"
    using unwrap_loop_all_fail[OF pos' bad', folded unwrapLazyValues_def] s
    by (simp add: example_try)
  from f g p t show ?thesis by simp
qed

lemma attempt_posts_failed:
  "attempt_error env rows j \<noteq> None \<Longrightarrow>
   attempt_posts env rows j =
     [(''logs3'', constructLogs3Data env rows), (''logs'', legacy_body env rows)]"
  by (auto simp: attempt_error_def attempt_posts_def split: option.splits)

lemma concat_all_failed:
  "\<forall>j < n. attempt_error env rows j \<noteq> None \<Longrightarrow>
   concat (map (attempt_posts env rows) [0..<n]) =
     concat (replicate n [(''logs3'', constructLogs3Data env rows), (''logs'', legacy_body env rows)])"
proof -
  assume a: "\<forall>j < n. attempt_error env rows j \<noteq> None"
  have "map (attempt_posts env rows) [0..<n] =
        map (\<lambda>j. [(''logs3'', constructLogs3Data env rows), (''logs'', legacy_body env rows)]) [0..<n]"
    by (rule map_cong) (use a in \<open>auto simp: attempt_posts_failed\<close>)
  then show ?thesis by (simp add: map_replicate_const)
qed

lemma attempts_replicate:
  "length (filter (\<lambda>p. fst p = ''logs3'') (concat (replicate n [(''logs3'', a), (''logs'', b)]))) = n"
  by (induction n) auto

lemma flush_pass_items:
  "items (snd (flush_pass env quiet_pass bg)) = items bg"
  using flush_pass_quiet_items[of "fst (flush_pass env quiet_pass bg)"
      "snd (flush_pass env quiet_pass bg)" env bg] by simp

lemma submitLogsRequest_connected:
  assumes "apiConn_get env = None"
  shows "fst (submitLogsRequest env bg rows) =
           fst (submit_loop env bg rows (constructLogs3Data env rows) 0)"
    and "snd (submitLogsRequest env bg rows) =
           (if dir_set (allPublishPayloadsDir bg)
            then [WritePayload (the (allPublishPayloadsDir bg)) (constructLogs3Data env rows)]
            else []) @
           snd (submit_loop env bg rows (constructLogs3Data env rows) 0)"
  using assms
  by (cases "submit_loop env bg rows (constructLogs3Data env rows) 0";
      simp add: submitLogsRequest_def Let_def)+

lemma submitLogsRequest_bound:
  "attempts (snd (submitLogsRequest env bg rows)) \<le> nat (numTries bg)"
proof (cases "apiConn_get env")
  case None
  show ?thesis
    unfolding submitLogsRequest_connected[OF None]
    using submit_loop_bound[of env bg rows "constructLogs3Data env rows" 0]
    by (simp add: attempts_def)
next
  case (Some e)
  then show ?thesis by (simp add: submitLogsRequest_def attempts_def)
qed

lemma submitLogsRequest_all_fail_attempts:
  assumes "apiConn_get env = None" and "0 < nat (numTries bg)"
    and "\<forall>j < nat (numTries bg). attempt_error env rows j \<noteq> None"
  shows "attempts (snd (submitLogsRequest env bg rows)) = nat (numTries bg)"
proof -
  have 2: "\<forall>j. 0 \<le> j \<and> j < nat (numTries bg) \<longrightarrow> attempt_error env rows j \<noteq> None"
    using assms(3) by simp
  note s = submit_loop_all_fail[OF assms(2) 2]
  have p: "posts (snd (submitLogsRequest env bg rows)) =
        concat (replicate (nat (numTries bg))
          [(''logs3'', constructLogs3Data env rows), (''logs'', legacy_body env rows)])"
    unfolding submitLogsRequest_connected[OF assms(1)] using s concat_all_failed[OF assms(3)]
    by simp
  show ?thesis unfolding attempts_def p by (rule attempts_replicate)
qed

text \<open>
  The number of tries as the constructor sets it: 3, or one more than the option
  \<^verbatim>\<open>BRAINTRUST_NUM_RETRIES\<close>.
\<close>

lemma numTries_from_env:
  "numTries (BackgroundLogger no_env_options) = 3"
  "numTries (BackgroundLogger (no_env_options\<lparr>BRAINTRUST_NUM_RETRIES := Some r\<rparr>)) = r + 1"
  by (simp_all add: BackgroundLogger_def no_env_options_def)

lemma numTries_constructor:
  "numTries (BackgroundLogger opts) =
     (case BRAINTRUST_NUM_RETRIES opts of None \<Rightarrow> 3 | Some r \<Rightarrow> r + 1)"
  by (simp add: BackgroundLogger_def)

text \<open>
  C6, as amended. For every batch that \<^verbatim>\<open>submitLogsRequest\<close> submits: the batch is
  attempted at most \<open>numTries\<close> times, where the constructor sets \<open>numTries\<close> to 3 by default
  and to the configured retry count \<^verbatim>\<open>BRAINTRUST_NUM_RETRIES\<close> plus one. An attempt posts to
  \<^verbatim>\<open>logs3\<close> and, where that fails, posts the legacy-shaped records to \<^verbatim>\<open>logs\<close>; it fails
  only if that post fails too, and the first attempt that does not fail ends the
  submission. Where all attempts fail (and there is at least one), there were exactly
  \<open>numTries\<close> attempts, each with both posts, the payload was written to the
  failed-payloads directory if one is configured (after the copy for the all-payloads
  directory, if that is configured), and the request gives up, in synchronous-flush mode
  by throwing. The batch never comes back into the queue: a pass during which nothing is
  logged leaves the queue as it found it.
\<close>

theorem submit_retries:
  "numTries (BackgroundLogger opts :: 'a bg_logger) =
     (case BRAINTRUST_NUM_RETRIES opts of None \<Rightarrow> 3 | Some r \<Rightarrow> r + 1) \<and>
   attempts (snd (submitLogsRequest env (bg :: 'a bg_logger) rows)) \<le> nat (numTries bg) \<and>
   (apiConn_get env = None \<and> k < nat (numTries bg) \<and>
    (\<forall>j<k. attempt_error env rows j \<noteq> None) \<and> attempt_error env rows k = None \<longrightarrow>
      fst (submitLogsRequest env bg rows) = Inr () \<and>
      posts (snd (submitLogsRequest env bg rows)) =
        concat (map (attempt_posts env rows) [0..<Suc k])) \<and>
   (apiConn_get env = None \<and> 0 < nat (numTries bg) \<and>
    (\<forall>j < nat (numTries bg). attempt_error env rows j \<noteq> None) \<longrightarrow>
      attempts (snd (submitLogsRequest env bg rows)) = nat (numTries bg) \<and>
      posts (snd (submitLogsRequest env bg rows)) =
        concat (replicate (nat (numTries bg))
          [(''logs3'', constructLogs3Data env rows), (''logs'', legacy_body env rows)]) \<and>
      fst (submitLogsRequest env bg rows) =
        (if syncFlush bg
         then Inl (LogRequestFailed (the (attempt_error env rows (nat (numTries bg) - 1))))
         else Inr ()) \<and>
      payload_writes (snd (submitLogsRequest env bg rows)) =
        (if dir_set (allPublishPayloadsDir bg)
         then [(the (allPublishPayloadsDir bg), constructLogs3Data env rows)] else []) @
        (if dir_set (failedPublishPayloadsDir bg)
         then [(the (failedPublishPayloadsDir bg), constructLogs3Data env rows)] else [])) \<and>
   items (snd (flush_pass env quiet_pass bg)) = items bg"
proof (intro conjI impI)
  show "numTries (BackgroundLogger opts :: 'a bg_logger) =
     (case BRAINTRUST_NUM_RETRIES opts of None \<Rightarrow> 3 | Some r \<Rightarrow> r + 1)"
    by (rule numTries_constructor)
next
  show "attempts (snd (submitLogsRequest env bg rows)) \<le> nat (numTries bg)"
    by (rule submitLogsRequest_bound)
next
  assume a: "apiConn_get env = None \<and> k < nat (numTries bg) \<and>
    (\<forall>j<k. attempt_error env rows j \<noteq> None) \<and> attempt_error env rows k = None"
  then have 1: "k < nat (numTries bg)" and 2: "0 \<le> k"
    and 3: "\<forall>j. 0 \<le> j \<and> j < k \<longrightarrow> attempt_error env rows j \<noteq> None"
    and 4: "attempt_error env rows k = None" by auto
  have c: "apiConn_get env = None" using a by simp
  from submit_loop_success[OF 1 2 3 4]
  show "fst (submitLogsRequest env bg rows) = Inr ()"
    and "posts (snd (submitLogsRequest env bg rows)) =
        concat (map (attempt_posts env rows) [0..<Suc k])"
    unfolding submitLogsRequest_connected[OF c] by simp_all
next
  assume a: "apiConn_get env = None \<and> 0 < nat (numTries bg) \<and>
    (\<forall>j < nat (numTries bg). attempt_error env rows j \<noteq> None)"
  then have 1: "0 < nat (numTries bg)"
    and 2: "\<forall>j. 0 \<le> j \<and> j < nat (numTries bg) \<longrightarrow> attempt_error env rows j \<noteq> None"
    and 3: "\<forall>j < nat (numTries bg). attempt_error env rows j \<noteq> None" by auto
  have c: "apiConn_get env = None" using a by simp
  note s = submit_loop_all_fail[OF 1 2]
  have p: "posts (snd (submitLogsRequest env bg rows)) =
        concat (replicate (nat (numTries bg))
          [(''logs3'', constructLogs3Data env rows), (''logs'', legacy_body env rows)])"
    unfolding submitLogsRequest_connected[OF c] using s concat_all_failed[OF 3] by simp
  then show "posts (snd (submitLogsRequest env bg rows)) =
        concat (replicate (nat (numTries bg))
          [(''logs3'', constructLogs3Data env rows), (''logs'', legacy_body env rows)])" .
  show "attempts (snd (submitLogsRequest env bg rows)) = nat (numTries bg)"
    unfolding attempts_def p by (rule attempts_replicate)
  show "fst (submitLogsRequest env bg rows) =
        (if syncFlush bg
         then Inl (LogRequestFailed (the (attempt_error env rows (nat (numTries bg) - 1))))
         else Inr ())"
    unfolding submitLogsRequest_connected[OF c] using s by simp
  show "payload_writes (snd (submitLogsRequest env bg rows)) =
        (if dir_set (allPublishPayloadsDir bg)
         then [(the (allPublishPayloadsDir bg), constructLogs3Data env rows)] else []) @
        (if dir_set (failedPublishPayloadsDir bg)
         then [(the (failedPublishPayloadsDir bg), constructLogs3Data env rows)] else [])"
    unfolding submitLogsRequest_connected[OF c] using s by simp
next
  show "items (snd (flush_pass env quiet_pass bg)) = items bg" by (rule flush_pass_items)
qed

text \<open>
  The theorem at work: with two retries configured the logger makes three tries; on the
  default logger with a directory for failed payloads, a transport that fails every post
  is tried three times, the request gives up without an error and the payload is written
  to the directory; a transport that knows the legacy endpoint only succeeds in the
  first attempt, on its second post; a quiet pass leaves the empty queue empty.
\<close>

theorem submit_retries_witness:
  "numTries (BackgroundLogger (no_env_options\<lparr>BRAINTRUST_NUM_RETRIES := Some 2\<rparr>)
     :: (error + string) bg_logger) = 3 \<and>
   numTries failed_dir_logger = 3 \<and>
   apiConn_get (example_env http_500) = None \<and>
   attempts (snd (submitLogsRequest (example_env http_500) failed_dir_logger [''{}''])) = 3 \<and>
   fst (submitLogsRequest (example_env http_500) failed_dir_logger [''{}'']) = Inr () \<and>
   payload_writes (snd (submitLogsRequest (example_env http_500) failed_dir_logger [''{}''])) =
     [(''/var/failed'', constructLogs3Data (example_env http_500) [''{}''])] \<and>
   fst (submitLogsRequest (example_env legacy_only) failed_dir_logger [''{}'']) = Inr () \<and>
   posts (snd (submitLogsRequest (example_env legacy_only) failed_dir_logger [''{}''])) =
     [(''logs3'', constructLogs3Data (example_env legacy_only) [''{}'']),
      (''logs'', legacy_body (example_env legacy_only) [''{}''])] \<and>
   items (snd (flush_pass (example_env http_500) quiet_pass failed_dir_logger)) = []"
proof -
  let ?bg = failed_dir_logger
  have f: "numTries ?bg = 3" "\<not> syncFlush ?bg" "allPublishPayloadsDir ?bg = None"
    "failedPublishPayloadsDir ?bg = Some ''/var/failed''" "items ?bg = []"
    by (simp_all add: failed_dir_logger_def BackgroundLogger_def no_env_options_def)
  have c: "apiConn_get (example_env tr) = None" for tr by (simp add: example_env_def)
  have e500: "\<forall>j < nat (numTries ?bg). attempt_error (example_env http_500) [''{}''] j \<noteq> None"
    by (simp add: attempt_error_def example_env_def http_500_def)
  have el: "attempt_error (example_env legacy_only) [''{}''] 0 = None"
    by (simp add: attempt_error_def example_env_def legacy_only_def)
  have pl: "attempt_posts (example_env legacy_only) [''{}''] 0 =
      [(''logs3'', constructLogs3Data (example_env legacy_only) [''{}'']),
       (''logs'', legacy_body (example_env legacy_only) [''{}''])]"
    by (simp add: attempt_posts_def example_env_def legacy_only_def)
  from submit_retries[where env = "example_env http_500" and bg = ?bg and rows = "[''{}'']"]
    c e500 f
  have 1: "attempts (snd (submitLogsRequest (example_env http_500) ?bg [''{}''])) = 3 \<and>
           fst (submitLogsRequest (example_env http_500) ?bg [''{}'']) = Inr () \<and>
           payload_writes (snd (submitLogsRequest (example_env http_500) ?bg [''{}''])) =
             [(''/var/failed'', constructLogs3Data (example_env http_500) [''{}''])] \<and>
           items (snd (flush_pass (example_env http_500) quiet_pass ?bg)) = []"
    by simp
  from submit_retries[where env = "example_env legacy_only" and bg = ?bg and rows = "[''{}'']"
      and k = 0] c el pl f
  have 2: "fst (submitLogsRequest (example_env legacy_only) ?bg [''{}'']) = Inr () \<and>
           posts (snd (submitLogsRequest (example_env legacy_only) ?bg [''{}''])) =
             [(''logs3'', constructLogs3Data (example_env legacy_only) [''{}'']),
              (''logs'', legacy_body (example_env legacy_only) [''{}''])]"
    by simp
  from submit_retries[where opts = "no_env_options\<lparr>BRAINTRUST_NUM_RETRIES := Some 2\<rparr>"
      and env = "example_env http_500" and bg = ?bg and rows = "[''{}'']"]
  have 3: "numTries (BackgroundLogger (no_env_options\<lparr>BRAINTRUST_NUM_RETRIES := Some 2\<rparr>)
     :: (error + string) bg_logger) = 3"
    by (simp add: no_env_options_def)
  from 1 2 3 f c show ?thesis by simp
qed

text \<open>
  The claim C6 as it was stated fails on its own example: with the retry count
  \<^verbatim>\<open>BRAINTRUST_NUM_RETRIES\<close> set to 3 the constructor sets four tries, and a transport that
  answers every post with HTTP 500 is attempted four times, not three.
\<close>

theorem retry_count_counterexample:
  "BRAINTRUST_NUM_RETRIES (no_env_options\<lparr>BRAINTRUST_NUM_RETRIES := Some 3\<rparr>) = Some 3 \<and>
   numTries (BackgroundLogger (no_env_options\<lparr>BRAINTRUST_NUM_RETRIES := Some 3\<rparr>)
     :: (error + string) bg_logger) = 4 \<and>
   attempts (snd (submitLogsRequest (example_env http_500)
     (BackgroundLogger (no_env_options\<lparr>BRAINTRUST_NUM_RETRIES := Some 3\<rparr>)) [''{}''])) = 4 \<and>
   posts (snd (submitLogsRequest (example_env http_500)
     (BackgroundLogger (no_env_options\<lparr>BRAINTRUST_NUM_RETRIES := Some 3\<rparr>)) [''{}''])) =
     concat (replicate 4
       [(''logs3'', constructLogs3Data (example_env http_500) [''{}'']),
        (''logs'', legacy_body (example_env http_500) [''{}''])])"
proof -
  let ?bg = "BackgroundLogger (no_env_options\<lparr>BRAINTRUST_NUM_RETRIES := Some 3\<rparr>)
               :: (error + string) bg_logger"
  let ?env = "example_env http_500"
  have n: "numTries ?bg = 4" by (simp add: numTries_from_env)
  have c: "apiConn_get ?env = None" by (simp add: example_env_def)
  have pos: "0 < nat (numTries ?bg)" using n by simp
  have e: "\<forall>j < nat (numTries ?bg). attempt_error ?env [''{}''] j \<noteq> None"
    by (simp add: attempt_error_def example_env_def http_500_def)
  have e': "\<forall>j. 0 \<le> j \<and> j < nat (numTries ?bg) \<longrightarrow> attempt_error ?env [''{}''] j \<noteq> None"
    using e by simp
  have a: "attempts (snd (submitLogsRequest ?env ?bg [''{}''])) = 4"
    using submitLogsRequest_all_fail_attempts[OF c pos e] n by simp
  have p: "posts (snd (submitLogsRequest ?env ?bg [''{}''])) =
     concat (replicate 4
       [(''logs3'', constructLogs3Data ?env [''{}'']), (''logs'', legacy_body ?env [''{}''])])"
    unfolding submitLogsRequest_connected[OF c]
    using submit_loop_all_fail[OF pos e'] concat_all_failed[OF e] n by simp
  from n a p show ?thesis by simp
qed

lemma flushOnce_run_queue_empty:
  "flushOnce_run env scripts bg = (Inr QueueEmpty, bg') \<Longrightarrow> items bg' = []"
proof (induction env scripts bg rule: flushOnce_run.induct)
  case (1 env scripts bg)
  obtain r bg1 where p: "flush_pass env (case scripts of [] \<Rightarrow> quiet_pass | s # later \<Rightarrow> s) bg = (r, bg1)"
    by (cases "flush_pass env (case scripts of [] \<Rightarrow> quiet_pass | s # later \<Rightarrow> s) bg")
  show ?case
  proof (cases r)
    case (PassThrew e)
    then show ?thesis using "1.prems" p by (subst (asm) flushOnce_run.simps) simp
  next
    case PassNothingToFlush
    then show ?thesis using "1.prems" p by (subst (asm) flushOnce_run.simps) simp
  next
    case PassSubmitted
    show ?thesis
    proof (cases "items bg1 = []")
      case True
      then show ?thesis using "1.prems" p PassSubmitted
        by (subst (asm) flushOnce_run.simps) simp
    next
      case False
      have "flushOnce_run env (tl scripts) (drain_queue bg1) = (Inr QueueEmpty, bg')"
        using "1.prems" p PassSubmitted False by (subst (asm) flushOnce_run.simps) simp
      then show ?thesis using "1.IH"[OF p[symmetric] _ False] PassSubmitted by simp
    qed
  qed
qed

lemma flushOnce_run_again:
  assumes "flush_pass env (case scripts of [] \<Rightarrow> quiet_pass | s # later \<Rightarrow> s) bg = (PassSubmitted, bg1)"
    and "items bg1 \<noteq> []"
  shows "flushOnce_run env scripts bg = flushOnce_run env (tl scripts) (drain_queue bg1)"
  using assms by (subst flushOnce_run.simps) simp

lemma bg_log_in_flight:
  assumes "\<not> activeFlushResolved bg"
  shows "items (bg_log t batch bg) = items bg @ fst (log_split bg batch) \<and>
         flushing (bg_log t batch bg) = flushing bg \<and>
         \<not> activeFlushResolved (bg_log t batch bg)"
  using assms
  by (simp add: bg_log_def Let_def triggerActiveFlush_def emit_def registerDroppedItemCount_def
      split: prod.splits)

lemma bg_log_unbounded:
  assumes "\<not> activeFlushResolved bg" and "queueDropExceedingMaxsize bg = None"
  shows "items (bg_log t batch bg) = items bg @ batch \<and>
         \<not> activeFlushResolved (bg_log t batch bg) \<and>
         queueDropExceedingMaxsize (bg_log t batch bg) = None"
  using assms
  by (simp add: bg_log_def Let_def triggerActiveFlush_def log_split_def)

lemma apply_log_calls_unbounded:
  assumes "\<not> activeFlushResolved bg" and "queueDropExceedingMaxsize bg = None"
  shows "items (apply_log_calls calls bg) = items bg @ concat (map snd calls) \<and>
         \<not> activeFlushResolved (apply_log_calls calls bg) \<and>
         queueDropExceedingMaxsize (apply_log_calls calls bg) = None"
  using assms
proof (induction calls arbitrary: bg)
  case Nil
  then show ?case by (simp add: apply_log_calls_def)
next
  case (Cons c calls)
  obtain t b where c: "c = (t, b)" by (cases c)
  have step: "apply_log_calls (c # calls) bg = apply_log_calls calls (bg_log t b bg)"
    by (simp add: apply_log_calls_def c)
  from bg_log_unbounded[OF Cons.prems, of t b]
  have 1: "\<not> activeFlushResolved (bg_log t b bg)"
    and 2: "queueDropExceedingMaxsize (bg_log t b bg) = None"
    and 3: "items (bg_log t b bg) = items bg @ b" by simp_all
  from Cons.IH[OF 1 2] show ?case unfolding step using 3 c by simp
qed

lemma emit_config [simp]:
  "activeFlushResolved (emit tr bg) = activeFlushResolved bg"
  "queueDropExceedingMaxsize (emit tr bg) = queueDropExceedingMaxsize bg"
  by (simp_all add: emit_def)

lemma flush_pass_arrivals:
  assumes "\<not> activeFlushResolved bg" and "queueDropExceedingMaxsize bg = None"
    and "flush_pass env script bg = (PassSubmitted, bg1)"
  shows "items bg1 = items bg @ concat (map snd (during_resolve script @ during_submit script))"
proof -
  let ?b1 = "apply_log_calls (during_resolve script) bg"
  obtain r tr where u: "unwrapLazyValues env bg (flushing bg) = (r, tr)"
    by (cases "unwrapLazyValues env bg (flushing bg)")
  from apply_log_calls_unbounded[OF assms(1,2), of "during_resolve script"]
  have a1: "items ?b1 = items bg @ concat (map snd (during_resolve script))"
    and a2: "\<not> activeFlushResolved (emit tr ?b1)"
    and a3: "queueDropExceedingMaxsize (emit tr ?b1) = None" by simp_all
  from apply_log_calls_unbounded[OF a2 a3, of "during_submit script"]
  have b1: "items (apply_log_calls (during_submit script) (emit tr ?b1)) =
              items bg @ concat (map snd (during_resolve script)) @ concat (map snd (during_submit script))"
    using a1 by simp
  show ?thesis using assms(3) u b1
    by (auto simp: flush_pass_def Let_def split: sum.splits if_splits prod.splits)
qed

lemma flushing_logger_eval:
  "flushing_logger batch =
     (BackgroundLogger no_env_options)\<lparr>activeFlushResolved := False, flushing := batch\<rparr>"
  by (simp add: flushing_logger_def bg_log_def log_split_def BackgroundLogger_def no_env_options_def
      triggerActiveFlush_def drain_queue_def)

lemma first_pass_eval:
  "flush_pass (example_env http_ok) late_arrival (flushing_logger [Inr ''first'']) =
     (PassSubmitted,
      (BackgroundLogger no_env_options)
        \<lparr>activeFlushResolved := False, flushing := [Inr ''first''], items := [Inr ''late''],
         effects := [Post ''logs3'' (constructLogs3Data (example_env http_ok) [''first''])]\<rparr>)"
  by (simp add: flush_pass_def flushing_logger_eval BackgroundLogger_def no_env_options_def
      unwrapLazyValues_def unwrap_loop.simps resolve_try_def promise_all_def example_env_def
  late_arrival_def apply_log_calls_def
      bg_log_def log_split_def triggerActiveFlush_def emit_def submitLogsRequest_def
      submit_loop.simps http_ok_def constructLogs3Data_def Let_def)

lemmas eval_defs =
  flush_pass_def BackgroundLogger_def no_env_options_def
  unwrapLazyValues_def unwrap_loop.simps resolve_try_def promise_all_def example_env_def
  late_arrival_def apply_log_calls_def
  bg_log_def log_split_def triggerActiveFlush_def emit_def submitLogsRequest_def
  submit_loop.simps http_ok_def constructLogs3Data_def Let_def quiet_pass_def drain_queue_def

lemma second_pass_eval:
  "flush_pass (example_env http_ok) quiet_pass
     (drain_queue ((BackgroundLogger no_env_options)
        \<lparr>activeFlushResolved := False, flushing := [Inr ''first''], items := [Inr ''late''],
         effects := [Post ''logs3'' (constructLogs3Data (example_env http_ok) [''first''])]\<rparr>)) =
     (PassSubmitted,
      (BackgroundLogger no_env_options)
        \<lparr>activeFlushResolved := False, flushing := [Inr ''late''], items := [],
         effects := [Post ''logs3'' (constructLogs3Data (example_env http_ok) [''first'']),
                     Post ''logs3'' (constructLogs3Data (example_env http_ok) [''late''])]\<rparr>)"
  by (simp add: eval_defs)

lemma flush_run_eval:
  "flushOnce_run (example_env http_ok) [late_arrival] (flushing_logger [Inr ''first'']) =
     (Inr QueueEmpty,
      (BackgroundLogger no_env_options)
        \<lparr>activeFlushResolved := False, flushing := [Inr ''late''], items := [],
         effects := [Post ''logs3'' (constructLogs3Data (example_env http_ok) [''first'']),
                     Post ''logs3'' (constructLogs3Data (example_env http_ok) [''late''])]\<rparr>)"
  apply (subst flushOnce_run.simps)
  apply (simp add: first_pass_eval)
  apply (subst flushOnce_run.simps)
  apply (simp add: second_pass_eval)
  done

lemma flush_pass_arrivals_any:
  assumes "\<not> activeFlushResolved bg" and "queueDropExceedingMaxsize bg = None"
    and "flush_pass env script bg = (r, bg1)"
  shows "items bg1 =
           items bg @ concat (map snd (during_resolve script)) @
           (if reached_submissions env bg then concat (map snd (during_submit script)) else [])"
proof -
  let ?b1 = "apply_log_calls (during_resolve script) bg"
  obtain u tr where u: "unwrapLazyValues env bg (flushing bg) = (u, tr)"
    by (cases "unwrapLazyValues env bg (flushing bg)")
  from apply_log_calls_unbounded[OF assms(1,2), of "during_resolve script"]
  have a1: "items ?b1 = items bg @ concat (map snd (during_resolve script))"
    and a2: "\<not> activeFlushResolved (emit tr ?b1)"
    and a3: "queueDropExceedingMaxsize (emit tr ?b1) = None" by simp_all
  from apply_log_calls_unbounded[OF a2 a3, of "during_submit script"]
  have b1: "items (apply_log_calls (during_submit script) (emit tr ?b1)) =
              items bg @ concat (map snd (during_resolve script)) @ concat (map snd (during_submit script))"
    using a1 by simp
  show ?thesis using assms(3) u a1 b1
    by (auto simp: flush_pass_def reached_submissions_def Let_def
        split: sum.splits if_splits prod.splits)
qed

lemma flush_pass_early:
  "fst (flush_pass env script bg) = PassNothingToFlush \<longleftrightarrow>
   fst (unwrapLazyValues env bg (flushing bg)) = Inr []"
  by (cases "unwrapLazyValues env bg (flushing bg)")
     (auto simp: flush_pass_def Let_def split: sum.splits if_splits prod.splits)

lemma flushOnce_run_done:
  assumes "flush_pass env (case scripts of [] \<Rightarrow> quiet_pass | s # later \<Rightarrow> s) bg = (PassSubmitted, bg1)"
    and "items bg1 = []"
  shows "flushOnce_run env scripts bg = (Inr QueueEmpty, bg1)"
  using assms by (subst flushOnce_run.simps) simp

lemma flushOnce_run_nothing:
  assumes "flush_pass env (case scripts of [] \<Rightarrow> quiet_pass | s # later \<Rightarrow> s) bg =
             (PassNothingToFlush, bg1)"
  shows "flushOnce_run env scripts bg = (Inr NothingToFlush, bg1)"
  using assms by (subst flushOnce_run.simps) simp

lemma flushOnce_run_threw:
  assumes "flush_pass env (case scripts of [] \<Rightarrow> quiet_pass | s # later \<Rightarrow> s) bg = (PassThrew e, bg1)"
  shows "flushOnce_run env scripts bg = (Inl e, bg1)"
  using assms by (subst flushOnce_run.simps) simp

lemma empty_pass_eval:
  "flush_pass (example_env http_ok) late_arrival (flushing_logger []) =
     (PassNothingToFlush,
      (BackgroundLogger no_env_options)
        \<lparr>activeFlushResolved := False, flushing := [], items := [Inr ''late'']\<rparr>)"
  by (simp add: flushing_logger_eval eval_defs)

lemma offline_pass_eval:
  "flush_pass offline_env late_arrival (flushing_logger [Inr ''first'']) =
     (PassThrew (AggregateError [Thrown ''not logged in'']),
      (BackgroundLogger no_env_options)
        \<lparr>activeFlushResolved := False, flushing := [Inr ''first''], items := [Inr ''late'']\<rparr>)"
  by (simp add: flushing_logger_eval eval_defs offline_env_def)

text \<open>
  C8, as amended. Every pass of a flush begins by moving the whole queue into a local list
  and putting a fresh empty queue in its place. A call of \<^verbatim>\<open>log\<close> during a flush in
  progress appends what it accepts to that new queue, leaves the list being flushed alone
  and starts no second flush; with no queue bound, every pass, however it ends, leaves in
  the queue exactly the records logged while it ran, in order: those logged while the
  records were resolved and, if the pass reached its submissions, those logged during
  them. After a pass that made its submissions without an error the queue is tested: if
  it is not empty the flush goes on with a further pass that drains it, else the flush
  returns; so a flush that returns past that test returns with the queue empty. A pass
  whose records resolve to nothing (none were queued, or their resolution failed and they
  were dropped) ends the flush at once, and a pass that throws ends it with that error,
  in both cases without the test and with the records logged meanwhile still in the
  queue.
\<close>

theorem flush_until_empty:
  "flushing (drain_queue bg) = items bg \<and> items (drain_queue bg) = [] \<and>
   (\<not> activeFlushResolved bg \<longrightarrow>
      items (bg_log t batch bg) = items bg @ fst (log_split bg batch) \<and>
      flushing (bg_log t batch bg) = flushing bg \<and>
      \<not> activeFlushResolved (bg_log t batch bg)) \<and>
   (\<not> activeFlushResolved bg \<and> queueDropExceedingMaxsize bg = None \<and>
    flush_pass env script bg = (PassSubmitted, bga) \<longrightarrow>
      items bga = items bg @ concat (map snd (during_resolve script @ during_submit script))) \<and>
   (\<not> activeFlushResolved bg \<and> queueDropExceedingMaxsize bg = None \<and>
    flush_pass env script bg = (pend, bgf) \<longrightarrow>
      items bgf =
        items bg @ concat (map snd (during_resolve script)) @
        (if reached_submissions env bg then concat (map snd (during_submit script)) else [])) \<and>
   (fst (flush_pass env script bg) = PassNothingToFlush \<longleftrightarrow>
      fst (unwrapLazyValues env bg (flushing bg)) = Inr []) \<and>
   (flush_pass env (case scripts of [] \<Rightarrow> quiet_pass | s # later \<Rightarrow> s) bg = (PassSubmitted, bgb) \<and>
    items bgb \<noteq> [] \<longrightarrow>
      flushOnce_run env scripts bg = flushOnce_run env (tl scripts) (drain_queue bgb)) \<and>
   (flush_pass env (case scripts of [] \<Rightarrow> quiet_pass | s # later \<Rightarrow> s) bg = (PassSubmitted, bge) \<and>
    items bge = [] \<longrightarrow>
      flushOnce_run env scripts bg = (Inr QueueEmpty, bge)) \<and>
   (flush_pass env (case scripts of [] \<Rightarrow> quiet_pass | s # later \<Rightarrow> s) bg =
      (PassNothingToFlush, bgd) \<longrightarrow>
      flushOnce_run env scripts bg = (Inr NothingToFlush, bgd)) \<and>
   (flush_pass env (case scripts of [] \<Rightarrow> quiet_pass | s # later \<Rightarrow> s) bg = (PassThrew e, bgc) \<longrightarrow>
      flushOnce_run env scripts bg = (Inl e, bgc)) \<and>
   (flushOnce_run env scripts bg = (Inr QueueEmpty, bg') \<longrightarrow> items bg' = []) \<and>
   (flushOnce env scripts bg = (Inr QueueEmpty, bg') \<longrightarrow> items bg' = [])"
proof (intro conjI impI)
  show "flushing (drain_queue bg) = items bg" and "items (drain_queue bg) = []"
    by (simp_all add: drain_queue_def)
next
  assume a: "\<not> activeFlushResolved bg"
  from bg_log_in_flight[OF a, of t batch]
  show "items (bg_log t batch bg) = items bg @ fst (log_split bg batch)"
    and "flushing (bg_log t batch bg) = flushing bg"
    and "\<not> activeFlushResolved (bg_log t batch bg)" by simp_all
next
  assume "\<not> activeFlushResolved bg \<and> queueDropExceedingMaxsize bg = None \<and>
    flush_pass env script bg = (PassSubmitted, bga)"
  then show "items bga = items bg @ concat (map snd (during_resolve script @ during_submit script))"
    using flush_pass_arrivals by blast
next
  assume "\<not> activeFlushResolved bg \<and> queueDropExceedingMaxsize bg = None \<and>
    flush_pass env script bg = (pend, bgf)"
  then show "items bgf =
        items bg @ concat (map snd (during_resolve script)) @
        (if reached_submissions env bg then concat (map snd (during_submit script)) else [])"
    using flush_pass_arrivals_any by blast
next
  show "fst (flush_pass env script bg) = PassNothingToFlush \<longleftrightarrow>
      fst (unwrapLazyValues env bg (flushing bg)) = Inr []"
    by (rule flush_pass_early)
next
  assume "flush_pass env (case scripts of [] \<Rightarrow> quiet_pass | s # later \<Rightarrow> s) bg = (PassSubmitted, bgb) \<and>
    items bgb \<noteq> []"
  then show "flushOnce_run env scripts bg = flushOnce_run env (tl scripts) (drain_queue bgb)"
    using flushOnce_run_again by blast
next
  assume "flush_pass env (case scripts of [] \<Rightarrow> quiet_pass | s # later \<Rightarrow> s) bg = (PassSubmitted, bge) \<and>
    items bge = []"
  then show "flushOnce_run env scripts bg = (Inr QueueEmpty, bge)"
    using flushOnce_run_done by blast
next
  assume "flush_pass env (case scripts of [] \<Rightarrow> quiet_pass | s # later \<Rightarrow> s) bg =
      (PassNothingToFlush, bgd)"
  then show "flushOnce_run env scripts bg = (Inr NothingToFlush, bgd)"
    by (rule flushOnce_run_nothing)
next
  assume "flush_pass env (case scripts of [] \<Rightarrow> quiet_pass | s # later \<Rightarrow> s) bg = (PassThrew e, bgc)"
  then show "flushOnce_run env scripts bg = (Inl e, bgc)"
    by (rule flushOnce_run_threw)
next
  assume "flushOnce_run env scripts bg = (Inr QueueEmpty, bg')"
  then show "items bg' = []" by (rule flushOnce_run_queue_empty)
next
  assume "flushOnce env scripts bg = (Inr QueueEmpty, bg')"
  then show "items bg' = []" unfolding flushOnce_def by (rule flushOnce_run_queue_empty)
qed

text \<open>
  The theorem at work on the default logger, which holds one record to flush while one
  more is logged during the pass. With a transport that accepts every post the first pass
  leaves the late record in the queue, a second pass flushes it, and the flush returns
  with the queue empty after two posts. Started on an empty queue, the flush returns at
  once and the late record stays in the queue. Without a connection the pass throws, the
  flush ends with that error, and the late record stays in the queue.
\<close>

theorem flush_until_empty_witness:
  "\<not> activeFlushResolved (flushing_logger [Inr ''first'']) \<and>
   queueDropExceedingMaxsize (flushing_logger [Inr ''first'']) = None \<and>
   fst (flush_pass (example_env http_ok) late_arrival (flushing_logger [Inr ''first''])) =
     PassSubmitted \<and>
   items (snd (flush_pass (example_env http_ok) late_arrival (flushing_logger [Inr ''first'']))) =
     [Inr ''late''] \<and>
   items (bg_log 1001 [Inr ''late''] (flushing_logger [Inr ''first''])) = [Inr ''late''] \<and>
   flushing (bg_log 1001 [Inr ''late''] (flushing_logger [Inr ''first''])) = [Inr ''first''] \<and>
   fst (flushOnce_run (example_env http_ok) [late_arrival] (flushing_logger [Inr ''first''])) =
     Inr QueueEmpty \<and>
   items (snd (flushOnce_run (example_env http_ok) [late_arrival]
     (flushing_logger [Inr ''first'']))) = [] \<and>
   posts (effects (snd (flushOnce_run (example_env http_ok) [late_arrival]
     (flushing_logger [Inr ''first''])))) =
     [(''logs3'', constructLogs3Data (example_env http_ok) [''first'']),
      (''logs3'', constructLogs3Data (example_env http_ok) [''late''])] \<and>
   fst (unwrapLazyValues (example_env http_ok) (flushing_logger [])
     (flushing (flushing_logger []))) = Inr [] \<and>
   fst (flushOnce_run (example_env http_ok) [late_arrival] (flushing_logger [])) =
     Inr NothingToFlush \<and>
   items (snd (flushOnce_run (example_env http_ok) [late_arrival] (flushing_logger []))) =
     [Inr ''late''] \<and>
   fst (flushOnce_run offline_env [late_arrival] (flushing_logger [Inr ''first''])) =
     Inl (AggregateError [Thrown ''not logged in'']) \<and>
   items (snd (flushOnce_run offline_env [late_arrival] (flushing_logger [Inr ''first'']))) =
     [Inr ''late'']"
proof -
  let ?bg = "flushing_logger [Inr ''first'']"
  let ?idle = "flushing_logger []"
  let ?env = "example_env http_ok"
  let ?second = "drain_queue (snd (flush_pass ?env late_arrival ?bg))"
  have h: "\<not> activeFlushResolved ?bg" "queueDropExceedingMaxsize ?bg = None" "items ?bg = []"
    "flushing ?bg = [Inr ''first'']"
    by (simp_all add: flushing_logger_eval BackgroundLogger_def no_env_options_def)
  have h0: "\<not> activeFlushResolved ?idle" "queueDropExceedingMaxsize ?idle = None" "items ?idle = []"
    by (simp_all add: flushing_logger_eval BackgroundLogger_def no_env_options_def)
  have sp: "fst (log_split ?bg [Inr ''late'']) = [Inr ''late'']"
    using h by (simp add: log_split_def)
  have p: "flush_pass ?env late_arrival ?bg =
             (PassSubmitted, snd (flush_pass ?env late_arrival ?bg))"
    by (simp add: first_pass_eval)
  have p2: "flush_pass ?env quiet_pass ?second = (PassSubmitted, snd (flush_pass ?env quiet_pass ?second))"
    "items (snd (flush_pass ?env quiet_pass ?second)) = []"
    "posts (effects (snd (flush_pass ?env quiet_pass ?second))) =
       [(''logs3'', constructLogs3Data ?env [''first'']),
        (''logs3'', constructLogs3Data ?env [''late''])]"
    by (simp_all add: first_pass_eval second_pass_eval)
  have p0: "flush_pass ?env late_arrival ?idle =
             (PassNothingToFlush, snd (flush_pass ?env late_arrival ?idle))"
    by (simp add: empty_pass_eval)
  have po: "flush_pass offline_env late_arrival ?bg =
             (PassThrew (AggregateError [Thrown ''not logged in'']),
              snd (flush_pass offline_env late_arrival ?bg))"
    by (simp add: offline_pass_eval)
  have d: "concat (map snd (during_resolve late_arrival)) = [Inr ''late'']"
    "concat (map snd (during_submit late_arrival)) = []"
    by (simp_all add: late_arrival_def)
  have hd: "(case [late_arrival] of [] \<Rightarrow> quiet_pass | s # later \<Rightarrow> s) = late_arrival"
    "(case tl [late_arrival] of [] \<Rightarrow> quiet_pass | s # later \<Rightarrow> s) = quiet_pass"
    by simp_all
  note first = flush_until_empty[where bg = ?bg and env = ?env and script = late_arrival
      and bga = "snd (flush_pass ?env late_arrival ?bg)" and scripts = "[late_arrival]"
      and bgb = "snd (flush_pass ?env late_arrival ?bg)" and t = 1001
      and batch = "[Inr ''late'']"]
  from first h p sp d
  have 1: "items (snd (flush_pass ?env late_arrival ?bg)) = [Inr ''late'']"
    and 2: "items (bg_log 1001 [Inr ''late''] ?bg) = [Inr ''late'']"
    and 3: "flushing (bg_log 1001 [Inr ''late''] ?bg) = [Inr ''first'']"
    by simp_all
  from first p 1 hd
  have again: "flushOnce_run ?env [late_arrival] ?bg = flushOnce_run ?env [] ?second"
    by simp
  from flush_until_empty[where bg = ?second and env = ?env and scripts = "[]"
      and bge = "snd (flush_pass ?env quiet_pass ?second)"] p2
  have fin: "flushOnce_run ?env [] ?second = (Inr QueueEmpty, snd (flush_pass ?env quiet_pass ?second))"
    by simp
  from flush_until_empty[where bg = ?bg and env = ?env and scripts = "[late_arrival]"
      and bg' = "snd (flush_pass ?env quiet_pass ?second)"] again fin
  have 4: "items (snd (flushOnce_run ?env [late_arrival] ?bg)) = []"
    by simp
  have 5: "fst (flushOnce_run ?env [late_arrival] ?bg) = Inr QueueEmpty"
    and 6: "posts (effects (snd (flushOnce_run ?env [late_arrival] ?bg))) =
       [(''logs3'', constructLogs3Data ?env [''first'']),
        (''logs3'', constructLogs3Data ?env [''late''])]"
    using again fin p2 by simp_all
  have p0f: "fst (flush_pass ?env late_arrival ?idle) = PassNothingToFlush"
    by (simp add: empty_pass_eval)
  note empty = flush_until_empty[where bg = ?idle and env = ?env and script = late_arrival
      and scripts = "[late_arrival]" and pend = PassNothingToFlush
      and bgf = "snd (flush_pass ?env late_arrival ?idle)"
      and bgd = "snd (flush_pass ?env late_arrival ?idle)"
      and t = 0 and batch = "[]" and bga = ?idle and bgb = ?idle and bge = ?idle
      and e = NotIterable and bgc = ?idle and bg' = ?idle]
  from empty p0f
  have 7: "fst (unwrapLazyValues ?env ?idle (flushing ?idle)) = Inr []"
    by blast
  then have nr: "\<not> reached_submissions ?env ?idle" by (simp add: reached_submissions_def)
  from empty p0 h0 d nr hd
  have 8: "flushOnce_run ?env [late_arrival] ?idle =
             (Inr NothingToFlush, snd (flush_pass ?env late_arrival ?idle))"
    and 9: "items (snd (flush_pass ?env late_arrival ?idle)) = [Inr ''late'']"
    by simp_all
  note offline = flush_until_empty[where bg = ?bg and env = offline_env and script = late_arrival
      and scripts = "[late_arrival]" and pend = "PassThrew (AggregateError [Thrown ''not logged in''])"
      and e = "AggregateError [Thrown ''not logged in'']"
      and bgf = "snd (flush_pass offline_env late_arrival ?bg)"
      and bgc = "snd (flush_pass offline_env late_arrival ?bg)"
      and t = 0 and batch = "[]" and bga = ?idle and bgb = ?idle and bge = ?idle
      and bgd = ?idle and bg' = ?idle]
  from offline po h d hd
  have 10: "flushOnce_run offline_env [late_arrival] ?bg =
             (Inl (AggregateError [Thrown ''not logged in'']),
              snd (flush_pass offline_env late_arrival ?bg))"
    and 11: "items (snd (flush_pass offline_env late_arrival ?bg)) = [Inr ''late'']"
    by simp_all
  have 0: "fst (flush_pass ?env late_arrival ?bg) = PassSubmitted" by (simp add: first_pass_eval)
  from 0 1 2 3 4 5 6 7 8 9 10 11 h show ?thesis by simp
qed

text \<open>
  The claim C8 as it was stated fails where the drained records are dropped: the default
  logger holds one record whose resolution fails, and one more record is logged while the
  tries go on. The flush returns without an error, it counts as resolved and \<^verbatim>\<open>flush()\<close>
  returns, and the queue holds the late record; the queue was not empty when it was
  drained and is not empty at the end.
\<close>

theorem flush_early_return_counterexample:
  "flushing (flushing_logger [Inl (Thrown ''boom'')]) = [Inl (Thrown ''boom'')] \<and>
   fst (flushOnce_run (example_env http_ok) [late_arrival] (flushing_logger [Inl (Thrown ''boom'')])) =
     Inr NothingToFlush \<and>
   items (snd (flushOnce_run (example_env http_ok) [late_arrival]
     (flushing_logger [Inl (Thrown ''boom'')]))) = [Inr ''late''] \<and>
   activeFlushResolved (activeFlush_settle (example_env http_ok) [late_arrival]
     (flushing_logger [Inl (Thrown ''boom'')])) \<and>
   fst (bg_flush (example_env http_ok) [late_arrival] (flushing_logger [Inl (Thrown ''boom'')])) =
     Inr () \<and>
   items (snd (bg_flush (example_env http_ok) [late_arrival]
     (flushing_logger [Inl (Thrown ''boom'')]))) = [Inr ''late'']"
proof -
  let ?bg = "flushing_logger [Inl (Thrown ''boom'')]"
  let ?env = "example_env http_ok"
  have p: "fst (flush_pass ?env late_arrival ?bg) = PassNothingToFlush"
    "items (snd (flush_pass ?env late_arrival ?bg)) = [Inr ''late'']"
    "activeFlushError (snd (flush_pass ?env late_arrival ?bg)) = None"
    by (simp_all add: flushing_logger_eval eval_defs)
  have r: "flushOnce_run ?env [late_arrival] ?bg =
             (Inr NothingToFlush, snd (flush_pass ?env late_arrival ?bg))"
    using p(1) by (subst flushOnce_run.simps) (simp add: case_prod_beta)
  have f: "flushing ?bg = [Inl (Thrown ''boom'')]" "\<not> syncFlush ?bg" "\<not> activeFlushResolved ?bg"
    by (simp_all add: flushing_logger_eval BackgroundLogger_def no_env_options_def)
  show ?thesis using p r f by (simp add: activeFlush_settle_def bg_flush_def)
qed

section \<open>Spans\<close>

subsection \<open>What the sanitizer and logInternal leave alone\<close>

lemma sanitize_scores_id:
  "sanitize_scores (e\<lparr>ev_id := x\<rparr>) =
     (case sanitize_scores e of Inl err \<Rightarrow> Inl err | Inr e' \<Rightarrow> Inr (e'\<lparr>ev_id := x\<rparr>))"
  by (cases "check_scores (prop_value (ev_scores e))") (simp_all add: sanitize_scores_def)

lemma sanitize_scores_keeps:
  "sanitize_scores e = Inr e' \<Longrightarrow>
   ev_metrics e' = ev_metrics e \<and> ev_input e' = ev_input e \<and> ev_inputs e' = ev_inputs e \<and>
   ev_tags e' = ev_tags e \<and> ev_id e' = ev_id e"
  by (auto simp: sanitize_scores_def split: if_splits sum.splits)

lemma sanitize_ignores_id:
  "validateAndSanitizeExperimentLogPartialArgs (e\<lparr>ev_id := x\<rparr>) =
     (case validateAndSanitizeExperimentLogPartialArgs e of
        Inl err \<Rightarrow> Inl err
      | Inr e' \<Rightarrow> Inr (e'\<lparr>ev_id := x\<rparr>))"
proof (cases "sanitize_scores e")
  case (Inl err)
  then show ?thesis
    by (simp add: validateAndSanitizeExperimentLogPartialArgs_def sanitize_scores_id)
next
  case (Inr e1)
  have m: "check_metrics (e1\<lparr>ev_id := x\<rparr>) = check_metrics e1"
    by (simp add: check_metrics_def)
  have a: "check_input_alias (e1\<lparr>ev_id := x\<rparr>) = check_input_alias e1"
    by (simp add: check_input_alias_def)
  have t: "check_tags (e1\<lparr>ev_id := x\<rparr>) = check_tags e1"
    by (simp add: check_tags_def)
  have r: "rename_inputs (e1\<lparr>ev_id := x\<rparr>) = (rename_inputs e1)\<lparr>ev_id := x\<rparr>"
    by (simp add: rename_inputs_def)
  show ?thesis
    by (simp add: validateAndSanitizeExperimentLogPartialArgs_def sanitize_scores_id Inr m a t r
        split: sum.splits)
qed

lemma sanitize_empty:
  "validateAndSanitizeExperimentLogPartialArgs empty_event = Inr empty_event"
  by (simp add: validateAndSanitizeExperimentLogPartialArgs_def sanitize_scores_def
      check_metrics_def check_input_alias_def check_tags_def rename_inputs_def empty_event_def)

lemma logInternal_identity:
  assumes "logInternal md t event internalData self w = (r, self', w')"
  shows "sp_id self' = sp_id self \<and> sp_spanId self' = sp_spanId self \<and>
         sp_rootSpanId self' = sp_rootSpanId self \<and> sp_spanParents self' = sp_spanParents self \<and>
         sp_isMerge self' = sp_isMerge self \<and>
         sp_parentObjectType self' = sp_parentObjectType self \<and>
         sp_parentObjectId self' = sp_parentObjectId self \<and>
         sp_parentComputeObjectMetadataArgs self' = sp_parentComputeObjectMetadataArgs self"
  using assms
  by (auto simp: logInternal_def Let_def split: sum.splits if_splits)

lemma logInternal_record:
  assumes "logInternal md t event internalData self w = (Inr u, self', w')"
  shows "\<exists>item. w' = w\<lparr>w_bgLogger := bg_log t [item] (w_bgLogger w)\<rparr> \<and>
           lr_span_id (lz_partialRecord item) = sp_spanId self \<and>
           lr_root_span_id (lz_partialRecord item) = sp_rootSpanId self \<and>
           lr_span_parents (lz_partialRecord item) = sp_spanParents self \<and>
           lr_is_merge (lz_partialRecord item) = sp_isMerge self"
  using assms
  by (auto simp: logInternal_def Let_def split: sum.splits if_splits)

lemma logInternal_throws_nothing_at_root:
  assumes "validateAndSanitizeExperimentLogPartialArgs event = Inr sanitized"
    and "sp_spanParents self = None"
  shows "fst (logInternal md t event internalData self w) = Inr ()"
  using assms by (simp add: logInternal_def Let_def)

lemma SpanImpl_new_identity:
  assumes "SpanImpl_new md amb pargs args drt w = (Inr sp, w')"
  shows "sp_spanId sp = amb_uuid_span amb \<and>
         sp_rootSpanId sp =
           (case pa_parentSpanIds pargs of Some p \<Rightarrow> psi_rootSpanId p | None \<Rightarrow> amb_uuid_span amb) \<and>
         sp_spanParents sp =
           (case pa_parentSpanIds pargs of Some p \<Rightarrow> Some [psi_spanId p] | None \<Rightarrow> None) \<and>
         sp_isMerge sp \<and>
         (\<exists>item. w_bgLogger w' = bg_log (amb_now amb) [item] (w_bgLogger w) \<and>
            lr_span_id (lz_partialRecord item) = sp_spanId sp \<and>
            lr_root_span_id (lz_partialRecord item) = sp_rootSpanId sp \<and>
            lr_span_parents (lz_partialRecord item) = sp_spanParents sp \<and>
            \<not> lr_is_merge (lz_partialRecord item))"
proof -
  define self0 where "self0 =
    \<lparr>sp_isMerge = False,
     sp_loggedEndTime = JUndefined,
     sp_parentObjectType = pa_parentObjectType pargs,
     sp_parentObjectId = pa_parentObjectId pargs,
     sp_parentComputeObjectMetadataArgs = pa_parentComputeObjectMetadataArgs pargs,
     sp_id = coalesce (ev_id (or_default (ssa_event args) empty_event)) (JStr (amb_uuid_row amb)),
     sp_spanId = amb_uuid_span amb,
     sp_rootSpanId =
       (case pa_parentSpanIds pargs of Some p \<Rightarrow> psi_rootSpanId p | None \<Rightarrow> amb_uuid_span amb),
     sp_spanParents =
       (case pa_parentSpanIds pargs of Some p \<Rightarrow> Some [psi_spanId p] | None \<Rightarrow> None)\<rparr>"
  from assms obtain event internalData self1 u where
    l: "logInternal md (amb_now amb) event internalData self0
          (w\<lparr>w_executionCounter := Suc (w_executionCounter w)\<rparr>) = (Inr u, self1, w')"
    and sp: "sp = self1\<lparr>sp_isMerge := True\<rparr>"
    unfolding SpanImpl_new_def Let_def self0_def
    by (auto split: prod.splits sum.splits)
  from logInternal_identity[OF l]
  have i: "sp_spanId self1 = sp_spanId self0" "sp_rootSpanId self1 = sp_rootSpanId self0"
    "sp_spanParents self1 = sp_spanParents self0" by simp_all
  from logInternal_record[OF l] obtain item where
    r: "w' = (w\<lparr>w_executionCounter := Suc (w_executionCounter w)\<rparr>)
              \<lparr>w_bgLogger := bg_log (amb_now amb) [item]
                 (w_bgLogger (w\<lparr>w_executionCounter := Suc (w_executionCounter w)\<rparr>))\<rparr>"
    and f: "lr_span_id (lz_partialRecord item) = sp_spanId self0"
      "lr_root_span_id (lz_partialRecord item) = sp_rootSpanId self0"
      "lr_span_parents (lz_partialRecord item) = sp_spanParents self0"
      "lr_is_merge (lz_partialRecord item) = sp_isMerge self0"
    by blast
  have s0: "sp_spanId self0 = amb_uuid_span amb" "\<not> sp_isMerge self0"
    "sp_rootSpanId self0 =
       (case pa_parentSpanIds pargs of Some p \<Rightarrow> psi_rootSpanId p | None \<Rightarrow> amb_uuid_span amb)"
    "sp_spanParents self0 =
       (case pa_parentSpanIds pargs of Some p \<Rightarrow> Some [psi_spanId p] | None \<Rightarrow> None)"
    by (simp_all add: self0_def)
  have b: "w_bgLogger w' = bg_log (amb_now amb) [item] (w_bgLogger w)" using r by simp
  show ?thesis using sp i f s0 b by auto
qed

lemma span_startSpan_child:
  assumes "span_startSpan fromStr md amb args A w = (Inr B, w')" and "\<not> str_set (ssa_parent args)"
  shows "SpanImpl_new md amb
           \<lparr>pa_parentObjectType = sp_parentObjectType A,
            pa_parentObjectId = sp_parentObjectId A,
            pa_parentComputeObjectMetadataArgs = sp_parentComputeObjectMetadataArgs A,
            pa_parentSpanIds = Some \<lparr>psi_spanId = sp_spanId A, psi_rootSpanId = sp_rootSpanId A\<rparr>\<rparr>
           args None w = (Inr B, w')"
  using assms by (simp add: span_startSpan_def startSpanParentArgs_def Let_def)

subsection \<open>Runs of the examples\<close>

lemma sync_logger_100_fields:
  "items (sync_logger_100 :: 'a bg_logger) = []"
  "syncFlush (sync_logger_100 :: 'a bg_logger)"
  "queueDropExceedingMaxsize (sync_logger_100 :: 'a bg_logger) = Some 100"
  by (simp_all add: sync_logger_100_def BackgroundLogger_def no_env_options_def)

lemma bg_log_sync_room:
  assumes "syncFlush bg" and "queueDropExceedingMaxsize bg = Some m"
    and "int (length (items bg)) < m"
  shows "bg_log t [item] bg = bg\<lparr>items := items bg @ [item]\<rparr>"
  using assms by (simp add: bg_log_def log_split_def Let_def)

lemma root_span_run:
  "\<exists>item. SpanImpl_new keep_new (reads ''row-a'' ''span-a'' 10) no_parent no_start_span_args
            (Some ''task'') quiet_world =
          (Inr span_A, \<lparr>w_bgLogger = sync_logger_100\<lparr>items := [item]\<rparr>, w_executionCounter = 1\<rparr>) \<and>
          lr_span_id (lz_partialRecord item) = ''span-a'' \<and>
          lr_root_span_id (lz_partialRecord item) = ''span-a'' \<and>
          lr_span_parents (lz_partialRecord item) = None \<and>
          ev_metrics (lr_event (lz_partialRecord item)) = Some (JObj [(''start'', JNum 10)])"
  apply (simp add: SpanImpl_new_def Let_def no_start_span_args_def no_parent_def reads_def
      quiet_world_def)
  apply (simp add: logInternal_def sanitize_empty[unfolded empty_event_def, simplified]
      sanitize_ignores_id Let_def empty_event_def)
  apply (simp add: json_event_def bg_log_sync_room sync_logger_100_fields span_A_def)
  apply (intro conjI impI exI)
       apply (rule refl, simp, simp, simp, simp)+
  done

lemma child_span_run:
  assumes "w_bgLogger w = sync_logger_100\<lparr>items := [first]\<rparr>"
  shows "\<exists>item. SpanImpl_new keep_new (reads ''row-b'' ''span-b'' 11) under_A no_start_span_args
            None w =
          (Inr span_B, w\<lparr>w_executionCounter := Suc (w_executionCounter w),
                         w_bgLogger := sync_logger_100\<lparr>items := [first, item]\<rparr>\<rparr>) \<and>
          lr_span_id (lz_partialRecord item) = ''span-b'' \<and>
          lr_root_span_id (lz_partialRecord item) = ''span-a'' \<and>
          lr_span_parents (lz_partialRecord item) = Some [''span-a'']"
  using assms
  apply (simp add: SpanImpl_new_def Let_def no_start_span_args_def under_A_def reads_def)
  apply (simp add: logInternal_def sanitize_empty[unfolded empty_event_def, simplified]
      sanitize_ignores_id Let_def empty_event_def)
  apply (simp add: json_event_def bg_log_sync_room sync_logger_100_fields span_B_def
      caller_context_def)
  apply (intro conjI impI exI)
       apply (rule refl, simp, simp, simp)+
  done

lemma startSpan_under_A:
  "span_startSpan token_of_x md amb no_start_span_args span_A w =
     SpanImpl_new md amb under_A no_start_span_args None w"
  by (simp add: span_startSpan_def startSpanParentArgs_def Let_def no_start_span_args_def
      span_A_def under_A_def)

lemma token_span_run:
  "\<exists>item. span_startSpan token_of_x keep_new (reads ''row-b'' ''span-b'' 11)
            (no_start_span_args\<lparr>ssa_parent := Some ''token-x''\<rparr>) span_A quiet_world =
          (Inr (span_B\<lparr>sp_rootSpanId := ''root-x'', sp_spanParents := Some [''span-x''],
                       sp_parentObjectId :=
                         CheckedAgainstToken OwnerId (projr (token_of_x ''token-x''))\<rparr>),
           \<lparr>w_bgLogger = sync_logger_100\<lparr>items := [item]\<rparr>, w_executionCounter = 1\<rparr>) \<and>
          lr_span_id (lz_partialRecord item) = ''span-b'' \<and>
          lr_root_span_id (lz_partialRecord item) = ''root-x'' \<and>
          lr_span_parents (lz_partialRecord item) = Some [''span-x'']"
  apply (simp add: span_startSpan_def startSpanParentArgs_def Let_def no_start_span_args_def
      span_A_def token_of_x_def spanComponentsToObjectIdLambda_def)
  apply (simp add: SpanImpl_new_def Let_def reads_def quiet_world_def)
  apply (simp add: logInternal_def sanitize_empty[unfolded empty_event_def, simplified]
      sanitize_ignores_id Let_def empty_event_def)
  apply (simp add: json_event_def bg_log_sync_room sync_logger_100_fields span_B_def
      caller_context_def)
  apply (intro conjI impI exI)
       apply (rule refl, simp, simp, simp)+
  done

lemma project_token_run:
  "\<exists>item. span_startSpan token_of_project keep_new (reads ''row-b'' ''span-b'' 11)
            (no_start_span_args\<lparr>ssa_parent := Some ''token-p''\<rparr>) span_A quiet_world =
          (Inr (span_B\<lparr>sp_rootSpanId := ''span-b'', sp_spanParents := None,
                       sp_parentObjectId :=
                         CheckedAgainstToken OwnerId (projr (token_of_project ''token-p''))\<rparr>),
           \<lparr>w_bgLogger = sync_logger_100\<lparr>items := [item]\<rparr>, w_executionCounter = 1\<rparr>) \<and>
          lr_span_id (lz_partialRecord item) = ''span-b'' \<and>
          lr_root_span_id (lz_partialRecord item) = ''span-b'' \<and>
          lr_span_parents (lz_partialRecord item) = None"
  apply (simp add: span_startSpan_def startSpanParentArgs_def Let_def no_start_span_args_def
      span_A_def token_of_project_def spanComponentsToObjectIdLambda_def)
  apply (simp add: SpanImpl_new_def Let_def reads_def quiet_world_def)
  apply (simp add: logInternal_def sanitize_empty[unfolded empty_event_def, simplified]
      sanitize_ignores_id Let_def empty_event_def)
  apply (simp add: json_event_def bg_log_sync_room sync_logger_100_fields span_B_def
      caller_context_def)
  apply (intro conjI impI exI)
       apply (rule refl, simp, simp, simp)+
  done

text \<open>
  \<^verbatim>\<open>A.startSpan\<close> with a \<^verbatim>\<open>parent\<close> token: the token decodes, names the object type of
  \<^verbatim>\<open>A\<close>, and the constructor gets the span ids of the token's row ids, if it has any.
\<close>

lemma span_startSpan_token:
  assumes "span_startSpan fromStr md amb args A w = (Inr B, w')" and "str_set (ssa_parent args)"
  shows "\<exists>comps. fromStr (the (ssa_parent args)) = Inr comps \<and>
           comp_objectType comps = sp_parentObjectType A \<and>
           SpanImpl_new md amb
             \<lparr>pa_parentObjectType = sp_parentObjectType A,
              pa_parentObjectId = CheckedAgainstToken (sp_parentObjectId A) comps,
              pa_parentComputeObjectMetadataArgs = sp_parentComputeObjectMetadataArgs A,
              pa_parentSpanIds =
                (case comp_rowIds comps of
                   None \<Rightarrow> None
                 | Some r \<Rightarrow> Some \<lparr>psi_spanId = row_spanId r, psi_rootSpanId = row_rootSpanId r\<rparr>)\<rparr>
             args None w = (Inr B, w')"
  using assms
  by (auto simp: span_startSpan_def startSpanParentArgs_def Let_def split: sum.splits if_splits)

lemma span_startSpan_token_identity:
  assumes "span_startSpan fromStr md amb args A w = (Inr B, w')" and "str_set (ssa_parent args)"
  shows "\<exists>comps. fromStr (the (ssa_parent args)) = Inr comps \<and>
           comp_objectType comps = sp_parentObjectType A \<and>
           (comp_rowIds comps = None \<longrightarrow>
              sp_spanParents B = None \<and> sp_rootSpanId B = sp_spanId B) \<and>
           (\<forall>r. comp_rowIds comps = Some r \<longrightarrow>
              sp_rootSpanId B = row_rootSpanId r \<and> sp_spanParents B = Some [row_spanId r]) \<and>
           (\<exists>item. w_bgLogger w' = bg_log (amb_now amb) [item] (w_bgLogger w) \<and>
              lr_root_span_id (lz_partialRecord item) = sp_rootSpanId B \<and>
              lr_span_parents (lz_partialRecord item) = sp_spanParents B)"
proof -
  from span_startSpan_token[OF assms] obtain comps where
    d: "fromStr (the (ssa_parent args)) = Inr comps"
    and t: "comp_objectType comps = sp_parentObjectType A"
    and n: "SpanImpl_new md amb
             \<lparr>pa_parentObjectType = sp_parentObjectType A,
              pa_parentObjectId = CheckedAgainstToken (sp_parentObjectId A) comps,
              pa_parentComputeObjectMetadataArgs = sp_parentComputeObjectMetadataArgs A,
              pa_parentSpanIds =
                (case comp_rowIds comps of
                   None \<Rightarrow> None
                 | Some r \<Rightarrow> Some \<lparr>psi_spanId = row_spanId r, psi_rootSpanId = row_rootSpanId r\<rparr>)\<rparr>
             args None w = (Inr B, w')"
    by blast
  note i = SpanImpl_new_identity[OF n]
  have 1: "comp_rowIds comps = None \<longrightarrow> sp_spanParents B = None \<and> sp_rootSpanId B = sp_spanId B"
    using i by simp
  have 2: "\<forall>r. comp_rowIds comps = Some r \<longrightarrow>
              sp_rootSpanId B = row_rootSpanId r \<and> sp_spanParents B = Some [row_spanId r]"
    using i by simp
  have 3: "\<exists>item. w_bgLogger w' = bg_log (amb_now amb) [item] (w_bgLogger w) \<and>
              lr_root_span_id (lz_partialRecord item) = sp_rootSpanId B \<and>
              lr_span_parents (lz_partialRecord item) = sp_spanParents B"
    using i by blast
  show ?thesis by (intro exI[of _ comps] conjI d t 1 2 3)
qed

subsection \<open>The identity of a span\<close>

text \<open>
  C2, as amended. For every span the constructor of \<^verbatim>\<open>SpanImpl\<close> makes: its
  \<^verbatim>\<open>span_parents\<close> are absent exactly when it was made without parent span ids (it is a
  root); a root has \<^verbatim>\<open>root_span_id\<close> equal to its \<^verbatim>\<open>span_id\<close>; a span made with parent
  span ids \<open>p\<close> has the root of \<open>p\<close> as \<^verbatim>\<open>root_span_id\<close> and the one-element list of the
  span id of \<open>p\<close> as \<^verbatim>\<open>span_parents\<close>, and its \<^verbatim>\<open>root_span_id\<close> differs from its
  \<^verbatim>\<open>span_id\<close> when the identifier generated for it is not the root's; and the record
  the constructor queues, which is not a merge, carries these three fields. For every
  span \<^verbatim>\<open>B\<close> made by \<^verbatim>\<open>A.startSpan\<close> with no \<^verbatim>\<open>parent\<close> argument, \<^verbatim>\<open>B\<close> and its record
  carry the \<^verbatim>\<open>root_span_id\<close> of \<^verbatim>\<open>A\<close> and \<^verbatim>\<open>span_parents\<close> equal to the one-element list
  of the \<^verbatim>\<open>span_id\<close> of \<^verbatim>\<open>A\<close>. For every span \<^verbatim>\<open>B\<close> made by \<^verbatim>\<open>A.startSpan\<close> with a
  \<^verbatim>\<open>parent\<close> token, the token decodes and names the object type of \<^verbatim>\<open>A\<close>, and \<^verbatim>\<open>B\<close> is
  attached to the span the token names: it and its record carry the \<^verbatim>\<open>root_span_id\<close> of
  the token's row ids and \<^verbatim>\<open>span_parents\<close> equal to the one-element list of their
  \<^verbatim>\<open>span_id\<close>; if the token has no row ids, \<^verbatim>\<open>B\<close> is a root.
\<close>

theorem span_identity:
  "(SpanImpl_new md amb pargs args drt w = (Inr sp, w') \<longrightarrow>
      (sp_spanParents sp = None \<longleftrightarrow> pa_parentSpanIds pargs = None) \<and>
      (pa_parentSpanIds pargs = None \<longrightarrow> sp_rootSpanId sp = sp_spanId sp) \<and>
      (\<forall>p. pa_parentSpanIds pargs = Some p \<longrightarrow>
           sp_rootSpanId sp = psi_rootSpanId p \<and> sp_spanParents sp = Some [psi_spanId p] \<and>
           (amb_uuid_span amb \<noteq> psi_rootSpanId p \<longrightarrow> sp_rootSpanId sp \<noteq> sp_spanId sp)) \<and>
      (\<exists>item. w_bgLogger w' = bg_log (amb_now amb) [item] (w_bgLogger w) \<and>
         lr_span_id (lz_partialRecord item) = sp_spanId sp \<and>
         lr_root_span_id (lz_partialRecord item) = sp_rootSpanId sp \<and>
         lr_span_parents (lz_partialRecord item) = sp_spanParents sp \<and>
         \<not> lr_is_merge (lz_partialRecord item))) \<and>
   (span_startSpan fromStr md amb args A w = (Inr B, w') \<and> \<not> str_set (ssa_parent args) \<longrightarrow>
      sp_rootSpanId B = sp_rootSpanId A \<and> sp_spanParents B = Some [sp_spanId A] \<and>
      (\<exists>item. w_bgLogger w' = bg_log (amb_now amb) [item] (w_bgLogger w) \<and>
         lr_root_span_id (lz_partialRecord item) = sp_rootSpanId A \<and>
         lr_span_parents (lz_partialRecord item) = Some [sp_spanId A])) \<and>
   (span_startSpan fromStr md amb args A w = (Inr B, w') \<and> str_set (ssa_parent args) \<longrightarrow>
      (\<exists>comps. fromStr (the (ssa_parent args)) = Inr comps \<and>
         comp_objectType comps = sp_parentObjectType A \<and>
         (comp_rowIds comps = None \<longrightarrow>
            sp_spanParents B = None \<and> sp_rootSpanId B = sp_spanId B) \<and>
         (\<forall>r. comp_rowIds comps = Some r \<longrightarrow>
            sp_rootSpanId B = row_rootSpanId r \<and> sp_spanParents B = Some [row_spanId r]) \<and>
         (\<exists>item. w_bgLogger w' = bg_log (amb_now amb) [item] (w_bgLogger w) \<and>
            lr_root_span_id (lz_partialRecord item) = sp_rootSpanId B \<and>
            lr_span_parents (lz_partialRecord item) = sp_spanParents B)))"
proof (intro conjI impI)
  assume a: "SpanImpl_new md amb pargs args drt w = (Inr sp, w')"
  note i = SpanImpl_new_identity[OF a]
  show "sp_spanParents sp = None \<longleftrightarrow> pa_parentSpanIds pargs = None"
    using i by (auto split: option.splits)
  show "sp_rootSpanId sp = sp_spanId sp" if "pa_parentSpanIds pargs = None"
    using i that by simp
  show "\<forall>p. pa_parentSpanIds pargs = Some p \<longrightarrow>
           sp_rootSpanId sp = psi_rootSpanId p \<and> sp_spanParents sp = Some [psi_spanId p] \<and>
           (amb_uuid_span amb \<noteq> psi_rootSpanId p \<longrightarrow> sp_rootSpanId sp \<noteq> sp_spanId sp)"
    using i by auto
  show "\<exists>item. w_bgLogger w' = bg_log (amb_now amb) [item] (w_bgLogger w) \<and>
         lr_span_id (lz_partialRecord item) = sp_spanId sp \<and>
         lr_root_span_id (lz_partialRecord item) = sp_rootSpanId sp \<and>
         lr_span_parents (lz_partialRecord item) = sp_spanParents sp \<and>
         \<not> lr_is_merge (lz_partialRecord item)"
    using i by blast
next
  assume a: "span_startSpan fromStr md amb args A w = (Inr B, w') \<and> \<not> str_set (ssa_parent args)"
  then have n: "SpanImpl_new md amb
           \<lparr>pa_parentObjectType = sp_parentObjectType A,
            pa_parentObjectId = sp_parentObjectId A,
            pa_parentComputeObjectMetadataArgs = sp_parentComputeObjectMetadataArgs A,
            pa_parentSpanIds = Some \<lparr>psi_spanId = sp_spanId A, psi_rootSpanId = sp_rootSpanId A\<rparr>\<rparr>
           args None w = (Inr B, w')"
    using span_startSpan_child by blast
  note i = SpanImpl_new_identity[OF n]
  show "sp_rootSpanId B = sp_rootSpanId A" using i by simp
  show "sp_spanParents B = Some [sp_spanId A]" using i by simp
  show "\<exists>item. w_bgLogger w' = bg_log (amb_now amb) [item] (w_bgLogger w) \<and>
         lr_root_span_id (lz_partialRecord item) = sp_rootSpanId A \<and>
         lr_span_parents (lz_partialRecord item) = Some [sp_spanId A]"
    using i by auto
next
  assume "span_startSpan fromStr md amb args A w = (Inr B, w') \<and> str_set (ssa_parent args)"
  then show "\<exists>comps. fromStr (the (ssa_parent args)) = Inr comps \<and>
         comp_objectType comps = sp_parentObjectType A \<and>
         (comp_rowIds comps = None \<longrightarrow>
            sp_spanParents B = None \<and> sp_rootSpanId B = sp_spanId B) \<and>
         (\<forall>r. comp_rowIds comps = Some r \<longrightarrow>
            sp_rootSpanId B = row_rootSpanId r \<and> sp_spanParents B = Some [row_spanId r]) \<and>
         (\<exists>item. w_bgLogger w' = bg_log (amb_now amb) [item] (w_bgLogger w) \<and>
            lr_root_span_id (lz_partialRecord item) = sp_rootSpanId B \<and>
            lr_span_parents (lz_partialRecord item) = sp_spanParents B)"
    using span_startSpan_token_identity by blast
qed

text \<open>
  The theorem at work: the span \<^verbatim>\<open>A\<close> made in the quiet world is a root, with equal
  \<^verbatim>\<open>root_span_id\<close> and \<^verbatim>\<open>span_id\<close>; the span \<^verbatim>\<open>B\<close> made by \<^verbatim>\<open>A.startSpan()\<close> next has
  the root of \<^verbatim>\<open>A\<close>, a \<^verbatim>\<open>span_id\<close> of its own, and \<^verbatim>\<open>A\<close> as its one parent; the queue
  holds the two creation records. The span made by \<^verbatim>\<open>A.startSpan\<close> with the token of \<open>x\<close>
  has the root and the span id of \<open>x\<close> as root and parent, and the one made with a token
  without row ids is a root.
\<close>

theorem span_identity_witness:
  "\<exists>wa wb bx wx bp wp.
     SpanImpl_new keep_new (reads ''row-a'' ''span-a'' 10) no_parent no_start_span_args
       (Some ''task'') quiet_world = (Inr span_A, wa) \<and>
     pa_parentSpanIds no_parent = None \<and>
     sp_spanParents span_A = None \<and> sp_rootSpanId span_A = sp_spanId span_A \<and>
     SpanImpl_new keep_new (reads ''row-b'' ''span-b'' 11) under_A no_start_span_args None wa =
       (Inr span_B, wb) \<and>
     span_startSpan token_of_x keep_new (reads ''row-b'' ''span-b'' 11) no_start_span_args
       span_A wa = (Inr span_B, wb) \<and>
     \<not> str_set (ssa_parent no_start_span_args) \<and>
     pa_parentSpanIds under_A = Some \<lparr>psi_spanId = ''span-a'', psi_rootSpanId = ''span-a''\<rparr> \<and>
     amb_uuid_span (reads ''row-b'' ''span-b'' 11) \<noteq> ''span-a'' \<and>
     sp_rootSpanId span_B \<noteq> sp_spanId span_B \<and>
     sp_rootSpanId span_B = sp_rootSpanId span_A \<and>
     sp_spanParents span_B = Some [sp_spanId span_A] \<and>
     queued_hierarchy wb =
       [(''span-a'', ''span-a'', None), (''span-b'', ''span-a'', Some [''span-a''])] \<and>
     span_startSpan token_of_x keep_new (reads ''row-b'' ''span-b'' 11)
       (no_start_span_args\<lparr>ssa_parent := Some ''token-x''\<rparr>) span_A quiet_world = (Inr bx, wx) \<and>
     str_set (ssa_parent (no_start_span_args\<lparr>ssa_parent := Some ''token-x''\<rparr>)) \<and>
     sp_rootSpanId bx = ''root-x'' \<and> sp_spanParents bx = Some [''span-x''] \<and>
     span_startSpan token_of_project keep_new (reads ''row-b'' ''span-b'' 11)
       (no_start_span_args\<lparr>ssa_parent := Some ''token-p''\<rparr>) span_A quiet_world = (Inr bp, wp) \<and>
     str_set (ssa_parent (no_start_span_args\<lparr>ssa_parent := Some ''token-p''\<rparr>)) \<and>
     sp_spanParents bp = None \<and> sp_rootSpanId bp = sp_spanId bp"
proof -
  from root_span_run obtain first where
    a: "SpanImpl_new keep_new (reads ''row-a'' ''span-a'' 10) no_parent no_start_span_args
          (Some ''task'') quiet_world =
        (Inr span_A, \<lparr>w_bgLogger = sync_logger_100\<lparr>items := [first]\<rparr>, w_executionCounter = 1\<rparr>)"
    and fa: "lr_span_id (lz_partialRecord first) = ''span-a''"
      "lr_root_span_id (lz_partialRecord first) = ''span-a''"
      "lr_span_parents (lz_partialRecord first) = None"
    by blast
  define wa :: world where
    "wa = \<lparr>w_bgLogger = sync_logger_100\<lparr>items := [first]\<rparr>, w_executionCounter = 1\<rparr>"
  have q: "w_bgLogger wa = sync_logger_100\<lparr>items := [first]\<rparr>" by (simp add: wa_def)
  from child_span_run[OF q] obtain item where
    b: "SpanImpl_new keep_new (reads ''row-b'' ''span-b'' 11) under_A no_start_span_args None wa =
          (Inr span_B, wa\<lparr>w_executionCounter := Suc (w_executionCounter wa),
                          w_bgLogger := sync_logger_100\<lparr>items := [first, item]\<rparr>\<rparr>)"
    and fb: "lr_span_id (lz_partialRecord item) = ''span-b''"
      "lr_root_span_id (lz_partialRecord item) = ''span-a''"
      "lr_span_parents (lz_partialRecord item) = Some [''span-a'']"
    by blast
  define wb :: world where
    "wb = wa\<lparr>w_executionCounter := Suc (w_executionCounter wa),
             w_bgLogger := sync_logger_100\<lparr>items := [first, item]\<rparr>\<rparr>"
  have a': "SpanImpl_new keep_new (reads ''row-a'' ''span-a'' 10) no_parent no_start_span_args
          (Some ''task'') quiet_world = (Inr span_A, wa)"
    using a by (simp add: wa_def)
  have b': "SpanImpl_new keep_new (reads ''row-b'' ''span-b'' 11) under_A no_start_span_args
          None wa = (Inr span_B, wb)"
    using b by (simp add: wb_def)
  have c: "span_startSpan token_of_x keep_new (reads ''row-b'' ''span-b'' 11) no_start_span_args
       span_A wa = (Inr span_B, wb)"
    using b' by (simp add: startSpan_under_A)
  have n: "pa_parentSpanIds no_parent = None" by (simp add: no_parent_def)
  have u: "pa_parentSpanIds under_A = Some \<lparr>psi_spanId = ''span-a'', psi_rootSpanId = ''span-a''\<rparr>"
    by (simp add: under_A_def)
  have s: "\<not> str_set (ssa_parent no_start_span_args)" by (simp add: no_start_span_args_def)
  have f: "amb_uuid_span (reads ''row-b'' ''span-b'' 11) \<noteq> ''span-a''" by (simp add: reads_def)
  have h: "queued_hierarchy wb =
       [(''span-a'', ''span-a'', None), (''span-b'', ''span-a'', Some [''span-a''])]"
    by (simp add: queued_hierarchy_def wb_def fa fb)
  from span_identity[where md = keep_new and amb = "reads ''row-a'' ''span-a'' 10"
      and pargs = no_parent and args = no_start_span_args and drt = "Some ''task''"
      and w = quiet_world and sp = span_A and w' = wa] a' n
  have ra: "sp_spanParents span_A = None" "sp_rootSpanId span_A = sp_spanId span_A"
    by blast+
  from span_identity[where md = keep_new and amb = "reads ''row-b'' ''span-b'' 11"
      and pargs = under_A and args = no_start_span_args and drt = None
      and w = wa and sp = span_B and w' = wb and fromStr = token_of_x and A = span_A
      and B = span_B] b' c s u f
  have rb: "sp_rootSpanId span_B \<noteq> sp_spanId span_B" "sp_rootSpanId span_B = sp_rootSpanId span_A"
    "sp_spanParents span_B = Some [sp_spanId span_A]"
    by auto
  from token_span_run obtain bx wx where
    x: "span_startSpan token_of_x keep_new (reads ''row-b'' ''span-b'' 11)
          (no_start_span_args\<lparr>ssa_parent := Some ''token-x''\<rparr>) span_A quiet_world = (Inr bx, wx)"
    by blast
  from project_token_run obtain bp wp where
    p: "span_startSpan token_of_project keep_new (reads ''row-b'' ''span-b'' 11)
          (no_start_span_args\<lparr>ssa_parent := Some ''token-p''\<rparr>) span_A quiet_world = (Inr bp, wp)"
    by blast
  have sx: "str_set (ssa_parent (no_start_span_args\<lparr>ssa_parent := Some ''token-x''\<rparr>))"
    and sq: "str_set (ssa_parent (no_start_span_args\<lparr>ssa_parent := Some ''token-p''\<rparr>))"
    by simp_all
  from span_identity[where md = keep_new and amb = "reads ''row-b'' ''span-b'' 11"
      and pargs = no_parent and args = "no_start_span_args\<lparr>ssa_parent := Some ''token-x''\<rparr>"
      and drt = None and w = quiet_world and sp = span_A and w' = wx and fromStr = token_of_x
      and A = span_A and B = bx] x sx
  have rx: "sp_rootSpanId bx = ''root-x''" "sp_spanParents bx = Some [''span-x'']"
    by (auto simp: token_of_x_def)
  from span_identity[where md = keep_new and amb = "reads ''row-b'' ''span-b'' 11"
      and pargs = no_parent and args = "no_start_span_args\<lparr>ssa_parent := Some ''token-p''\<rparr>"
      and drt = None and w = quiet_world and sp = span_A and w' = wp
      and fromStr = token_of_project and A = span_A and B = bp] p sq
  have rp: "sp_spanParents bp = None" "sp_rootSpanId bp = sp_spanId bp"
    by (auto simp: token_of_project_def)
  show ?thesis
    apply (rule exI[of _ wa])
    apply (rule exI[of _ wb])
    apply (rule exI[of _ bx])
    apply (rule exI[of _ wx])
    apply (rule exI[of _ bp])
    apply (rule exI[of _ wp])
    using a' b' c n u s f h ra rb x p rx rp apply simp
    done
qed

text \<open>
  The claim C2 as it was stated fails for \<^verbatim>\<open>A.startSpan({ parent: token })\<close>: the span
  it makes hangs under the span the token names, here \<open>x\<close>, and neither its
  \<^verbatim>\<open>root_span_id\<close> nor its \<^verbatim>\<open>span_parents\<close> are those of a child of \<^verbatim>\<open>A\<close>.
\<close>

theorem span_parent_token_counterexample:
  "\<exists>B w'. span_startSpan token_of_x keep_new (reads ''row-b'' ''span-b'' 11)
             (no_start_span_args\<lparr>ssa_parent := Some ''token-x''\<rparr>) span_A quiet_world = (Inr B, w') \<and>
     sp_rootSpanId B \<noteq> sp_rootSpanId span_A \<and>
     sp_spanParents B \<noteq> Some [sp_spanId span_A] \<and>
     queued_hierarchy w' = [(''span-b'', ''root-x'', Some [''span-x''])]"
proof -
  from token_span_run obtain item where
    r: "span_startSpan token_of_x keep_new (reads ''row-b'' ''span-b'' 11)
            (no_start_span_args\<lparr>ssa_parent := Some ''token-x''\<rparr>) span_A quiet_world =
          (Inr (span_B\<lparr>sp_rootSpanId := ''root-x'', sp_spanParents := Some [''span-x''],
                       sp_parentObjectId :=
                         CheckedAgainstToken OwnerId (projr (token_of_x ''token-x''))\<rparr>),
           \<lparr>w_bgLogger = sync_logger_100\<lparr>items := [item]\<rparr>, w_executionCounter = 1\<rparr>)"
    and f: "lr_span_id (lz_partialRecord item) = ''span-b''"
      "lr_root_span_id (lz_partialRecord item) = ''root-x''"
      "lr_span_parents (lz_partialRecord item) = Some [''span-x'']"
    by blast
  show ?thesis
    unfolding r
    by (simp add: queued_hierarchy_def f span_A_def)
qed

subsection \<open>Ending a span twice\<close>

lemma span_end_first:
  assumes "\<not> truthy (sp_loggedEndTime self)"
    and "coalesce endTimeArg (JNum (amb_now amb)) = JNum x" and "x \<noteq> 0"
  shows "\<exists>item. span_end md amb endTimeArg self w =
            (Inr (JNum x), self\<lparr>sp_loggedEndTime := JNum x\<rparr>,
             w\<lparr>w_bgLogger := bg_log (amb_now amb) [item] (w_bgLogger w)\<rparr>) \<and>
           ev_metrics (lr_event (lz_partialRecord item)) = Some (JObj [(''end'', JNum x)]) \<and>
           lr_is_merge (lz_partialRecord item) = sp_isMerge self"
  using assms
  apply (simp add: span_end_def logInternal_def sanitize_empty Let_def)
  apply (simp add: json_event_def empty_event_def no_internal_data_def)
  apply (intro conjI impI exI)
       apply (rule refl, simp, simp)+
  done

lemma span_end_again:
  assumes "truthy (sp_loggedEndTime self)"
  shows "\<exists>item. span_end md amb endTimeArg self w =
            (Inr (sp_loggedEndTime self), self,
             w\<lparr>w_bgLogger := bg_log (amb_now amb) [item] (w_bgLogger w)\<rparr>) \<and>
           ev_metrics (lr_event (lz_partialRecord item)) = None \<and>
           lr_is_merge (lz_partialRecord item) = sp_isMerge self"
  using assms
  apply (simp add: span_end_def logInternal_def sanitize_empty Let_def)
  apply (simp add: json_event_def empty_event_def no_internal_data_def)
  apply (intro conjI impI exI)
       apply (rule refl, simp, simp)+
  done

lemma end_of_A:
  "\<not> truthy (sp_loggedEndTime span_A)"
  "coalesce None (JNum (amb_now (reads ''row-c'' ''span-c'' 12))) = JNum 12"
  "(12::rat) \<noteq> 0"
  by (simp_all add: span_A_def reads_def)

text \<open>
  C3, as amended. For every span that has not logged an end time, when the first
  \<^verbatim>\<open>end()\<close> takes the time \<open>x\<close> (the \<^verbatim>\<open>endTime\<close> given, else the clock) and \<open>x\<close> is not 0:
  the first call returns \<open>x\<close> and queues one record whose \<^verbatim>\<open>metrics\<close> are
  \<^verbatim>\<open>{ end: x }\<close>; a second call, whatever its argument and the clock, returns \<open>x\<close> again,
  leaves the span as it is, and queues one more record, which holds no \<^verbatim>\<open>metrics\<close>. So
  exactly one record with \<^verbatim>\<open>metrics.end\<close> is queued, and the second call is not a
  no-op: it queues an empty update of the span.
\<close>

theorem end_twice:
  assumes "\<not> truthy (sp_loggedEndTime self)"
    and "coalesce endTimeArg (JNum (amb_now amb)) = JNum x" and "x \<noteq> 0"
  shows "\<exists>self' w' w'' item item'.
           span_end md amb endTimeArg self w = (Inr (JNum x), self', w') \<and>
           w_bgLogger w' = bg_log (amb_now amb) [item] (w_bgLogger w) \<and>
           ev_metrics (lr_event (lz_partialRecord item)) = Some (JObj [(''end'', JNum x)]) \<and>
           span_end md later laterArg self' w' = (Inr (JNum x), self', w'') \<and>
           w_bgLogger w'' = bg_log (amb_now later) [item'] (w_bgLogger w') \<and>
           ev_metrics (lr_event (lz_partialRecord item')) = None"
proof -
  from span_end_first[OF assms, of md w] obtain item where
    1: "span_end md amb endTimeArg self w =
          (Inr (JNum x), self\<lparr>sp_loggedEndTime := JNum x\<rparr>,
           w\<lparr>w_bgLogger := bg_log (amb_now amb) [item] (w_bgLogger w)\<rparr>)"
    and 2: "ev_metrics (lr_event (lz_partialRecord item)) = Some (JObj [(''end'', JNum x)])"
    by blast
  have t: "truthy (sp_loggedEndTime (self\<lparr>sp_loggedEndTime := JNum x\<rparr>))"
    using assms(3) by simp
  from span_end_again[OF t, of md later laterArg
      "w\<lparr>w_bgLogger := bg_log (amb_now amb) [item] (w_bgLogger w)\<rparr>"]
  obtain item' where
    3: "span_end md later laterArg (self\<lparr>sp_loggedEndTime := JNum x\<rparr>)
          (w\<lparr>w_bgLogger := bg_log (amb_now amb) [item] (w_bgLogger w)\<rparr>) =
          (Inr (JNum x), self\<lparr>sp_loggedEndTime := JNum x\<rparr>,
           w\<lparr>w_bgLogger := bg_log (amb_now later) [item']
                (w_bgLogger (w\<lparr>w_bgLogger := bg_log (amb_now amb) [item] (w_bgLogger w)\<rparr>))\<rparr>)"
    and 4: "ev_metrics (lr_event (lz_partialRecord item')) = None"
    by auto
  show ?thesis
    apply (rule exI[of _ "self\<lparr>sp_loggedEndTime := JNum x\<rparr>"])
    apply (rule exI[of _ "w\<lparr>w_bgLogger := bg_log (amb_now amb) [item] (w_bgLogger w)\<rparr>"])
    apply (rule exI[of _ "w\<lparr>w_bgLogger := bg_log (amb_now later) [item']
                (w_bgLogger (w\<lparr>w_bgLogger := bg_log (amb_now amb) [item] (w_bgLogger w)\<rparr>))\<rparr>"])
    apply (rule exI[of _ item])
    apply (rule exI[of _ item'])
    using 1 2 3 4 apply simp
    done
qed

text \<open>
  The theorem at work on the span \<^verbatim>\<open>A\<close>, ended at time 12 and again at time 13.
\<close>

theorem end_twice_witness:
  "\<not> truthy (sp_loggedEndTime span_A) \<and>
   coalesce None (JNum (amb_now (reads ''row-c'' ''span-c'' 12))) = JNum 12 \<and>
   (12::rat) \<noteq> 0 \<and>
   (\<exists>self' w' w'' item item'.
      span_end keep_new (reads ''row-c'' ''span-c'' 12) None span_A quiet_world =
        (Inr (JNum 12), self', w') \<and>
      w_bgLogger w' = bg_log (amb_now (reads ''row-c'' ''span-c'' 12)) [item] (w_bgLogger quiet_world) \<and>
      ev_metrics (lr_event (lz_partialRecord item)) = Some (JObj [(''end'', JNum 12)]) \<and>
      span_end keep_new (reads ''row-d'' ''span-d'' 13) None self' w' =
        (Inr (JNum 12), self', w'') \<and>
      w_bgLogger w'' = bg_log (amb_now (reads ''row-d'' ''span-d'' 13)) [item'] (w_bgLogger w') \<and>
      ev_metrics (lr_event (lz_partialRecord item')) = None)"
  using end_twice[where self = span_A and amb = "reads ''row-c'' ''span-c'' 12"
      and endTimeArg = None and x = 12 and md = keep_new and w = quiet_world
      and later = "reads ''row-d'' ''span-d'' 13" and laterArg = None, OF end_of_A]
    end_of_A
  by simp

text \<open>
  The claim C3 as it was stated fails in that the second \<^verbatim>\<open>end()\<close> is no no-op: on
  the span \<^verbatim>\<open>A\<close> in the quiet world, the queue holds one record after the first call
  and two after the second, and the world has changed.
\<close>

theorem second_end_counterexample:
  "\<exists>self' w' w''.
     span_end keep_new (reads ''row-c'' ''span-c'' 12) None span_A quiet_world =
       (Inr (JNum 12), self', w') \<and>
     span_end keep_new (reads ''row-d'' ''span-d'' 13) None self' w' =
       (Inr (JNum 12), self', w'') \<and>
     queued_metrics w' = [Some (JObj [(''end'', JNum 12)])] \<and>
     queued_metrics w'' = [Some (JObj [(''end'', JNum 12)]), None] \<and>
     w'' \<noteq> w'"
proof -
  from span_end_first[OF end_of_A, of keep_new quiet_world] obtain item where
    1: "span_end keep_new (reads ''row-c'' ''span-c'' 12) None span_A quiet_world =
          (Inr (JNum 12), span_A\<lparr>sp_loggedEndTime := JNum 12\<rparr>,
           quiet_world\<lparr>w_bgLogger :=
             bg_log (amb_now (reads ''row-c'' ''span-c'' 12)) [item] (w_bgLogger quiet_world)\<rparr>)"
    and 2: "ev_metrics (lr_event (lz_partialRecord item)) = Some (JObj [(''end'', JNum 12)])"
    by blast
  have q: "bg_log (amb_now (reads ''row-c'' ''span-c'' 12)) [item] (w_bgLogger quiet_world) =
             sync_logger_100\<lparr>items := [item]\<rparr>"
    by (simp add: quiet_world_def bg_log_sync_room sync_logger_100_fields)
  define self' where "self' = span_A\<lparr>sp_loggedEndTime := JNum 12\<rparr>"
  define w' where "w' = quiet_world\<lparr>w_bgLogger := sync_logger_100\<lparr>items := [item]\<rparr>\<rparr>"
  have t: "truthy (sp_loggedEndTime self')" by (simp add: self'_def)
  from span_end_again[OF t, of keep_new "reads ''row-d'' ''span-d'' 13" None w'] obtain item' where
    3: "span_end keep_new (reads ''row-d'' ''span-d'' 13) None self' w' =
          (Inr (sp_loggedEndTime self'), self',
           w'\<lparr>w_bgLogger := bg_log (amb_now (reads ''row-d'' ''span-d'' 13)) [item'] (w_bgLogger w')\<rparr>)"
    and 4: "ev_metrics (lr_event (lz_partialRecord item')) = None"
    by blast
  have q': "bg_log (amb_now (reads ''row-d'' ''span-d'' 13)) [item'] (w_bgLogger w') =
             sync_logger_100\<lparr>items := [item, item']\<rparr>"
    by (simp add: w'_def bg_log_sync_room sync_logger_100_fields)
  define w'' where "w'' = w'\<lparr>w_bgLogger := sync_logger_100\<lparr>items := [item, item']\<rparr>\<rparr>"
  have e1: "span_end keep_new (reads ''row-c'' ''span-c'' 12) None span_A quiet_world =
       (Inr (JNum 12), self', w')"
    using 1 q by (simp add: self'_def w'_def)
  have e2: "span_end keep_new (reads ''row-d'' ''span-d'' 13) None self' w' =
       (Inr (JNum 12), self', w'')"
    using 3 q' by (simp add: w''_def self'_def)
  have m1: "queued_metrics w' = [Some (JObj [(''end'', JNum 12)])]"
    by (simp add: queued_metrics_def w'_def 2)
  have m2: "queued_metrics w'' = [Some (JObj [(''end'', JNum 12)]), None]"
    by (simp add: queued_metrics_def w''_def w'_def 2 4)
  have d: "w'' \<noteq> w'" using m1 m2 by auto
  show ?thesis using e1 e2 m1 m2 d by blast
qed

subsection \<open>The toplevel log after startSpan\<close>

lemma Logger_startSpanImpl_plain:
  "ssa_parent args = None \<Longrightarrow>
   Logger_startSpanImpl fromStr md amb args lg w =
     SpanImpl_new md amb
       \<lparr>pa_parentObjectType = PROJECT_LOGS, pa_parentObjectId = OwnerId,
        pa_parentComputeObjectMetadataArgs = lg_computeMetadataArgs lg,
        pa_parentSpanIds = None\<rparr> args (Some ''task'') w"
  by (simp add: Logger_startSpanImpl_def startSpanParentArgs_def)

lemma Experiment_startSpanImpl_plain:
  "ssa_parent args = None \<Longrightarrow>
   Experiment_startSpanImpl fromStr md amb args ex w =
     SpanImpl_new md amb
       \<lparr>pa_parentObjectType = EXPERIMENT, pa_parentObjectId = OwnerId,
        pa_parentComputeObjectMetadataArgs = None,
        pa_parentSpanIds = None\<rparr> args (Some ''eval'') w"
  by (simp add: Experiment_startSpanImpl_def startSpanParentArgs_def)

lemma SpanImpl_new_root_ok:
  assumes "validateAndSanitizeExperimentLogPartialArgs event = Inr sanitized"
    and "pa_parentSpanIds pargs = None" and "ssa_event args = Some event"
  shows "\<exists>sp w'. SpanImpl_new md amb pargs args drt w = (Inr sp, w')"
proof -
  have s: "validateAndSanitizeExperimentLogPartialArgs (event\<lparr>ev_id := None\<rparr>) =
             Inr (sanitized\<lparr>ev_id := None\<rparr>)"
    using assms(1) by (simp add: sanitize_ignores_id)
  show ?thesis
    using assms(2,3) s
    by (simp add: SpanImpl_new_def Let_def logInternal_def)
qed

lemma span_end_ok:
  "\<exists>t self' w'. span_end md amb endTimeArg self w = (Inr t, self', w')"
  apply (simp add: span_end_def logInternal_def sanitize_empty Let_def case_prod_beta)
  apply (simp add: json_event_def empty_event_def no_internal_data_def)
  done

lemma Logger_log_ok:
  assumes "\<not> lg_calledStartSpan lg \<or> allow = Some True"
    and "validateAndSanitizeExperimentLogPartialArgs event = Inr sanitized"
  shows "\<exists>rowid lg' w'. Logger_log fromStr md amb event allow lg w = (Inr rowid, lg', w')"
proof -
  let ?args = "no_start_span_args\<lparr>ssa_startTime := Some (lg_lastStartTime lg),
                                    ssa_event := Some event\<rparr>"
  have np: "ssa_parent ?args = None" "ssa_event ?args = Some event"
    by (simp_all add: no_start_span_args_def)
  from SpanImpl_new_root_ok[OF assms(2) _ np(2)] obtain sp w1 where
    n: "Logger_startSpanImpl fromStr md amb ?args lg w = (Inr sp, w1)"
    unfolding Logger_startSpanImpl_plain[OF np(1)] by fastforce
  from span_end_ok obtain t sp1 w2 where e: "span_end md amb None sp w1 = (Inr t, sp1, w2)"
    by blast
  show ?thesis using assms(1) n e by (auto simp: Logger_log_def)
qed

lemma Experiment_log_ok:
  assumes "\<not> ex_calledStartSpan ex \<or> allow = Some True"
    and "validateAndSanitizeExperimentLogFullArgs isEmpty event (ex_hasDataset ex) = Inr event1"
    and "validateAndSanitizeExperimentLogPartialArgs event1 = Inr sanitized"
  shows "\<exists>rowid ex' w'. Experiment_log fromStr md isEmpty amb event allow ex w = (Inr rowid, ex', w')"
proof -
  let ?args = "no_start_span_args\<lparr>ssa_startTime := Some (ex_lastStartTime ex),
                                    ssa_event := Some event1\<rparr>"
  have np: "ssa_parent ?args = None" "ssa_event ?args = Some event1"
    by (simp_all add: no_start_span_args_def)
  from SpanImpl_new_root_ok[OF assms(3) _ np(2)] obtain sp w1 where
    n: "Experiment_startSpanImpl fromStr md amb ?args ex w = (Inr sp, w1)"
    unfolding Experiment_startSpanImpl_plain[OF np(1)] by fastforce
  from span_end_ok obtain t sp1 w2 where e: "span_end md amb None sp w1 = (Inr t, sp1, w2)"
    by blast
  show ?thesis using assms(1,2) n e by (auto simp: Experiment_log_def)
qed

lemma Logger_log_flag:
  "lg_calledStartSpan (fst (snd (Logger_log fromStr md amb event allow lg w))) =
     lg_calledStartSpan lg"
  by (auto simp: Logger_log_def split: prod.splits sum.splits)

lemma Experiment_log_flag:
  "ex_calledStartSpan (fst (snd (Experiment_log fromStr md isEmpty amb event allow ex w))) =
     ex_calledStartSpan ex"
  by (auto simp: Experiment_log_def split: prod.splits sum.splits)

lemma valid_event_sanitized:
  "validateAndSanitizeExperimentLogPartialArgs valid_event = Inr valid_event"
  by (simp add: validateAndSanitizeExperimentLogPartialArgs_def sanitize_scores_def
      check_scores_def check_metrics_def check_input_alias_def check_tags_def rename_inputs_def
      valid_event_def empty_event_def)

lemma valid_event_full:
  "validateAndSanitizeExperimentLogFullArgs nullish valid_event (ex_hasDataset fresh_experiment) =
     Inr valid_event"
  by (simp add: validateAndSanitizeExperimentLogFullArgs_def valid_event_def empty_event_def
      nullish_def fresh_experiment_def)

text \<open>
  C10. Once \<^verbatim>\<open>startSpan\<close> has been called on a logger or on an experiment, a toplevel
  \<^verbatim>\<open>log\<close> on that object without \<^verbatim>\<open>allowConcurrentWithSpans: true\<close> throws and leaves
  the object and the world, hence the queue, as they were; \<^verbatim>\<open>startSpan\<close> sets the mark
  whatever comes of it, and \<^verbatim>\<open>log\<close> never changes it, so this holds for every later
  call. When the mark is not set, or the option is passed, \<^verbatim>\<open>log\<close> returns a row id
  for every event the sanitizer accepts (for an experiment: that
  \<^verbatim>\<open>validateAndSanitizeExperimentLogFullArgs\<close> accepts as well).
\<close>

theorem toplevel_log_guard:
  "(lg_calledStartSpan lg \<and> allow \<noteq> Some True \<longrightarrow>
      Logger_log fromStr md amb event allow lg w = (Inl CannotLogWithSpans, lg, w)) \<and>
   (ex_calledStartSpan ex \<and> allow \<noteq> Some True \<longrightarrow>
      Experiment_log fromStr md isEmpty amb event allow ex w = (Inl CannotLogWithSpans, ex, w)) \<and>
   lg_calledStartSpan (fst (snd (Logger_startSpan fromStr md amb args lg w))) \<and>
   ex_calledStartSpan (fst (snd (Experiment_startSpan fromStr md amb args ex w))) \<and>
   lg_calledStartSpan (fst (snd (Logger_log fromStr md amb event allow lg w))) =
     lg_calledStartSpan lg \<and>
   ex_calledStartSpan (fst (snd (Experiment_log fromStr md isEmpty amb event allow ex w))) =
     ex_calledStartSpan ex \<and>
   ((\<not> lg_calledStartSpan lg \<or> allow = Some True) \<and>
    validateAndSanitizeExperimentLogPartialArgs event = Inr sanitized \<longrightarrow>
      (\<exists>rowid lg' w'. Logger_log fromStr md amb event allow lg w = (Inr rowid, lg', w'))) \<and>
   ((\<not> ex_calledStartSpan ex \<or> allow = Some True) \<and>
    validateAndSanitizeExperimentLogFullArgs isEmpty event (ex_hasDataset ex) = Inr event \<and>
    validateAndSanitizeExperimentLogPartialArgs event = Inr sanitized \<longrightarrow>
      (\<exists>rowid ex' w'.
         Experiment_log fromStr md isEmpty amb event allow ex w = (Inr rowid, ex', w')))"
proof (intro conjI impI)
  show "Logger_log fromStr md amb event allow lg w = (Inl CannotLogWithSpans, lg, w)"
    if "lg_calledStartSpan lg \<and> allow \<noteq> Some True"
    using that by (simp add: Logger_log_def)
  show "Experiment_log fromStr md isEmpty amb event allow ex w = (Inl CannotLogWithSpans, ex, w)"
    if "ex_calledStartSpan ex \<and> allow \<noteq> Some True"
    using that by (simp add: Experiment_log_def)
  show "lg_calledStartSpan (fst (snd (Logger_startSpan fromStr md amb args lg w)))"
    by (simp add: Logger_startSpan_def split: prod.splits)
  show "ex_calledStartSpan (fst (snd (Experiment_startSpan fromStr md amb args ex w)))"
    by (simp add: Experiment_startSpan_def split: prod.splits)
  show "lg_calledStartSpan (fst (snd (Logger_log fromStr md amb event allow lg w))) =
     lg_calledStartSpan lg" by (rule Logger_log_flag)
  show "ex_calledStartSpan (fst (snd (Experiment_log fromStr md isEmpty amb event allow ex w))) =
     ex_calledStartSpan ex" by (rule Experiment_log_flag)
  show "\<exists>rowid lg' w'. Logger_log fromStr md amb event allow lg w = (Inr rowid, lg', w')"
    if "(\<not> lg_calledStartSpan lg \<or> allow = Some True) \<and>
        validateAndSanitizeExperimentLogPartialArgs event = Inr sanitized"
    using that Logger_log_ok by blast
  show "\<exists>rowid ex' w'. Experiment_log fromStr md isEmpty amb event allow ex w = (Inr rowid, ex', w')"
    if "(\<not> ex_calledStartSpan ex \<or> allow = Some True) \<and>
        validateAndSanitizeExperimentLogFullArgs isEmpty event (ex_hasDataset ex) = Inr event \<and>
        validateAndSanitizeExperimentLogPartialArgs event = Inr sanitized"
    using that Experiment_log_ok by blast
qed

text \<open>
  The theorem at work: \<^verbatim>\<open>startSpan\<close> on the fresh logger and on the fresh experiment
  sets the mark; with the mark set \<^verbatim>\<open>log\<close> of the valid event throws, and returns with
  the option passed; on the fresh objects it returns.
\<close>

theorem toplevel_log_guard_witness:
  "lg_calledStartSpan
     (fst (snd (Logger_startSpan token_of_x keep_new (reads ''row-a'' ''span-a'' 10)
                  no_start_span_args fresh_logger quiet_world))) \<and>
   Logger_log token_of_x keep_new (reads ''row-e'' ''span-e'' 14) valid_event None
       (fresh_logger\<lparr>lg_calledStartSpan := True\<rparr>) quiet_world =
     (Inl CannotLogWithSpans, fresh_logger\<lparr>lg_calledStartSpan := True\<rparr>, quiet_world) \<and>
   (\<exists>rowid lg' w'.
      Logger_log token_of_x keep_new (reads ''row-e'' ''span-e'' 14) valid_event (Some True)
        (fresh_logger\<lparr>lg_calledStartSpan := True\<rparr>) quiet_world = (Inr rowid, lg', w')) \<and>
   \<not> lg_calledStartSpan fresh_logger \<and>
   validateAndSanitizeExperimentLogPartialArgs valid_event = Inr valid_event \<and>
   (\<exists>rowid lg' w'.
      Logger_log token_of_x keep_new (reads ''row-e'' ''span-e'' 14) valid_event None
        fresh_logger quiet_world = (Inr rowid, lg', w')) \<and>
   ex_calledStartSpan
     (fst (snd (Experiment_startSpan token_of_x keep_new (reads ''row-a'' ''span-a'' 10)
                  no_start_span_args fresh_experiment quiet_world))) \<and>
   Experiment_log token_of_x keep_new nullish (reads ''row-e'' ''span-e'' 14) valid_event None
       (fresh_experiment\<lparr>ex_calledStartSpan := True\<rparr>) quiet_world =
     (Inl CannotLogWithSpans, fresh_experiment\<lparr>ex_calledStartSpan := True\<rparr>, quiet_world) \<and>
   \<not> ex_calledStartSpan fresh_experiment \<and>
   validateAndSanitizeExperimentLogFullArgs nullish valid_event (ex_hasDataset fresh_experiment) =
     Inr valid_event \<and>
   (\<exists>rowid ex' w'.
      Experiment_log token_of_x keep_new nullish (reads ''row-e'' ''span-e'' 14) valid_event None
        fresh_experiment quiet_world = (Inr rowid, ex', w'))"
proof -
  have fl: "\<not> lg_calledStartSpan fresh_logger" by (simp add: fresh_logger_def)
  have fe: "\<not> ex_calledStartSpan fresh_experiment" by (simp add: fresh_experiment_def)
  have he: "ex_hasDataset (fresh_experiment\<lparr>ex_calledStartSpan := True\<rparr>) =
              ex_hasDataset fresh_experiment" by simp
  note started =
    toplevel_log_guard[where lg = "fresh_logger\<lparr>lg_calledStartSpan := True\<rparr>"
      and ex = "fresh_experiment\<lparr>ex_calledStartSpan := True\<rparr>" and allow = None
      and fromStr = token_of_x and md = keep_new and amb = "reads ''row-e'' ''span-e'' 14"
      and event = valid_event and w = quiet_world and isEmpty = nullish
      and sanitized = valid_event]
  note allowed =
    toplevel_log_guard[where lg = "fresh_logger\<lparr>lg_calledStartSpan := True\<rparr>"
      and ex = "fresh_experiment\<lparr>ex_calledStartSpan := True\<rparr>" and allow = "Some True"
      and fromStr = token_of_x and md = keep_new and amb = "reads ''row-e'' ''span-e'' 14"
      and event = valid_event and w = quiet_world and isEmpty = nullish
      and sanitized = valid_event]
  note fresh =
    toplevel_log_guard[where lg = fresh_logger and ex = fresh_experiment and allow = None
      and fromStr = token_of_x and md = keep_new and amb = "reads ''row-e'' ''span-e'' 14"
      and event = valid_event and w = quiet_world and isEmpty = nullish
      and sanitized = valid_event
      and args = no_start_span_args]
  note starts =
    toplevel_log_guard[where lg = fresh_logger and ex = fresh_experiment
      and fromStr = token_of_x and md = keep_new and amb = "reads ''row-a'' ''span-a'' 10"
      and w = quiet_world and args = no_start_span_args]
  have 1: "lg_calledStartSpan
     (fst (snd (Logger_startSpan token_of_x keep_new (reads ''row-a'' ''span-a'' 10)
                  no_start_span_args fresh_logger quiet_world)))"
    using starts by blast
  have 2: "ex_calledStartSpan
     (fst (snd (Experiment_startSpan token_of_x keep_new (reads ''row-a'' ''span-a'' 10)
                  no_start_span_args fresh_experiment quiet_world)))"
    using starts by blast
  have 3: "Logger_log token_of_x keep_new (reads ''row-e'' ''span-e'' 14) valid_event None
       (fresh_logger\<lparr>lg_calledStartSpan := True\<rparr>) quiet_world =
     (Inl CannotLogWithSpans, fresh_logger\<lparr>lg_calledStartSpan := True\<rparr>, quiet_world)"
    using started by simp
  have 4: "Experiment_log token_of_x keep_new nullish (reads ''row-e'' ''span-e'' 14) valid_event None
       (fresh_experiment\<lparr>ex_calledStartSpan := True\<rparr>) quiet_world =
     (Inl CannotLogWithSpans, fresh_experiment\<lparr>ex_calledStartSpan := True\<rparr>, quiet_world)"
    using started by simp
  have 5: "\<exists>rowid lg' w'.
      Logger_log token_of_x keep_new (reads ''row-e'' ''span-e'' 14) valid_event (Some True)
        (fresh_logger\<lparr>lg_calledStartSpan := True\<rparr>) quiet_world = (Inr rowid, lg', w')"
    using allowed valid_event_sanitized by blast
  have 6: "\<exists>rowid lg' w'.
      Logger_log token_of_x keep_new (reads ''row-e'' ''span-e'' 14) valid_event None
        fresh_logger quiet_world = (Inr rowid, lg', w')"
    using fresh valid_event_sanitized fl by blast
  have 7: "\<exists>rowid ex' w'.
      Experiment_log token_of_x keep_new nullish (reads ''row-e'' ''span-e'' 14) valid_event None
        fresh_experiment quiet_world = (Inr rowid, ex', w')"
    using fresh valid_event_sanitized valid_event_full fe by blast
  show ?thesis
    using 1 2 3 4 5 6 7 fl fe valid_event_sanitized valid_event_full by blast
qed

end
